(* ===== verification/IOSock_Prelude.thy ===== *)
theory IOSock_Prelude
  imports Main "HOL-Library.Word" "HOL-Library.Monad_Syntax"
begin

text \<open>
  Shared vocabulary of the development: machine types, the values of \<^verbatim>\<open>std::io\<close>
  that the program passes around, panics, slices, and the contracts of the
  \<^verbatim>\<open>Read\<close> and \<^verbatim>\<open>Write\<close> traits.

  Conventions used by every other theory:
  \<^item> A Rust function that can panic returns an \<open>option\<close>; \<open>None\<close> is the panic
    (the release profile of the crate aborts on a panic, so no code runs after one).
  \<^item> \<^verbatim>\<open>io::Result<T>\<close> is \<open>'a io_result\<close>. A function that mutates its
    arguments returns the result together with the new values, also on an error.
  \<^item> \<^verbatim>\<open>usize\<close> is \<open>nat\<close>; additions and subtractions go through \<open>usize_add\<close>
    and \<open>usize_sub\<close>, which panic on overflow as overflow-checked builds do.
  \<^item> Everything outside the repository (the kernel, \<^verbatim>\<open>epoll\<close>, \<^verbatim>\<open>libc\<close>)
    acts on a world of an arbitrary type \<open>'w\<close> through functions that are parameters.
\<close>

section \<open>Machine types and IO results\<close>

type_synonym u8 = "8 word"
type_synonym u16 = "16 word"
type_synonym u32 = "32 word"
type_synonym u64 = "64 word"
type_synonym c_int = "32 word"
type_synonym RawFd = "32 word"

datatype ErrorKind =
    ConnectionReset
  | BrokenPipe
  | Interrupted
  | InvalidData
  | OtherKind nat

record io_error =
  kind :: ErrorKind
  raw_os_error :: "int option"

datatype 'a io_result = Ok 'a | Err io_error

definition error_of_kind :: "ErrorKind \<Rightarrow> io_error" where
  "error_of_kind k = \<lparr>kind = k, raw_os_error = None\<rparr>"

lemma kind_error_of_kind [simp]: "kind (error_of_kind k) = k"
  by (simp add: error_of_kind_def)

named_theorems buffer_simps \<open>behaviour of the flip buffer under its invariant\<close>
named_theorems registry_simps \<open>behaviour of the polled descriptor set under its invariant\<close>
named_theorems manager_defs \<open>unfolding of the channel manager's operations\<close>

section \<open>Checked arithmetic\<close>

definition usize_add :: "nat \<Rightarrow> nat \<Rightarrow> nat option" where
  "usize_add a b = (if a + b < 2 ^ 64 then Some (a + b) else None)"

definition usize_sub :: "nat \<Rightarrow> nat \<Rightarrow> nat option" where
  "usize_sub a b = (if b \<le> a then Some (a - b) else None)"

lemma usize_sub_le [simp]: "b \<le> a \<Longrightarrow> usize_sub a b = Some (a - b)"
  by (simp add: usize_sub_def)

lemma usize_add_small: "a + b < 2 ^ 64 \<Longrightarrow> usize_add a b = Some (a + b)"
  by (simp add: usize_add_def)

section \<open>Slices\<close>

text \<open>\<open>slice_range xs a b\<close> is \<^verbatim>\<open>&xs[a..b]\<close>, with the panics of range indexing;
  \<open>overwrite xs a ys\<close> is the owner after the slice starting at \<open>a\<close> was overwritten by \<open>ys\<close>.\<close>

definition slice_range :: "'a list \<Rightarrow> nat \<Rightarrow> nat \<Rightarrow> 'a list option" where
  "slice_range xs a b =
     (if a \<le> b \<and> b \<le> length xs then Some (take (b - a) (drop a xs)) else None)"

definition overwrite :: "'a list \<Rightarrow> nat \<Rightarrow> 'a list \<Rightarrow> 'a list" where
  "overwrite xs a ys = take a xs @ ys @ drop (a + length ys) xs"

lemma slice_range_ok [simp]:
  "a \<le> b \<Longrightarrow> b \<le> length xs \<Longrightarrow> slice_range xs a b = Some (take (b - a) (drop a xs))"
  by (simp add: slice_range_def)

lemma length_overwrite [simp]: "a + length ys \<le> length xs \<Longrightarrow> length (overwrite xs a ys) = length xs"
  by (simp add: overwrite_def)

lemma take_overwrite_before: "a \<le> length xs \<Longrightarrow> take a (overwrite xs a ys) = take a xs"
  by (simp add: overwrite_def)

lemma take_overwrite_into:
  "a \<le> length xs \<Longrightarrow> n \<le> length ys \<Longrightarrow> take (a + n) (overwrite xs a ys) = take a xs @ take n ys"
  by (simp add: overwrite_def min_def)

section \<open>Association lists\<close>

lemma map_of_filter_key: "map_of (filter (\<lambda>kv. fst kv \<noteq> a) xs) = (map_of xs)(a := None)"
  by (induction xs) (auto simp: fun_eq_iff)

section \<open>The Read and Write traits\<close>

text \<open>\<^verbatim>\<open>Read::read(&mut self, buf)\<close>: the slice before, the reader's state, and in return
  the result, the slice after and the reader's state after.\<close>

type_synonym 'r Read = "u8 list \<Rightarrow> 'r \<Rightarrow> (nat io_result \<times> u8 list) \<times> 'r"

record 'r Write =
  write_fn :: "u8 list \<Rightarrow> 'r \<Rightarrow> nat io_result \<times> 'r"
  flush_fn :: "'r \<Rightarrow> unit io_result \<times> 'r"

text \<open>The documented contracts: a read or write of a buffer never reports more bytes than
  the buffer has, and a slice keeps its length.\<close>

definition read_contract :: "'r Read \<Rightarrow> bool" where
  "read_contract rd \<longleftrightarrow> (\<forall>s r res s' r'. rd s r = ((res, s'), r') \<longrightarrow>
     length s' = length s \<and> (\<forall>n. res = Ok n \<longrightarrow> n \<le> length s))"

definition write_contract :: "'r Write \<Rightarrow> bool" where
  "write_contract W \<longleftrightarrow> (\<forall>s r n r'. write_fn W s r = (Ok n, r') \<longrightarrow> n \<le> length s)"

lemma read_contractD:
  assumes "read_contract rd" and "rd s r = ((res, s'), r')"
  shows "length s' = length s" and "res = Ok n \<Longrightarrow> n \<le> length s"
  using assms unfolding read_contract_def by blast+

lemma write_contractD: "write_contract W \<Longrightarrow> write_fn W s r = (Ok n, r') \<Longrightarrow> n \<le> length s"
  unfolding write_contract_def by blast

text \<open>Two in-memory streams of the standard library on one state, a pair of the bytes still to be
  read and the bytes written so far: \<^verbatim>\<open>impl Read for &[u8]\<close> copies as much as fits and
  \<^verbatim>\<open>impl Write for Vec<u8>\<close> takes everything.\<close>

definition mem_read :: "(u8 list \<times> u8 list) Read" where
  "mem_read s r = (let n = min (length s) (length (fst r))
     in ((Ok n, take n (fst r) @ drop n s), (drop n (fst r), snd r)))"

definition mem_writer :: "(u8 list \<times> u8 list) Write" where
  "mem_writer = \<lparr>write_fn = (\<lambda>s r. (Ok (length s), (fst r, snd r @ s))), flush_fn = (\<lambda>r. (Ok (), r))\<rparr>"

lemma mem_read_contract [simp]: "read_contract mem_read"
  by (auto simp: read_contract_def mem_read_def Let_def)

lemma mem_writer_contract [simp]: "write_contract mem_writer"
  by (auto simp: write_contract_def mem_writer_def)

section \<open>Writing everything\<close>

text \<open>\<^verbatim>\<open>Write::write_all\<close> of the standard library; \<open>None\<close> is a stream that is interrupted forever.\<close>

definition WriteZero :: ErrorKind where
  "WriteZero = OtherKind 0"

partial_function (option) write_all :: "'w Write \<Rightarrow> u8 list \<Rightarrow> 'w \<Rightarrow> (unit io_result \<times> 'w) option" where
  "write_all W buf w =
     (if buf = [] then Some (Ok (), w)
      else (case write_fn W buf w of
              (Ok n, w') \<Rightarrow> if n = 0 then Some (Err (error_of_kind WriteZero), w') else write_all W (drop n buf) w'
            | (Err e, w') \<Rightarrow> if kind e = Interrupted then write_all W buf w' else Some (Err e, w')))"

end
