(* ===== verification/Flip_Buffer.thy ===== *)
theory Flip_Buffer
  imports IOSock_Prelude "HOL-Library.Sublist"
begin

text \<open>
  The double-page byte buffer of \<^verbatim>\<open>src/src/buffer.rs\<close>: its record, one definition per
  method in source order, its invariant, the byte sequence it stands for
  (\<open>contents\<close>), and the proof that it is a bounded FIFO queue of bytes.
\<close>

section \<open>State and operations\<close>

definition BUFFER_CAPACITY :: nat where
  "BUFFER_CAPACITY = 32 * 1024"

record FlipBuffer =
  read_page :: "u8 list"
  write_page :: "u8 list"
  read_cursor :: nat
  read_max :: nat
  write_cursor :: nat

datatype CopyResult =
    BufferNotReady
  | IOCompleted nat
  | IOError ErrorKind

datatype BufferStateChange = BecameEmpty | BecameNonEmpty | NoChange

text \<open>\<^verbatim>\<open>impl From<io::Result<usize>> for CopyResult\<close>.\<close>

fun copy_result_from :: "nat io_result \<Rightarrow> CopyResult" where
  "copy_result_from (Ok sz) = IOCompleted sz"
| "copy_result_from (Err err) = IOError (kind err)"

definition heap_buffer :: "nat \<Rightarrow> u8 list" where
  "heap_buffer sz = replicate sz 0"

definition new_buffer :: FlipBuffer where
  "new_buffer = \<lparr>read_page = heap_buffer BUFFER_CAPACITY, write_page = heap_buffer BUFFER_CAPACITY,
     read_cursor = 0, read_max = 0, write_cursor = 0\<rparr>"

definition flip_buffers :: "FlipBuffer \<Rightarrow> FlipBuffer" where
  "flip_buffers b =
     b\<lparr>read_cursor := 0, read_max := write_cursor b, write_cursor := 0,
       read_page := write_page b, write_page := read_page b\<rparr>"

definition is_read_empty :: "FlipBuffer \<Rightarrow> bool" where
  "is_read_empty b \<longleftrightarrow> read_cursor b = read_max b"

definition is_write_empty :: "FlipBuffer \<Rightarrow> bool" where
  "is_write_empty b \<longleftrightarrow> write_cursor b = 0"

definition writable_size :: "FlipBuffer \<Rightarrow> nat option" where
  "writable_size b = do {
     readable \<leftarrow> usize_sub (read_max b) (read_cursor b);
     usize_add readable (write_cursor b)
   }"

text \<open>The closure given to \<^verbatim>\<open>map\<close> in \<^verbatim>\<open>read_from\<close> runs on \<^verbatim>\<open>Ok\<close> only; the
  slice is written back in either case.\<close>

definition read_from ::
  "'r Read \<Rightarrow> FlipBuffer \<Rightarrow> 'r \<Rightarrow> ((CopyResult \<times> BufferStateChange) \<times> FlipBuffer \<times> 'r) option" where
  "read_from rd b0 r = (
     let was_empty = (is_read_empty b0 \<and> is_write_empty b0);
         b = (if write_cursor b0 = BUFFER_CAPACITY \<and> read_cursor b0 = read_max b0
              then flip_buffers b0 else b0)
     in do {
       writable \<leftarrow> usize_sub BUFFER_CAPACITY (write_cursor b);
       if writable = 0 then Some ((BufferNotReady, NoChange), b, r)
       else do {
         slice \<leftarrow> slice_range (write_page b) (write_cursor b) BUFFER_CAPACITY;
         (case rd slice r of ((result, slice'), r') \<Rightarrow>
            let b' = b\<lparr>write_page := overwrite (write_page b) (write_cursor b) slice'\<rparr>
            in (case result of
                  Ok sz \<Rightarrow> do {
                    wc \<leftarrow> usize_add (write_cursor b) sz;
                    Some ((copy_result_from result,
                           if sz > 0 \<and> was_empty then BecameNonEmpty else NoChange),
                          b'\<lparr>write_cursor := wc\<rparr>, r')
                  }
                | Err _ \<Rightarrow> Some ((copy_result_from result, NoChange), b', r')))
       }
     })"

definition read_or_drain ::
  "'r Read \<Rightarrow> FlipBuffer \<Rightarrow> 'r \<Rightarrow> ((CopyResult \<times> BufferStateChange) \<times> FlipBuffer \<times> 'r) option" where
  "read_or_drain rd b r = do {
     (res, b', r') \<leftarrow> read_from rd b r;
     (case res of
        (BufferNotReady, change) \<Rightarrow>
          (case rd (heap_buffer 8192) r' of ((result, _), r'') \<Rightarrow>
             (case result of
                Err err \<Rightarrow> Some ((IOError (kind err), change), b', r'')
              | Ok _ \<Rightarrow> Some ((BufferNotReady, change), b', r'')))
      | result \<Rightarrow> Some (result, b', r'))
   }"

text \<open>In \<^verbatim>\<open>write_to\<close> the state change is recorded before the flush, so it is
  reported also when the flush fails.\<close>

definition write_to ::
  "'r Write \<Rightarrow> FlipBuffer \<Rightarrow> 'r \<Rightarrow> ((CopyResult \<times> BufferStateChange) \<times> FlipBuffer \<times> 'r) option" where
  "write_to W b0 r = (
     let b = (if read_cursor b0 = read_max b0 \<and> write_cursor b0 > 0 then flip_buffers b0 else b0)
     in do {
       readable \<leftarrow> usize_sub (read_max b) (read_cursor b);
       if readable = 0 then Some ((BufferNotReady, NoChange), b, r)
       else do {
         slice \<leftarrow> slice_range (read_page b) (read_cursor b) (read_max b);
         (case write_fn W slice r of
            (Err err, r') \<Rightarrow> Some ((copy_result_from (Err err), NoChange), b, r')
          | (Ok sz, r') \<Rightarrow> do {
              rc \<leftarrow> usize_add (read_cursor b) sz;
              let b' = b\<lparr>read_cursor := rc\<rparr>;
                  change = (if is_read_empty b' \<and> is_write_empty b' then BecameEmpty else NoChange)
              in (case flush_fn W r' of
                    (Ok _, r'') \<Rightarrow> Some ((copy_result_from (Ok sz), change), b', r'')
                  | (Err err, r'') \<Rightarrow> Some ((copy_result_from (Err err), change), b', r''))
            })
       }
     })"

definition discard :: "FlipBuffer \<Rightarrow> BufferStateChange \<times> FlipBuffer" where
  "discard b = (
     let direct_readable = is_read_empty b;
         flip_readable = is_write_empty b
     in (if direct_readable \<and> \<not> flip_readable then BecameEmpty else NoChange,
         b\<lparr>write_cursor := 0\<rparr>))"

section \<open>Invariant and abstraction\<close>

definition buf_inv :: "FlipBuffer \<Rightarrow> bool" where
  "buf_inv b \<longleftrightarrow> length (read_page b) = BUFFER_CAPACITY \<and> length (write_page b) = BUFFER_CAPACITY \<and>
     read_cursor b \<le> read_max b \<and> read_max b \<le> BUFFER_CAPACITY \<and> write_cursor b \<le> BUFFER_CAPACITY"

text \<open>The bytes the buffer holds, oldest first: what is left of the read page, then what was
  put into the write page.\<close>

definition readable_part :: "FlipBuffer \<Rightarrow> u8 list" where
  "readable_part b = take (read_max b - read_cursor b) (drop (read_cursor b) (read_page b))"

definition contents :: "FlipBuffer \<Rightarrow> u8 list" where
  "contents b = readable_part b @ take (write_cursor b) (write_page b)"

definition buffer_full :: "FlipBuffer \<Rightarrow> bool" where
  "buffer_full b \<longleftrightarrow> write_cursor b = BUFFER_CAPACITY \<and> read_cursor b < read_max b"

text \<open>The buffer after the optional flip of \<^verbatim>\<open>read_from\<close> and of \<^verbatim>\<open>write_to\<close>, and the slices
  these methods then hand to the stream.\<close>

definition read_flip :: "FlipBuffer \<Rightarrow> FlipBuffer" where
  "read_flip b = (if write_cursor b = BUFFER_CAPACITY \<and> read_cursor b = read_max b
     then flip_buffers b else b)"

definition write_flip :: "FlipBuffer \<Rightarrow> FlipBuffer" where
  "write_flip b = (if read_cursor b = read_max b \<and> write_cursor b > 0 then flip_buffers b else b)"

definition space_slice :: "FlipBuffer \<Rightarrow> u8 list" where
  "space_slice b = drop (write_cursor (read_flip b)) (write_page (read_flip b))"

definition data_slice :: "FlipBuffer \<Rightarrow> u8 list" where
  "data_slice b = readable_part (write_flip b)"

lemma capacity_bounds [simp]: "0 < BUFFER_CAPACITY" "BUFFER_CAPACITY + BUFFER_CAPACITY < 2 ^ 64"
  by (simp_all add: BUFFER_CAPACITY_def)

lemma usize_add_capacity [simp]:
  "a \<le> BUFFER_CAPACITY \<Longrightarrow> b \<le> BUFFER_CAPACITY \<Longrightarrow> usize_add a b = Some (a + b)"
  using capacity_bounds(2) by (intro usize_add_small) linarith

lemma buf_invD:
  assumes "buf_inv b"
  shows "length (read_page b) = BUFFER_CAPACITY" "length (write_page b) = BUFFER_CAPACITY"
    "read_cursor b \<le> read_max b" "read_max b \<le> BUFFER_CAPACITY" "write_cursor b \<le> BUFFER_CAPACITY"
  using assms by (simp_all add: buf_inv_def)

lemma buf_inv_new [simp]: "buf_inv new_buffer"
  by (simp add: buf_inv_def new_buffer_def heap_buffer_def)

lemma contents_new [simp]: "contents new_buffer = []"
  by (simp add: contents_def readable_part_def new_buffer_def)

lemma buf_inv_flip: "buf_inv b \<Longrightarrow> buf_inv (flip_buffers b)"
  by (simp add: buf_inv_def flip_buffers_def)

lemma contents_flip: "read_cursor b = read_max b \<Longrightarrow> contents (flip_buffers b) = contents b"
  by (simp add: contents_def readable_part_def flip_buffers_def)

lemma flip_keeps [buffer_simps]:
  assumes "buf_inv b"
  shows "buf_inv (read_flip b)" "buf_inv (write_flip b)"
    "contents (read_flip b) = contents b" "contents (write_flip b) = contents b"
  using assms by (simp_all add: read_flip_def write_flip_def buf_inv_flip contents_flip)

lemma length_readable_part: "buf_inv b \<Longrightarrow> length (readable_part b) = read_max b - read_cursor b"
  by (auto simp: readable_part_def buf_inv_def min_def)

lemma length_contents:
  "buf_inv b \<Longrightarrow> length (contents b) = (read_max b - read_cursor b) + write_cursor b"
  by (simp add: contents_def length_readable_part buf_invD)

lemma contents_empty_iff:
  "buf_inv b \<Longrightarrow> contents b = [] \<longleftrightarrow> is_read_empty b \<and> is_write_empty b"
  using length_contents [of b] buf_invD(3) [of b]
  by (auto simp: is_read_empty_def is_write_empty_def simp flip: length_0_conv)

lemma writable_size_eq [buffer_simps]: "buf_inv b \<Longrightarrow> writable_size b = Some (length (contents b))"
  by (simp add: writable_size_def length_contents buf_invD le_trans [OF diff_le_self buf_invD(4)])

lemma contents_bound: "buf_inv b \<Longrightarrow> length (contents b) \<le> 2 * BUFFER_CAPACITY"
  using buf_invD [of b] by (simp add: length_contents)

lemma write_flip_readable:
  "buf_inv b \<Longrightarrow> read_cursor (write_flip b) = read_max (write_flip b) \<Longrightarrow> contents b = []"
  using contents_empty_iff [of b]
  by (auto simp: write_flip_def flip_buffers_def is_read_empty_def is_write_empty_def split: if_splits)

lemma contents_data_slice:
  "buf_inv b \<Longrightarrow> contents b = data_slice b @ take (write_cursor (write_flip b)) (write_page (write_flip b))"
  using flip_keeps(4) [of b] by (simp add: data_slice_def contents_def)

lemma data_slice_nonempty: "buf_inv b \<Longrightarrow> data_slice b = [] \<longleftrightarrow> contents b = []"
  using write_flip_readable [of b] contents_data_slice [of b] length_readable_part [of "write_flip b"]
    buf_invD(3) [of "write_flip b"] flip_keeps(2) [of b]
  by (auto simp: data_slice_def simp flip: length_0_conv)

section \<open>Behaviour of the operations\<close>

text \<open>What a copy into the buffer does: \<open>fill_spec\<close> relates a result of \<^verbatim>\<open>read_from\<close> to the
  buffer before and after and to the one read of the stream that was made.\<close>

definition fill_spec ::
  "'r Read \<Rightarrow> FlipBuffer \<Rightarrow> 'r \<Rightarrow> CopyResult \<times> BufferStateChange \<Rightarrow> FlipBuffer \<Rightarrow> 'r \<Rightarrow> bool" where
  "fill_spec rd b r rc b' r' \<longleftrightarrow>
     (case fst rc of
        BufferNotReady \<Rightarrow> buffer_full b \<and> b' = b \<and> r' = r \<and> snd rc = NoChange
      | IOCompleted n \<Rightarrow> \<not> buffer_full b \<and>
          (\<exists>s'. rd (space_slice b) r = ((Ok n, s'), r') \<and> contents b' = contents b @ take n s' \<and>
             n \<le> length s' \<and>
             snd rc = (if contents b = [] \<and> 0 < n then BecameNonEmpty else NoChange))
      | IOError k \<Rightarrow> \<not> buffer_full b \<and>
          (\<exists>e s'. rd (space_slice b) r = ((Err e, s'), r') \<and> k = kind e \<and>
             contents b' = contents b \<and> snd rc = NoChange))"

lemma read_from_full: "buf_inv b \<Longrightarrow> buffer_full b \<Longrightarrow>
    read_from rd b r = Some ((BufferNotReady, NoChange), b, r)"
  by (simp add: read_from_def buffer_full_def)

lemma space_slice_length: "buf_inv b \<Longrightarrow>
    length (space_slice b) = BUFFER_CAPACITY - write_cursor (read_flip b)"
  by (simp add: space_slice_def flip_keeps buf_invD)

lemma space_slice_nonempty: "buf_inv b \<Longrightarrow> \<not> buffer_full b \<Longrightarrow> space_slice b \<noteq> []"
  using space_slice_length [of b] buf_invD(3,5) [of b]
  by (auto simp: buffer_full_def read_flip_def flip_buffers_def simp flip: length_0_conv)

lemma read_from_not_full:
  assumes inv: "buf_inv b" and room: "\<not> buffer_full b"
  shows "read_from rd b r =
    (case rd (space_slice b) r of ((result, s'), r') \<Rightarrow>
       let b' = (read_flip b)\<lparr>write_page :=
             overwrite (write_page (read_flip b)) (write_cursor (read_flip b)) s'\<rparr>
       in (case result of
             Ok n \<Rightarrow> do { wc \<leftarrow> usize_add (write_cursor (read_flip b)) n;
               Some ((IOCompleted n, if 0 < n \<and> contents b = [] then BecameNonEmpty else NoChange),
                     b'\<lparr>write_cursor := wc\<rparr>, r') }
           | Err e \<Rightarrow> Some ((IOError (kind e), NoChange), b', r')))"
proof -
  note f = flip_keeps(1) [OF inv]
  have ws: "BUFFER_CAPACITY - write_cursor (read_flip b) \<noteq> 0"
    using space_slice_nonempty [OF inv room] space_slice_length [OF inv] by auto
  have sl: "slice_range (write_page (read_flip b)) (write_cursor (read_flip b)) BUFFER_CAPACITY
      = Some (space_slice b)"
    using buf_invD [OF f] by (simp add: space_slice_def)
  have fold: "(if write_cursor b = BUFFER_CAPACITY \<and> read_cursor b = read_max b
      then flip_buffers b else b) = read_flip b"
    by (simp add: read_flip_def)
  show ?thesis
    unfolding read_from_def Let_def fold
    using ws by (simp add: sl buf_invD [OF f] contents_empty_iff [OF inv]
        split: prod.split io_result.split)
qed

lemma contents_overwrite:
  assumes "buf_inv b" and "length s' = BUFFER_CAPACITY - write_cursor b" and "n \<le> length s'"
  shows "buf_inv (b\<lparr>write_page := overwrite (write_page b) (write_cursor b) s',
            write_cursor := write_cursor b + n\<rparr>)"
    and "contents (b\<lparr>write_page := overwrite (write_page b) (write_cursor b) s',
            write_cursor := write_cursor b + n\<rparr>) = contents b @ take n s'"
  using assms buf_invD [OF assms(1)]
  by (auto simp: buf_inv_def contents_def readable_part_def take_overwrite_into)

lemma contents_overwrite_error:
  assumes "buf_inv b" and "length s' = BUFFER_CAPACITY - write_cursor b"
  shows "buf_inv (b\<lparr>write_page := overwrite (write_page b) (write_cursor b) s'\<rparr>)"
    and "contents (b\<lparr>write_page := overwrite (write_page b) (write_cursor b) s'\<rparr>) = contents b"
  using assms buf_invD [OF assms(1)]
  by (auto simp: buf_inv_def contents_def readable_part_def take_overwrite_before)

lemma read_from_total:
  assumes inv: "buf_inv b" and rd: "read_contract rd"
  shows "\<exists>rc b' r'. read_from rd b r = Some (rc, b', r') \<and> buf_inv b' \<and> fill_spec rd b r rc b' r'"
proof (cases "buffer_full b")
  case True
  then show ?thesis using inv by (simp add: read_from_full fill_spec_def)
next
  case False
  obtain res s' r' where io: "rd (space_slice b) r = ((res, s'), r')"
    by (metis surj_pair)
  note f = flip_keeps(1,3) [OF inv]
  have len: "length s' = BUFFER_CAPACITY - write_cursor (read_flip b)"
    using read_contractD(1) [OF rd io] space_slice_length [OF inv] by simp
  show ?thesis
  proof (cases res)
    case (Ok n)
    then have "n \<le> length s'"
      using read_contractD [OF rd io] by simp
    then show ?thesis
      using contents_overwrite [OF f(1) len] f(2) False len io Ok buf_invD(5) [OF f(1)]
      by (auto simp: read_from_not_full [OF inv False] fill_spec_def)
  next
    case (Err e)
    then show ?thesis
      using contents_overwrite_error [OF f(1) len] f(2) False io
      by (auto simp: read_from_not_full [OF inv False] fill_spec_def)
  qed
qed

text \<open>What a copy out of the buffer does. The stream is offered a non-empty prefix of the
  contents (\<open>data_slice\<close>) in one write, followed by a flush when the write succeeded.\<close>

definition drain_spec ::
  "'r Write \<Rightarrow> FlipBuffer \<Rightarrow> 'r \<Rightarrow> CopyResult \<times> BufferStateChange \<Rightarrow> FlipBuffer \<Rightarrow> 'r \<Rightarrow> bool" where
  "drain_spec W b r rc b' r' \<longleftrightarrow>
     (if contents b = [] then rc = (BufferNotReady, NoChange) \<and> contents b' = [] \<and> r' = r
      else (case write_fn W (data_slice b) r of
              (Err e, r1) \<Rightarrow> rc = (IOError (kind e), NoChange) \<and> contents b' = contents b \<and> r' = r1
            | (Ok n, r1) \<Rightarrow> n \<le> length (data_slice b) \<and> contents b' = drop n (contents b) \<and>
                snd rc = (if contents b' = [] then BecameEmpty else NoChange) \<and>
                (case flush_fn W r1 of
                   (Ok _, r2) \<Rightarrow> fst rc = IOCompleted n \<and> r' = r2
                 | (Err e, r2) \<Rightarrow> fst rc = IOError (kind e) \<and> r' = r2)))"

lemma advance_read_cursor:
  assumes "buf_inv b" and "n \<le> read_max b - read_cursor b"
  shows "buf_inv (b\<lparr>read_cursor := read_cursor b + n\<rparr>)"
    and "contents (b\<lparr>read_cursor := read_cursor b + n\<rparr>) = drop n (contents b)"
  using assms buf_invD [OF assms(1)]
  by (auto simp: buf_inv_def contents_def readable_part_def drop_take add.commute min_def)

lemma write_to_nonempty:
  assumes inv: "buf_inv b" and ne: "contents b \<noteq> []"
  shows "write_to W b r =
    (case write_fn W (data_slice b) r of
       (Err e, r1) \<Rightarrow> Some ((IOError (kind e), NoChange), write_flip b, r1)
     | (Ok n, r1) \<Rightarrow> do {
         rc \<leftarrow> usize_add (read_cursor (write_flip b)) n;
         let b' = (write_flip b)\<lparr>read_cursor := rc\<rparr>;
             change = (if is_read_empty b' \<and> is_write_empty b' then BecameEmpty else NoChange)
         in (case flush_fn W r1 of
               (Ok _, r2) \<Rightarrow> Some ((IOCompleted n, change), b', r2)
             | (Err e, r2) \<Rightarrow> Some ((IOError (kind e), change), b', r2)) })"
proof -
  note f = flip_keeps(2) [OF inv]
  have ne': "read_max (write_flip b) - read_cursor (write_flip b) \<noteq> 0"
    using ne write_flip_readable [OF inv] buf_invD(3) [OF f] by auto
  have sl: "slice_range (read_page (write_flip b)) (read_cursor (write_flip b)) (read_max (write_flip b))
      = Some (data_slice b)"
    using buf_invD [OF f] by (simp add: data_slice_def readable_part_def)
  have fold: "(if read_cursor b = read_max b \<and> 0 < write_cursor b then flip_buffers b else b) = write_flip b"
    by (simp add: write_flip_def)
  show ?thesis
    unfolding write_to_def Let_def fold copy_result_from.simps
    using ne' by (simp add: sl buf_invD [OF f] split: prod.split io_result.split)
qed

lemma write_to_empty:
  assumes "buf_inv b" and "contents b = []"
  shows "write_to W b r = Some ((BufferNotReady, NoChange), b, r)"
  using assms contents_empty_iff [of b]
  by (simp add: write_to_def is_read_empty_def is_write_empty_def)

lemma write_to_total:
  assumes inv: "buf_inv b" and W: "write_contract W"
  shows "\<exists>rc b' r'. write_to W b r = Some (rc, b', r') \<and> buf_inv b' \<and> drain_spec W b r rc b' r'"
proof (cases "contents b = []")
  case True
  then show ?thesis using inv by (simp add: write_to_empty drain_spec_def)
next
  case False
  note f = flip_keeps(2,4) [OF inv]
  obtain res r1 where io: "write_fn W (data_slice b) r = (res, r1)"
    by fastforce
  show ?thesis
  proof (cases res)
    case (Ok n)
    then have n: "n \<le> length (data_slice b)"
      using write_contractD [OF W] io by simp
    then have n': "n \<le> read_max (write_flip b) - read_cursor (write_flip b)"
      using length_readable_part [OF f(1)] by (simp add: data_slice_def)
    moreover have "read_cursor (write_flip b) + n < 2 ^ 64"
      using n' buf_invD(3,4) [OF f(1)] capacity_bounds(2) by linarith
    ultimately have cursor: "usize_add (read_cursor (write_flip b)) n = Some (read_cursor (write_flip b) + n)"
      by (intro usize_add_small)
    obtain fr r2 where fl: "flush_fn W r1 = (fr, r2)" by fastforce
    note adv = advance_read_cursor [OF f(1) n']
    let ?b' = "(write_flip b)\<lparr>read_cursor := read_cursor (write_flip b) + n\<rparr>"
    have eq: "write_to W b r = Some ((case fr of Ok _ \<Rightarrow> IOCompleted n | Err e \<Rightarrow> IOError (kind e),
        if contents ?b' = [] then BecameEmpty else NoChange), ?b', r2)"
      using contents_empty_iff [OF adv(1)]
      by (cases fr) (simp_all add: write_to_nonempty [OF inv False] io Ok fl cursor Let_def)
    show ?thesis
      unfolding eq using adv n False
      by (cases fr) (simp_all add: drain_spec_def io Ok fl f(2))
  next
    case (Err e)
    then show ?thesis
      using io False f by (simp add: write_to_nonempty [OF inv False] drain_spec_def)
  qed
qed

lemma discard_spec:
  assumes "buf_inv b"
  shows "buf_inv (snd (discard b))" and "contents (snd (discard b)) = readable_part b"
    and "fst (discard b) =
      (if contents b \<noteq> [] \<and> contents (snd (discard b)) = [] then BecameEmpty else NoChange)"
proof -
  show "buf_inv (snd (discard b))" and c: "contents (snd (discard b)) = readable_part b"
    using assms by (simp_all add: discard_def buf_inv_def contents_def readable_part_def)
  have "readable_part b = [] \<longleftrightarrow> is_read_empty b"
    using length_readable_part [OF assms] buf_invD(3) [OF assms]
    by (auto simp: is_read_empty_def simp flip: length_0_conv)
  then show "fst (discard b) =
      (if contents b \<noteq> [] \<and> contents (snd (discard b)) = [] then BecameEmpty else NoChange)"
    using contents_empty_iff [OF assms] c by (auto simp: discard_def)
qed

text \<open>\<^verbatim>\<open>read_or_drain\<close> behaves as \<^verbatim>\<open>read_from\<close> while there is room; when the buffer is full it
  makes one read into a scratch array of 8192 bytes and leaves the buffer alone.\<close>

lemma read_or_drain_full:
  assumes "buf_inv b" and "buffer_full b"
  shows "read_or_drain rd b r =
    Some ((case fst (fst (rd (heap_buffer 8192) r)) of Ok _ \<Rightarrow> BufferNotReady | Err e \<Rightarrow> IOError (kind e),
           NoChange), b, snd (rd (heap_buffer 8192) r))"
  using read_from_full [OF assms, of rd r]
  by (auto simp: read_or_drain_def split: prod.split io_result.split)

lemma read_or_drain_room:
  assumes "buf_inv b" and "read_contract rd" and "\<not> buffer_full b"
  shows "read_or_drain rd b r = read_from rd b r"
proof -
  from read_from_total [OF assms(1,2), of r] obtain res ch b' r'
    where *: "read_from rd b r = Some ((res, ch), b', r')" "fill_spec rd b r (res, ch) b' r'"
    by auto
  then show ?thesis
    using assms(3) by (cases res) (auto simp: read_or_drain_def fill_spec_def)
qed

section \<open>The buffer as a bounded FIFO queue of bytes\<close>

text \<open>
  The interface a client of the buffer relies on, for whole sequences of operations. A step
  reports the state change the code reports, the bytes it took in and the bytes it gave
  out. \<open>run_steps\<close> performs a list of steps and concatenates these reports.
\<close>

type_synonym ('b, 'w) step_result = "(BufferStateChange \<times> u8 list \<times> u8 list \<times> 'b \<times> 'w) option"

fun track_change :: "BufferStateChange \<Rightarrow> bool \<Rightarrow> bool" where
  "track_change BecameEmpty p = False"
| "track_change BecameNonEmpty p = True"
| "track_change NoChange p = p"

fun run_steps ::
  "('op \<Rightarrow> 'b \<Rightarrow> 'w \<Rightarrow> ('b, 'w) step_result) \<Rightarrow> 'op list \<Rightarrow> bool \<Rightarrow> 'b \<Rightarrow> 'w \<Rightarrow>
     (bool \<times> u8 list \<times> u8 list \<times> 'b \<times> 'w) option" where
  "run_steps step [] p b w = Some (p, [], [], b, w)"
| "run_steps step (op # ops) p b w = do {
     (ch, i, out, b', w') \<leftarrow> step op b w;
     (p', is, outs, b'', w'') \<leftarrow> run_steps step ops (track_change ch p) b' w';
     Some (p', i @ is, out @ outs, b'', w'')
   }"

locale byte_fifo =
  fixes inv :: "'b \<Rightarrow> bool"
    and data :: "'b \<Rightarrow> u8 list"
    and op_ok :: "'op \<Rightarrow> bool"
    and lossless :: "'op \<Rightarrow> bool"
    and step :: "'op \<Rightarrow> 'b \<Rightarrow> 'w \<Rightarrow> ('b, 'w) step_result"
  assumes step_law: "inv b \<Longrightarrow> op_ok op \<Longrightarrow>
    \<exists>ch i out b' w' lost. step op b w = Some (ch, i, out, b', w') \<and> inv b' \<and>
      data b @ i = out @ data b' @ lost \<and> (lossless op \<longrightarrow> lost = []) \<and>
      (data b' \<noteq> [] \<longleftrightarrow> track_change ch (data b \<noteq> []))"
begin

lemma run_steps_fifo:
  assumes "inv b" and "list_all op_ok ops"
  shows "\<exists>p is outs b' w'. run_steps step ops (data b \<noteq> []) b w = Some (p, is, outs, b', w') \<and>
    inv b' \<and> p = (data b' \<noteq> []) \<and> subseq (outs @ data b') (data b @ is) \<and>
    (list_all lossless ops \<longrightarrow> outs @ data b' = data b @ is)"
  using assms
proof (induction ops arbitrary: b w)
  case Nil
  then show ?case by simp
next
  case (Cons op ops)
  from Cons.prems have "op_ok op" and ops: "list_all op_ok ops" by simp_all
  from step_law [OF Cons.prems(1) this(1), of w] obtain ch i out b1 w1 lost where
    s: "step op b w = Some (ch, i, out, b1, w1)" "inv b1" "data b @ i = out @ data b1 @ lost"
      "lossless op \<longrightarrow> lost = []" "data b1 \<noteq> [] \<longleftrightarrow> track_change ch (data b \<noteq> [])"
    by blast
  from Cons.IH [OF s(2) ops, of w1] obtain p "is" outs b' w' where
    r: "run_steps step ops (data b1 \<noteq> []) b1 w1 = Some (p, is, outs, b', w')"
      "inv b'" "p = (data b' \<noteq> [])" "subseq (outs @ data b') (data b1 @ is)"
      "list_all lossless ops \<longrightarrow> outs @ data b' = data b1 @ is"
    by blast
  have "subseq (out @ outs @ data b') (out @ data b1 @ is)"
    using r(4) by (rule list_emb_append_mono [OF subseq_order.order_refl])
  also have "subseq (out @ data b1 @ is) (out @ data b1 @ lost @ is)"
    by (intro list_emb_append_mono subseq_order.order_refl list_emb_append2)
  also have "out @ data b1 @ lost @ is = data b @ i @ is"
    using s(3) by (metis append_assoc)
  finally show ?case
    using s r by auto
qed

end

locale bounded_byte_fifo = byte_fifo +
  fixes cap :: nat
  assumes data_bound: "inv b \<Longrightarrow> length (data b) \<le> cap"
begin

lemma run_steps_in_flight:
  assumes "inv b" and "list_all op_ok ops" and "list_all lossless ops" and "data b = []"
  shows "\<exists>is outs b' w'. run_steps step ops False b w = Some (data b' \<noteq> [], is, outs, b', w') \<and>
    prefix outs is \<and> length is \<le> length outs + cap"
proof -
  from run_steps_fifo [OF assms(1,2), of w] assms(3,4) obtain "is" outs b' w' where
    r: "run_steps step ops False b w = Some (data b' \<noteq> [], is, outs, b', w')" "inv b'"
      "outs @ data b' = is"
    by auto
  then have "prefix outs is" and "length is \<le> length outs + cap"
    using data_bound by auto
  with r(1) show ?thesis by blast
qed

end

text \<open>The operations of the code as steps: a copy in, a copy out, and a discard.\<close>

datatype (dead 'r) buf_op = Fill "'r Read" | FillOrDrain "'r Read" | Drain "'r Write" | Discard

fun buf_op_ok :: "'r buf_op \<Rightarrow> bool" where
  "buf_op_ok (Fill rd) \<longleftrightarrow> read_contract rd"
| "buf_op_ok (FillOrDrain rd) \<longleftrightarrow> read_contract rd"
| "buf_op_ok (Drain W) \<longleftrightarrow> write_contract W"
| "buf_op_ok Discard \<longleftrightarrow> True"

fun buf_lossless :: "'r buf_op \<Rightarrow> bool" where
  "buf_lossless Discard \<longleftrightarrow> False"
| "buf_lossless _ \<longleftrightarrow> True"

definition accepted_bytes :: "'r Read \<Rightarrow> FlipBuffer \<Rightarrow> 'r \<Rightarrow> u8 list" where
  "accepted_bytes rd b r =
     (if buffer_full b then []
      else (case rd (space_slice b) r of ((Ok n, s'), _) \<Rightarrow> take n s' | _ \<Rightarrow> []))"

definition delivered_bytes :: "'r Write \<Rightarrow> FlipBuffer \<Rightarrow> 'r \<Rightarrow> u8 list" where
  "delivered_bytes W b r =
     (if contents b = [] then []
      else (case write_fn W (data_slice b) r of (Ok n, _) \<Rightarrow> take n (data_slice b) | _ \<Rightarrow> []))"

fun buf_step :: "'r buf_op \<Rightarrow> FlipBuffer \<Rightarrow> 'r \<Rightarrow> (FlipBuffer, 'r) step_result" where
  "buf_step (Fill rd) b r = do {
     ((_, ch), b', r') \<leftarrow> read_from rd b r;
     Some (ch, accepted_bytes rd b r, [], b', r') }"
| "buf_step (FillOrDrain rd) b r = do {
     ((_, ch), b', r') \<leftarrow> read_or_drain rd b r;
     Some (ch, accepted_bytes rd b r, [], b', r') }"
| "buf_step (Drain W) b r = do {
     ((_, ch), b', r') \<leftarrow> write_to W b r;
     Some (ch, [], delivered_bytes W b r, b', r') }"
| "buf_step Discard b r = (case discard b of (ch, b') \<Rightarrow> Some (ch, [], [], b', r))"

lemma fill_spec_bytes:
  assumes "fill_spec rd b r rc b' r'"
  shows "contents b' = contents b @ accepted_bytes rd b r"
    and "contents b' \<noteq> [] \<longleftrightarrow> track_change (snd rc) (contents b \<noteq> [])"
  using assms
  by (auto simp: fill_spec_def accepted_bytes_def split: CopyResult.splits if_splits prod.splits)

lemma drain_spec_bytes:
  assumes inv: "buf_inv b" and sp: "drain_spec W b r rc b' r'"
  shows "contents b = delivered_bytes W b r @ contents b'"
    and "contents b' \<noteq> [] \<longleftrightarrow> track_change (snd rc) (contents b \<noteq> [])"
proof -
  have d: "n \<le> length (data_slice b) \<Longrightarrow> contents b = take n (data_slice b) @ drop n (contents b)" for n
    using contents_data_slice [OF inv] by simp
  obtain res r1 fr r2 where io: "write_fn W (data_slice b) r = (res, r1)" "flush_fn W r1 = (fr, r2)"
    by fastforce
  show "contents b = delivered_bytes W b r @ contents b'"
    using sp by (cases res; cases fr) (auto simp: drain_spec_def delivered_bytes_def io d split: if_splits)
  show "contents b' \<noteq> [] \<longleftrightarrow> track_change (snd rc) (contents b \<noteq> [])"
    using sp by (cases res; cases fr) (auto simp: drain_spec_def io split: if_splits)
qed

lemma read_from_bytes:
  assumes "buf_inv b" and "read_contract rd"
  shows "\<exists>rc b' r'. read_from rd b r = Some (rc, b', r') \<and> buf_inv b' \<and>
    contents b' = contents b @ accepted_bytes rd b r \<and>
    (contents b' \<noteq> [] \<longleftrightarrow> track_change (snd rc) (contents b \<noteq> []))"
  using read_from_total [OF assms, of r] fill_spec_bytes [of rd b r] by blast

lemma write_to_bytes:
  assumes "buf_inv b" and "write_contract W"
  shows "\<exists>rc b' r'. write_to W b r = Some (rc, b', r') \<and> buf_inv b' \<and>
    delivered_bytes W b r @ contents b' = contents b \<and>
    (contents b' \<noteq> [] \<longleftrightarrow> track_change (snd rc) (contents b \<noteq> []))"
  using write_to_total [OF assms, of r] drain_spec_bytes [OF assms(1), of W r] by metis

lemma read_or_drain_bytes:
  assumes "buf_inv b" and "read_contract rd"
  shows "\<exists>rc b' r'. read_or_drain rd b r = Some (rc, b', r') \<and> buf_inv b' \<and>
    contents b' = contents b @ accepted_bytes rd b r \<and>
    (contents b' \<noteq> [] \<longleftrightarrow> track_change (snd rc) (contents b \<noteq> []))"
proof (cases "buffer_full b")
  case True
  then show ?thesis using assms by (simp add: read_or_drain_full accepted_bytes_def)
next
  case False
  then show ?thesis using assms read_from_bytes [OF assms, of r] by (simp add: read_or_drain_room)
qed

interpretation flip: bounded_byte_fifo buf_inv contents buf_op_ok buf_lossless buf_step "2 * BUFFER_CAPACITY"
proof (unfold_locales, goal_cases)
  case (1 b op w)
  then show ?case
  proof (cases op)
    case (Fill rd)
    with 1 read_from_bytes [of b rd w] show ?thesis by auto
  next
    case (FillOrDrain rd)
    with 1 read_or_drain_bytes [of b rd w] show ?thesis by auto
  next
    case (Drain W)
    with 1 write_to_bytes [of b W w] show ?thesis by auto
  next
    case Discard
    obtain ch b' where d: "discard b = (ch, b')" by fastforce
    have "contents b = contents b' @ take (write_cursor b) (write_page b)"
      using discard_spec(2) [OF 1(1)] d by (simp add: contents_def)
    moreover have "contents b' \<noteq> [] \<longleftrightarrow> track_change ch (contents b \<noteq> [])"
      using discard_spec(2,3) [OF 1(1)] d by (auto simp: contents_def)
    ultimately show ?thesis
      using Discard d discard_spec(1) [OF 1(1)] by auto
  qed
next
  case (2 b)
  then show ?case by (rule contents_bound)
qed

section \<open>Properties\<close>

text \<open>Two buffers used as concrete inputs: one that holds three bytes, one with both pages full.\<close>

definition three_bytes :: FlipBuffer where
  "three_bytes = new_buffer\<lparr>write_cursor := 3\<rparr>"

definition both_pages_full :: FlipBuffer where
  "both_pages_full = new_buffer\<lparr>read_max := BUFFER_CAPACITY, write_cursor := BUFFER_CAPACITY\<rparr>"

lemma sample_buffers [simp]: "buf_inv three_bytes" "length (contents three_bytes) = 3" "contents three_bytes \<noteq> []"
    "buf_inv both_pages_full" "buffer_full both_pages_full"
proof -
  have inv: "buf_inv three_bytes" "buf_inv both_pages_full"
    by (simp_all add: buf_inv_def three_bytes_def both_pages_full_def new_buffer_def heap_buffer_def BUFFER_CAPACITY_def)
  then show "buf_inv three_bytes" "buf_inv both_pages_full" .
  show len: "length (contents three_bytes) = 3"
    using length_contents [OF inv(1)] by (simp add: three_bytes_def new_buffer_def)
  then show "contents three_bytes \<noteq> []" by auto
  show "buffer_full both_pages_full"
    by (simp add: buffer_full_def both_pages_full_def new_buffer_def)
qed

text \<open>C3. From a new buffer, any sequence of \<^verbatim>\<open>read_from\<close>, \<^verbatim>\<open>read_or_drain\<close>, \<^verbatim>\<open>write_to\<close> and
  \<^verbatim>\<open>discard\<close> calls on streams that respect the Read and Write contracts runs without a panic; the
  bytes written out, followed by the bytes still held, are a subsequence in order of the bytes
  read in, and are exactly those bytes when nothing was discarded; at most two pages are in
  flight; and a flag updated only by the reported state changes always tells whether the buffer
  holds data.\<close>

theorem buffer_is_bounded_fifo:
  assumes "list_all buf_op_ok ops"
  shows "\<exists>p is outs b' r'. run_steps buf_step ops False new_buffer r = Some (p, is, outs, b', r') \<and>
    buf_inv b' \<and> p = (contents b' \<noteq> []) \<and> subseq (outs @ contents b') is \<and>
    length (contents b') \<le> 2 * BUFFER_CAPACITY \<and>
    (list_all buf_lossless ops \<longrightarrow> outs @ contents b' = is)"
  using flip.run_steps_fifo [OF buf_inv_new assms, of r] flip.data_bound by fastforce

theorem buffer_is_bounded_fifo_witness:
  "\<exists>p is outs b' r'. run_steps buf_step [Fill mem_read, Drain mem_writer, Fill mem_read, Discard]
      False new_buffer ([1, 2, 3], []) = Some (p, is, outs, b', r') \<and>
    buf_inv b' \<and> p = (contents b' \<noteq> []) \<and> subseq (outs @ contents b') is"
  using buffer_is_bounded_fifo
    [of "[Fill mem_read, Drain mem_writer, Fill mem_read, Discard]" "([1, 2, 3], [])"]
  by auto

text \<open>C28. \<^verbatim>\<open>read_from\<close> on a buffer that respects its invariant never panics. When both pages are in
  use it answers \<^verbatim>\<open>BufferNotReady\<close> without touching the stream; otherwise it makes one read into a
  non-empty slice and appends exactly the bytes that read produced, reports \<^verbatim>\<open>BecameNonEmpty\<close> iff
  the buffer was empty and bytes arrived, and on an error keeps the held bytes.\<close>

theorem read_from_behaviour:
  assumes "buf_inv b" and "read_contract rd"
  shows "\<exists>res ch b' r'. read_from rd b r = Some ((res, ch), b', r') \<and> buf_inv b' \<and>
    (case res of
       BufferNotReady \<Rightarrow> buffer_full b \<and> b' = b \<and> r' = r \<and> ch = NoChange
     | IOCompleted n \<Rightarrow> \<not> buffer_full b \<and> space_slice b \<noteq> [] \<and>
         (\<exists>s'. rd (space_slice b) r = ((Ok n, s'), r') \<and> contents b' = contents b @ take n s' \<and>
            ch = (if contents b = [] \<and> contents b' \<noteq> [] then BecameNonEmpty else NoChange))
     | IOError k \<Rightarrow> \<not> buffer_full b \<and>
         (\<exists>e s'. rd (space_slice b) r = ((Err e, s'), r') \<and> k = kind e \<and>
            contents b' = contents b \<and> ch = NoChange))"
proof -
  from read_from_total [OF assms, of r] obtain res ch b' r' where
    r: "read_from rd b r = Some ((res, ch), b', r')" "buf_inv b'" "fill_spec rd b r (res, ch) b' r'"
    by auto
  then show ?thesis
    using space_slice_nonempty [OF assms(1)]
    by (cases res) (auto simp: fill_spec_def)
qed

theorem read_from_behaviour_witness:
  "\<exists>res ch b' r'. read_from mem_read new_buffer ([7, 8], []) = Some ((res, ch), b', r') \<and> buf_inv b' \<and>
     res \<noteq> BufferNotReady"
proof -
  have "\<not> buffer_full new_buffer" by (simp add: buffer_full_def new_buffer_def)
  then show ?thesis
    using read_from_behaviour [OF buf_inv_new mem_read_contract, of "([7, 8], [])"] by fastforce
qed

text \<open>C29. \<^verbatim>\<open>write_to\<close> on a buffer that respects its invariant never panics. On an empty buffer it
  answers \<^verbatim>\<open>BufferNotReady\<close> without touching the stream; otherwise it offers the stream a non-empty
  prefix of the held bytes, removes exactly the bytes the stream took, and reports
  \<^verbatim>\<open>BecameEmpty\<close> iff nothing is left; a failing flush turns the result into an error but the
  taken bytes stay removed.\<close>

theorem write_to_behaviour:
  assumes "buf_inv b" and "write_contract W"
  shows "\<exists>res ch b' r'. write_to W b r = Some ((res, ch), b', r') \<and> buf_inv b' \<and>
    (if contents b = [] then res = BufferNotReady \<and> ch = NoChange \<and> contents b' = [] \<and> r' = r
     else \<exists>data rest. contents b = data @ rest \<and> data \<noteq> [] \<and>
       (case write_fn W data r of
          (Err e, r1) \<Rightarrow> res = IOError (kind e) \<and> ch = NoChange \<and> contents b' = contents b \<and> r' = r1
        | (Ok n, r1) \<Rightarrow> n \<le> length data \<and> contents b' = drop n data @ rest \<and>
            ch = (if contents b' = [] then BecameEmpty else NoChange) \<and> r' = snd (flush_fn W r1) \<and>
            res = (case fst (flush_fn W r1) of Ok _ \<Rightarrow> IOCompleted n | Err e \<Rightarrow> IOError (kind e))))"
proof -
  from write_to_total [OF assms, of r] obtain res ch b' r' where
    r: "write_to W b r = Some ((res, ch), b', r')" "buf_inv b'" "drain_spec W b r (res, ch) b' r'"
    by auto
  obtain rest where c: "contents b = data_slice b @ rest"
    using contents_data_slice [OF assms(1)] by blast
  obtain wres r1 fr r2 where io: "write_fn W (data_slice b) r = (wres, r1)" "flush_fn W r1 = (fr, r2)"
    by fastforce
  have drop: "n \<le> length (data_slice b) \<Longrightarrow> drop n (contents b) = drop n (data_slice b) @ rest" for n
    using c by simp
  show ?thesis
  proof (cases "contents b = []")
    case True
    then show ?thesis using r by (auto simp: drain_spec_def)
  next
    case False
    then have ne: "data_slice b \<noteq> []" using data_slice_nonempty [OF assms(1)] by blast
    have "case write_fn W (data_slice b) r of
          (Err e, r1) \<Rightarrow> res = IOError (kind e) \<and> ch = NoChange \<and> contents b' = contents b \<and> r' = r1
        | (Ok n, r1) \<Rightarrow> n \<le> length (data_slice b) \<and> contents b' = drop n (data_slice b) @ rest \<and>
            ch = (if contents b' = [] then BecameEmpty else NoChange) \<and> r' = snd (flush_fn W r1) \<and>
            res = (case fst (flush_fn W r1) of Ok _ \<Rightarrow> IOCompleted n | Err e \<Rightarrow> IOError (kind e))"
      using r(3) False by (cases wres; cases fr) (simp_all add: drain_spec_def io drop)
    then have "\<exists>data rest. contents b = data @ rest \<and> data \<noteq> [] \<and>
       (case write_fn W data r of
          (Err e, r1) \<Rightarrow> res = IOError (kind e) \<and> ch = NoChange \<and> contents b' = contents b \<and> r' = r1
        | (Ok n, r1) \<Rightarrow> n \<le> length data \<and> contents b' = drop n data @ rest \<and>
            ch = (if contents b' = [] then BecameEmpty else NoChange) \<and> r' = snd (flush_fn W r1) \<and>
            res = (case fst (flush_fn W r1) of Ok _ \<Rightarrow> IOCompleted n | Err e \<Rightarrow> IOError (kind e)))"
      using c ne by (intro exI [of _ "data_slice b"] exI [of _ rest] conjI)
    with r(1,2) False show ?thesis
      by (intro exI [of _ res] exI [of _ ch] exI [of _ b'] exI [of _ r']) simp
  qed
qed

theorem write_to_behaviour_witness:
  "\<exists>res ch b' r'. write_to mem_writer three_bytes ([], []) = Some ((res, ch), b', r') \<and>
     buf_inv b' \<and> length (contents b') < 3 \<and> (\<exists>n. 0 < n \<and> res = IOCompleted n)"
proof -
  from write_to_behaviour [OF sample_buffers(1) mem_writer_contract, of "([], [])"]
  obtain res ch b' r' data rest where w: "write_to mem_writer three_bytes ([], []) = Some ((res, ch), b', r')"
    "buf_inv b'" "contents three_bytes = data @ rest" "data \<noteq> []" "contents b' = rest" "res = IOCompleted (length data)"
    by (auto simp: mem_writer_def)
  have l: "0 < length data" "length data + length (contents b') = 3"
    using sample_buffers(2) w(3-5) by simp_all
  then have "length (contents b') < 3" by linarith
  with w(1,2,6) l(1) show ?thesis
    by (intro exI [of _ res] exI [of _ ch] exI [of _ b'] exI [of _ r'] conjI exI [of _ "length data"]) simp_all
qed

text \<open>C31. When the buffer is full, \<^verbatim>\<open>read_or_drain\<close> still makes one read, of at most 8192 bytes, so the
  peer never blocks; the bytes of that read are lost, the buffer is unchanged and the result is
  \<^verbatim>\<open>BufferNotReady\<close> or the read's error. While there is room it is \<^verbatim>\<open>read_from\<close>.\<close>

theorem read_or_drain_behaviour:
  assumes "buf_inv b" and "read_contract rd"
  shows "read_or_drain rd b r =
    (if buffer_full b
     then Some ((case fst (fst (rd (heap_buffer 8192) r)) of
                   Ok _ \<Rightarrow> BufferNotReady | Err e \<Rightarrow> IOError (kind e), NoChange),
                b, snd (rd (heap_buffer 8192) r))
     else read_from rd b r)"
  using assms by (simp add: read_or_drain_full read_or_drain_room)

theorem read_or_drain_behaviour_witness:
  "read_or_drain mem_read both_pages_full ([5, 6], []) = Some ((BufferNotReady, NoChange), both_pages_full, ([], []))"
  using read_or_drain_behaviour [OF sample_buffers(4) mem_read_contract, of "([5, 6], [])"]
  by (simp add: mem_read_def heap_buffer_def)

text \<open>\<^verbatim>\<open>discard\<close> keeps the page a writer is consuming and drops everything behind it, and reports
  \<^verbatim>\<open>BecameEmpty\<close> exactly when it emptied a buffer that held data.\<close>

theorem discard_behaviour:
  assumes "buf_inv b" and "discard b = (ch, b')"
  shows "buf_inv b' \<and> contents b' = take (read_max b - read_cursor b) (contents b) \<and>
    (ch = BecameEmpty \<longleftrightarrow> contents b \<noteq> [] \<and> contents b' = []) \<and> ch \<noteq> BecameNonEmpty"
  using discard_spec [OF assms(1)] assms(2) length_readable_part [OF assms(1)]
  by (simp add: contents_def)

theorem discard_behaviour_witness:
  "discard three_bytes = (BecameEmpty, three_bytes\<lparr>write_cursor := 0\<rparr>) \<and> contents (three_bytes\<lparr>write_cursor := 0\<rparr>) = []"
proof -
  have d: "discard three_bytes = (BecameEmpty, three_bytes\<lparr>write_cursor := 0\<rparr>)"
    by (simp add: discard_def three_bytes_def new_buffer_def is_read_empty_def is_write_empty_def)
  show ?thesis using discard_behaviour [OF sample_buffers(1) d] d by blast
qed

end
