(* ===== verification/Polled_Fd.thy ===== *)
theory Polled_Fd
  imports IOSock_Prelude
begin

text \<open>
  The descriptor bookkeeping of \<^verbatim>\<open>src/src/polled_fd.rs\<close>: \<^verbatim>\<open>PolledFd\<close>, which pairs the
  event mask last given to epoll with the mask the channel manager asked for, and
  \<^verbatim>\<open>PolledFdSet\<close>, the queue of registrations, changes and removals between the channel
  manager and the pollster.

  The flag sets of the \<^verbatim>\<open>epoll\<close> crate are a parameter (\<open>events_api\<close>): a value is
  represented by its \<^verbatim>\<open>bits()\<close>, and \<open>events_laws\<close> states the documented behaviour of
  \<^verbatim>\<open>set\<close>, \<^verbatim>\<open>contains\<close>, \<^verbatim>\<open>empty\<close> and \<^verbatim>\<open>from_bits_truncate\<close> on the four flags the
  program uses.
\<close>

section \<open>The epoll crate's event sets\<close>

type_synonym Events = u32

record events_api =
  EPOLLIN :: Events
  EPOLLOUT :: Events
  EPOLLERR :: Events
  EPOLLHUP :: Events
  ev_empty :: Events
  ev_set :: "Events \<Rightarrow> Events \<Rightarrow> bool \<Rightarrow> Events"
  ev_contains :: "Events \<Rightarrow> Events \<Rightarrow> bool"
  from_bits_truncate :: "u32 \<Rightarrow> Events"

definition ev_flags :: "events_api \<Rightarrow> Events set" where
  "ev_flags E = {EPOLLIN E, EPOLLOUT E, EPOLLERR E, EPOLLHUP E}"

definition events_laws :: "events_api \<Rightarrow> bool" where
  "events_laws E \<longleftrightarrow>
     distinct [EPOLLIN E, EPOLLOUT E, EPOLLERR E, EPOLLHUP E] \<and>
     (\<forall>f \<in> ev_flags E. \<not> ev_contains E (ev_empty E) f) \<and>
     (\<forall>f \<in> ev_flags E. \<forall>g \<in> ev_flags E. ev_contains E f g = (f = g)) \<and>
     (\<forall>e. \<forall>f \<in> ev_flags E. \<forall>g \<in> ev_flags E. \<forall>v.
        ev_contains E (ev_set E e f v) g = (if g = f then v else ev_contains E e g)) \<and>
     (\<forall>e. \<forall>f \<in> ev_flags E. ev_contains E (from_bits_truncate E e) f = ev_contains E e f)"

text \<open>\<^verbatim>\<open>epoll::Event\<close>, the pair of a mask and the caller's 64 bits.\<close>

record Event =
  events :: u32
  event_data :: u64

definition event_new :: "Events \<Rightarrow> u64 \<Rightarrow> Event" where
  "event_new es d = \<lparr>events = es, event_data = d\<rparr>"

section \<open>PolledFd\<close>

record PolledFd =
  pfd_fd :: RawFd
  pfd_event :: Event
  new_events :: Events

definition polled_fd_new :: "events_api \<Rightarrow> RawFd \<Rightarrow> Event \<Rightarrow> PolledFd" where
  "polled_fd_new E fd ev = \<lparr>pfd_fd = fd, pfd_event = ev, new_events = from_bits_truncate E (events ev)\<rparr>"

definition poll_for_read :: "events_api \<Rightarrow> bool \<Rightarrow> PolledFd \<Rightarrow> PolledFd" where
  "poll_for_read E poll_reads p = p\<lparr>new_events := ev_set E (new_events p) (EPOLLIN E) poll_reads\<rparr>"

definition poll_for_write :: "events_api \<Rightarrow> bool \<Rightarrow> PolledFd \<Rightarrow> PolledFd" where
  "poll_for_write E poll_writes p = p\<lparr>new_events := ev_set E (new_events p) (EPOLLOUT E) poll_writes\<rparr>"

definition pfd_apply_updates :: "PolledFd \<Rightarrow> Event option \<times> PolledFd" where
  "pfd_apply_updates p =
     (if events (pfd_event p) = new_events p then (None, p)
      else (let p' = p\<lparr>pfd_event := (pfd_event p)\<lparr>events := new_events p\<rparr>\<rparr> in (Some (pfd_event p'), p')))"

section \<open>PolledFdSet\<close>

record PolledFdSet =
  existing :: "PolledFd list"
  new :: "(RawFd \<times> Events) list"
  removed :: "RawFd list"

definition fd_set_new :: PolledFdSet where
  "fd_set_new = \<lparr>existing = [], new = [], removed = []\<rparr>"

text \<open>\<^verbatim>\<open>Iterator::position\<close> and \<^verbatim>\<open>Vec::remove\<close>.\<close>

fun position :: "('a \<Rightarrow> bool) \<Rightarrow> 'a list \<Rightarrow> nat option" where
  "position P [] = None"
| "position P (x # xs) = (if P x then Some 0 else map_option Suc (position P xs))"

definition remove_at :: "nat \<Rightarrow> 'a list \<Rightarrow> 'a list" where
  "remove_at i xs = take i xs @ drop (Suc i) xs"

text \<open>The two assertions of \<^verbatim>\<open>register\<close> are its only panics.\<close>

definition register :: "RawFd \<Rightarrow> Events \<Rightarrow> PolledFdSet \<Rightarrow> PolledFdSet option" where
  "register fd es s =
     (let has_existing = position (\<lambda>p. pfd_fd p = fd) (existing s) \<noteq> None;
          has_new = position (\<lambda>(nfd, _). nfd = fd) (new s) \<noteq> None
      in if has_existing then None
         else if has_new then None
         else Some (s\<lparr>new := new s @ [(fd, es)]\<rparr>))"

fun modify_first :: "RawFd \<Rightarrow> (PolledFd \<Rightarrow> PolledFd) \<Rightarrow> PolledFd list \<Rightarrow> PolledFd list option" where
  "modify_first fd g [] = None"
| "modify_first fd g (p # ps) =
     (if pfd_fd p = fd then Some (g p # ps) else map_option (Cons p) (modify_first fd g ps))"

definition modify :: "RawFd \<Rightarrow> (PolledFd \<Rightarrow> PolledFd) \<Rightarrow> PolledFdSet \<Rightarrow> PolledFdSet option" where
  "modify fd modify_fn s = do {
     ex \<leftarrow> modify_first fd modify_fn (existing s);
     Some (s\<lparr>existing := ex\<rparr>)
   }"

definition unregister :: "RawFd \<Rightarrow> PolledFdSet \<Rightarrow> PolledFdSet option" where
  "unregister fd s = do {
     i \<leftarrow> position (\<lambda>p. pfd_fd p = fd) (existing s);
     Some (s\<lparr>existing := remove_at i (existing s), removed := removed s @ [fd]\<rparr>)
   }"

definition unregister_closed :: "RawFd \<Rightarrow> PolledFdSet \<Rightarrow> PolledFdSet option" where
  "unregister_closed fd s = do {
     i \<leftarrow> position (\<lambda>p. pfd_fd p = fd) (existing s);
     Some (s\<lparr>existing := remove_at i (existing s)\<rparr>)
   }"

text \<open>The three loops of \<^verbatim>\<open>apply_updates\<close>. The first stops at the first failing callback, with
  the entry whose callback failed already updated; the other two iterate over
  \<^verbatim>\<open>drain(..)\<close>, which empties the vector even when the loop is left early.\<close>

fun update_existing ::
  "(RawFd \<Rightarrow> Event \<Rightarrow> 'w \<Rightarrow> unit io_result \<times> 'w) \<Rightarrow> PolledFd list \<Rightarrow> 'w \<Rightarrow>
     unit io_result \<times> PolledFd list \<times> 'w" where
  "update_existing update_fn [] w = (Ok (), [], w)"
| "update_existing update_fn (p # ps) w =
     (case pfd_apply_updates p of
        (None, p') \<Rightarrow>
          (case update_existing update_fn ps w of (r, ps', w') \<Rightarrow> (r, p' # ps', w'))
      | (Some new_event, p') \<Rightarrow>
          (case update_fn (pfd_fd p') new_event w of
             (Err e, w') \<Rightarrow> (Err e, p' # ps, w')
           | (Ok _, w') \<Rightarrow>
               (case update_existing update_fn ps w' of (r, ps', w'') \<Rightarrow> (r, p' # ps', w''))))"

fun add_new ::
  "(RawFd \<Rightarrow> Events \<Rightarrow> 'w \<Rightarrow> PolledFd io_result \<times> 'w) \<Rightarrow> (RawFd \<times> Events) list \<Rightarrow> PolledFd list \<Rightarrow> 'w \<Rightarrow>
     unit io_result \<times> PolledFd list \<times> 'w" where
  "add_new new_fn [] ex w = (Ok (), ex, w)"
| "add_new new_fn ((fd, es) # ns) ex w =
     (case new_fn fd es w of
        (Err e, w') \<Rightarrow> (Err e, ex, w')
      | (Ok p, w') \<Rightarrow> add_new new_fn ns (ex @ [p]) w')"

fun delete_removed ::
  "(RawFd \<Rightarrow> 'w \<Rightarrow> unit io_result \<times> 'w) \<Rightarrow> RawFd list \<Rightarrow> 'w \<Rightarrow> unit io_result \<times> 'w" where
  "delete_removed delete_fn [] w = (Ok (), w)"
| "delete_removed delete_fn (fd # fds) w =
     (case delete_fn fd w of
        (Err e, w') \<Rightarrow> (Err e, w')
      | (Ok _, w') \<Rightarrow> delete_removed delete_fn fds w')"

definition apply_updates ::
  "(RawFd \<Rightarrow> Events \<Rightarrow> 'w \<Rightarrow> PolledFd io_result \<times> 'w) \<Rightarrow>
   (RawFd \<Rightarrow> Event \<Rightarrow> 'w \<Rightarrow> unit io_result \<times> 'w) \<Rightarrow>
   (RawFd \<Rightarrow> 'w \<Rightarrow> unit io_result \<times> 'w) \<Rightarrow> PolledFdSet \<Rightarrow> 'w \<Rightarrow>
     unit io_result \<times> PolledFdSet \<times> 'w" where
  "apply_updates new_fn update_fn delete_fn s w =
     (case update_existing update_fn (existing s) w of
        (Err e, ex, w1) \<Rightarrow> (Err e, s\<lparr>existing := ex\<rparr>, w1)
      | (Ok _, ex, w1) \<Rightarrow>
          (case add_new new_fn (new s) ex w1 of
             (Err e, ex', w2) \<Rightarrow> (Err e, s\<lparr>existing := ex', new := []\<rparr>, w2)
           | (Ok _, ex', w2) \<Rightarrow>
               (case delete_removed delete_fn (removed s) w2 of
                  (r, w3) \<Rightarrow> (r, s\<lparr>existing := ex', new := [], removed := []\<rparr>, w3))))"

section \<open>Invariant and abstraction\<close>

text \<open>A descriptor occurs once in the set. \<open>requested\<close> is the mask the channel manager wants for
  each descriptor it has registered; \<open>processed\<close> are the descriptors epoll already knows.\<close>

definition reg_inv :: "PolledFdSet \<Rightarrow> bool" where
  "reg_inv s \<longleftrightarrow> distinct (map pfd_fd (existing s) @ map fst (new s))"

definition requests :: "PolledFdSet \<Rightarrow> (RawFd \<times> Events) list" where
  "requests s = map (\<lambda>p. (pfd_fd p, new_events p)) (existing s) @ new s"

definition requested :: "PolledFdSet \<Rightarrow> RawFd \<rightharpoonup> Events" where
  "requested s = map_of (requests s)"

definition processed :: "PolledFdSet \<Rightarrow> RawFd set" where
  "processed s = pfd_fd ` set (existing s)"

text \<open>\<open>applied\<close> is the event last handed to epoll for each processed descriptor, \<open>gone\<close> the
  descriptors whose deletion is pending.\<close>

definition applied :: "PolledFdSet \<Rightarrow> RawFd \<rightharpoonup> Event" where
  "applied s = map_of (map (\<lambda>p. (pfd_fd p, pfd_event p)) (existing s))"

definition gone :: "PolledFdSet \<Rightarrow> RawFd set" where
  "gone s = set (removed s)"

definition wants :: "events_api \<Rightarrow> (RawFd \<rightharpoonup> Events) \<Rightarrow> RawFd \<Rightarrow> Events \<Rightarrow> bool" where
  "wants E req fd flag = (case req fd of Some es \<Rightarrow> ev_contains E es flag | None \<Rightarrow> False)"

lemma position_None_iff: "position P xs = None \<longleftrightarrow> (\<forall>x \<in> set xs. \<not> P x)"
  by (induction xs) auto

lemma remove_at_position:
  "position (\<lambda>p. g p = a) xs = Some i \<Longrightarrow> distinct (map g xs) \<Longrightarrow>
     remove_at i xs = filter (\<lambda>p. g p \<noteq> a) xs"
proof (induction xs arbitrary: i)
  case (Cons x xs)
  have "g x = a \<Longrightarrow> filter (\<lambda>p. g p \<noteq> a) xs = xs"
    using Cons.prems(2) by (auto simp: filter_id_conv image_iff)
  then show ?case
    using Cons by (auto simp: remove_at_def split: if_splits)
qed simp

lemma modify_first_None_iff: "modify_first a g ps = None \<longleftrightarrow> a \<notin> pfd_fd ` set ps"
  by (induction ps) auto

lemma modify_first_Some:
  "modify_first a g ps = Some ps' \<Longrightarrow> distinct (map pfd_fd ps) \<Longrightarrow>
     ps' = map (\<lambda>p. if pfd_fd p = a then g p else p) ps"
proof (induction ps arbitrary: ps')
  case (Cons q ps)
  show ?case
  proof (cases "pfd_fd q = a")
    case True
    then have "map (\<lambda>p. if pfd_fd p = a then g p else p) ps = ps"
      using Cons.prems(2) by (intro map_idI) (auto simp: image_iff)
    then show ?thesis using Cons.prems True by simp
  next
    case False
    then show ?thesis using Cons by auto
  qed
qed simp

lemma dom_requested: "dom (requested s) = processed s \<union> fst ` set (new s)"
  by (auto simp: requested_def requests_def processed_def dom_map_of_conv_image_fst image_image image_Un)

lemma processed_requested: "processed s \<subseteq> dom (requested s)"
  by (simp add: dom_requested)

lemma dom_applied: "dom (applied s) = processed s"
  by (auto simp: applied_def processed_def dom_map_of_conv_image_fst image_image)

lemma fd_set_new_simps [simp]: "requested fd_set_new = Map.empty" "processed fd_set_new = {}"
    "reg_inv fd_set_new" "applied fd_set_new = Map.empty" "gone fd_set_new = {}"
  by (simp_all add: requested_def requests_def processed_def reg_inv_def fd_set_new_def applied_def gone_def)

lemma register_law:
  assumes "reg_inv s" and "requested s fd = None"
  shows "\<exists>s'. register fd es s = Some s' \<and> reg_inv s' \<and> requested s' = (requested s)(fd \<mapsto> es) \<and>
    processed s' = processed s \<and> applied s' = applied s \<and> gone s' = gone s"
proof -
  have no: "fd \<notin> processed s" "fd \<notin> fst ` set (new s)"
    using assms(2) dom_requested [of s] by auto
  then have "register fd es s = Some (s\<lparr>new := new s @ [(fd, es)]\<rparr>)"
    by (force simp: register_def position_None_iff processed_def)
  moreover have "requested (s\<lparr>new := new s @ [(fd, es)]\<rparr>) = (requested s)(fd \<mapsto> es)"
    using assms(2) by (auto simp: requested_def requests_def map_add_def fun_eq_iff split: option.splits)
  ultimately show ?thesis
    using assms(1) no by (auto simp: reg_inv_def processed_def applied_def gone_def)
qed

lemma register_panic: "requested s fd \<noteq> None \<Longrightarrow> register fd es s = None"
  using dom_requested [of s]
  by (force simp: register_def position_None_iff processed_def dom_def)

text \<open>\<open>modify\<close> with a function that keeps the descriptor and changes the requested mask by \<open>h\<close>.\<close>

lemma map_of_modified:
  assumes "\<And>p. pfd_fd (g p) = pfd_fd p" "\<And>p. new_events (g p) = h (new_events p)"
  shows "map_of (map (\<lambda>p. (pfd_fd p, new_events p)) (map (\<lambda>p. if pfd_fd p = a then g p else p) ps)) x =
    (if x = a then map_option h (map_of (map (\<lambda>p. (pfd_fd p, new_events p)) ps) x)
     else map_of (map (\<lambda>p. (pfd_fd p, new_events p)) ps) x)"
  by (induction ps) (auto simp: assms)

lemma modify_law:
  assumes inv: "reg_inv s" and mem: "fd \<in> processed s"
    and g: "\<And>p. pfd_fd (g p) = pfd_fd p" "\<And>p. new_events (g p) = h (new_events p)"
      "\<And>p. pfd_event (g p) = pfd_event p"
  shows "\<exists>s'. modify fd g s = Some s' \<and> reg_inv s' \<and>
    requested s' = (requested s)(fd \<mapsto> h (the (requested s fd))) \<and> processed s' = processed s \<and>
    applied s' = applied s \<and> gone s' = gone s"
proof -
  obtain ex where ex: "modify_first fd g (existing s) = Some ex"
    using mem modify_first_None_iff [of fd g "existing s"] by (auto simp: processed_def)
  have ex': "ex = map (\<lambda>p. if pfd_fd p = fd then g p else p) (existing s)"
    using modify_first_Some [OF ex] inv by (simp add: reg_inv_def)
  have fds: "map pfd_fd ex = map pfd_fd (existing s)"
    by (simp add: ex' g(1))
  obtain es where es: "map_of (map (\<lambda>p. (pfd_fd p, new_events p)) (existing s)) fd = Some es"
    using mem by (fastforce simp: processed_def map_of_eq_None_iff image_image
        intro: not_None_eq [THEN iffD1, THEN exE])
  have "requested (s\<lparr>existing := ex\<rparr>) = (requested s)(fd \<mapsto> h (the (requested s fd)))"
    using map_of_modified [where g = g and h = h and a = fd and ps = "existing s", OF g(1,2)] es
    by (auto simp: requested_def requests_def map_add_def fun_eq_iff ex' split: option.splits)
  moreover have "reg_inv (s\<lparr>existing := ex\<rparr>)" and "processed (s\<lparr>existing := ex\<rparr>) = processed s"
    using inv fds by (simp add: reg_inv_def, simp add: processed_def) (metis image_set)
  moreover have "applied (s\<lparr>existing := ex\<rparr>) = applied s"
    by (simp add: applied_def ex' g(1,3) o_def if_distrib cong: if_cong)
  ultimately show ?thesis
    using ex by (simp add: modify_def gone_def)
qed

lemma modify_panic: "fd \<notin> processed s \<Longrightarrow> modify fd g s = None"
  using modify_first_None_iff [of fd g "existing s"] by (simp add: modify_def processed_def)

lemma remove_law:
  assumes inv: "reg_inv s" and mem: "fd \<in> processed s"
  shows "\<exists>i. position (\<lambda>p. pfd_fd p = fd) (existing s) = Some i \<and>
    remove_at i (existing s) = filter (\<lambda>p. pfd_fd p \<noteq> fd) (existing s)"
  using assms position_None_iff [of "\<lambda>p. pfd_fd p = fd" "existing s"]
    remove_at_position [of pfd_fd fd "existing s"]
  by (auto simp: reg_inv_def processed_def)

lemma filtered_set:
  assumes "reg_inv s" and "fd \<in> processed s"
  shows "reg_inv (s\<lparr>existing := filter (\<lambda>p. pfd_fd p \<noteq> fd) (existing s), removed := rm\<rparr>)"
    and "requested (s\<lparr>existing := filter (\<lambda>p. pfd_fd p \<noteq> fd) (existing s), removed := rm\<rparr>)
       = (requested s)(fd := None)"
    and "processed (s\<lparr>existing := filter (\<lambda>p. pfd_fd p \<noteq> fd) (existing s), removed := rm\<rparr>)
       = processed s - {fd}"
    and "applied (s\<lparr>existing := filter (\<lambda>p. pfd_fd p \<noteq> fd) (existing s), removed := rm\<rparr>)
       = (applied s)(fd := None)"
proof -
  show "reg_inv (s\<lparr>existing := filter (\<lambda>p. pfd_fd p \<noteq> fd) (existing s), removed := rm\<rparr>)"
    using assms(1) by (auto simp: reg_inv_def distinct_map_filter)
  have "filter (\<lambda>kv. fst kv \<noteq> fd) (new s) = new s"
    using assms by (auto simp: reg_inv_def processed_def filter_id_conv)
  then have "requests (s\<lparr>existing := filter (\<lambda>p. pfd_fd p \<noteq> fd) (existing s), removed := rm\<rparr>)
      = filter (\<lambda>kv. fst kv \<noteq> fd) (requests s)"
    by (simp add: requests_def filter_map o_def)
  then show "requested (s\<lparr>existing := filter (\<lambda>p. pfd_fd p \<noteq> fd) (existing s), removed := rm\<rparr>)
       = (requested s)(fd := None)"
    by (simp add: requested_def map_of_filter_key)
  show "processed (s\<lparr>existing := filter (\<lambda>p. pfd_fd p \<noteq> fd) (existing s), removed := rm\<rparr>)
       = processed s - {fd}"
    by (auto simp: processed_def)
  show "applied (s\<lparr>existing := filter (\<lambda>p. pfd_fd p \<noteq> fd) (existing s), removed := rm\<rparr>)
       = (applied s)(fd := None)"
    using map_of_filter_key [of fd "map (\<lambda>p. (pfd_fd p, pfd_event p)) (existing s)"]
    by (simp add: applied_def filter_map o_def)
qed

lemma unregister_law:
  assumes "reg_inv s" and "fd \<in> processed s"
  shows "\<exists>s'. unregister fd s = Some s' \<and> reg_inv s' \<and> requested s' = (requested s)(fd := None) \<and>
    processed s' = processed s - {fd} \<and> applied s' = (applied s)(fd := None) \<and> gone s' = insert fd (gone s)"
  using remove_law [OF assms] filtered_set [OF assms] by (auto simp: unregister_def gone_def)

lemma unregister_closed_law:
  assumes "reg_inv s" and "fd \<in> processed s"
  shows "\<exists>s'. unregister_closed fd s = Some s' \<and> reg_inv s' \<and> requested s' = (requested s)(fd := None) \<and>
    processed s' = processed s - {fd} \<and> applied s' = (applied s)(fd := None) \<and> gone s' = gone s"
  using remove_law [OF assms] filtered_set [OF assms, of "removed s"]
  by (auto simp: unregister_closed_def gone_def)

lemma unregister_panic: "fd \<notin> processed s \<Longrightarrow> unregister fd s = None \<and> unregister_closed fd s = None"
  using position_None_iff [of "\<lambda>p. pfd_fd p = fd" "existing s"]
  by (auto simp: unregister_def unregister_closed_def processed_def)

section \<open>The interface the channel manager relies on\<close>

lemma events_lawsD:
  assumes "events_laws E"
  shows "EPOLLIN E \<noteq> EPOLLOUT E" "EPOLLIN E \<in> ev_flags E" "EPOLLOUT E \<in> ev_flags E"
    "f \<in> ev_flags E \<Longrightarrow> \<not> ev_contains E (ev_empty E) f"
    "f \<in> ev_flags E \<Longrightarrow> g \<in> ev_flags E \<Longrightarrow> ev_contains E f g = (f = g)"
    "f \<in> ev_flags E \<Longrightarrow> g \<in> ev_flags E \<Longrightarrow>
       ev_contains E (ev_set E e f v) g = (if g = f then v else ev_contains E e g)"
    "f \<in> ev_flags E \<Longrightarrow> ev_contains E (from_bits_truncate E e) f = ev_contains E e f"
proof -
  note laws = assms [unfolded events_laws_def]
  show "EPOLLIN E \<noteq> EPOLLOUT E" "EPOLLIN E \<in> ev_flags E" "EPOLLOUT E \<in> ev_flags E"
    using laws by (simp_all add: ev_flags_def)
qed (use assms [unfolded events_laws_def] in blast)+

lemma wants_set_flag:
  assumes "events_laws E" and "req fd \<noteq> None" and "f \<in> ev_flags E" and "g \<in> ev_flags E"
  shows "wants E (req(fd \<mapsto> ev_set E (the (req fd)) f v)) fd' g =
    (if fd' = fd \<and> g = f then v else wants E req fd' g)"
  using assms events_lawsD(6) [OF assms(1,3,4)] by (auto simp: wants_def)

lemma wants_remove: "wants E (req(fd := None)) fd' g \<longleftrightarrow> fd' \<noteq> fd \<and> wants E req fd' g"
  by (simp add: wants_def)

lemma wants_add: "wants E (req(fd \<mapsto> es)) fd' g = (if fd' = fd then ev_contains E es g else wants E req fd' g)"
  by (simp add: wants_def)

definition wants_read :: "events_api \<Rightarrow> (RawFd \<rightharpoonup> Events) \<Rightarrow> RawFd \<Rightarrow> bool" where
  "wants_read E req fd = wants E req fd (EPOLLIN E)"

definition wants_write :: "events_api \<Rightarrow> (RawFd \<rightharpoonup> Events) \<Rightarrow> RawFd \<Rightarrow> bool" where
  "wants_write E req fd = wants E req fd (EPOLLOUT E)"

lemma wants_after_set:
  assumes "events_laws E" and "req fd \<noteq> None"
  shows "wants_read E (req(fd \<mapsto> ev_set E (the (req fd)) (EPOLLIN E) v)) = (wants_read E req)(fd := v)"
    and "wants_write E (req(fd \<mapsto> ev_set E (the (req fd)) (EPOLLIN E) v)) = wants_write E req"
    and "wants_write E (req(fd \<mapsto> ev_set E (the (req fd)) (EPOLLOUT E) v)) = (wants_write E req)(fd := v)"
    and "wants_read E (req(fd \<mapsto> ev_set E (the (req fd)) (EPOLLOUT E) v)) = wants_read E req"
  using wants_set_flag [where req = req, OF assms] events_lawsD(1-3) [OF assms(1)]
  by (simp_all add: fun_eq_iff wants_read_def wants_write_def)

text \<open>
  The contract of the descriptor set towards the channel manager, over the abstraction
  \<open>req\<close> (the masks asked for) and \<open>known\<close> (the descriptors the pollster has processed).
  Each operation either returns with the stated change or panics, and when it does what is
  fixed by the abstraction.
\<close>

locale fd_registry =
  fixes inv :: "'s \<Rightarrow> bool"
    and req :: "'s \<Rightarrow> RawFd \<rightharpoonup> Events"
    and known :: "'s \<Rightarrow> RawFd set"
    and app :: "'s \<Rightarrow> RawFd \<rightharpoonup> Event"
    and del :: "'s \<Rightarrow> RawFd set"
    and reg :: "RawFd \<Rightarrow> Events \<Rightarrow> 's \<Rightarrow> 's option"
    and set_read :: "events_api \<Rightarrow> bool \<Rightarrow> RawFd \<Rightarrow> 's \<Rightarrow> 's option"
    and set_write :: "events_api \<Rightarrow> bool \<Rightarrow> RawFd \<Rightarrow> 's \<Rightarrow> 's option"
    and unreg :: "RawFd \<Rightarrow> 's \<Rightarrow> 's option"
    and unreg_closed :: "RawFd \<Rightarrow> 's \<Rightarrow> 's option"
  assumes known_req: "known s \<subseteq> dom (req s)"
    and reg_ok: "inv s \<Longrightarrow> req s fd = None \<Longrightarrow>
      \<exists>s'. reg fd es s = Some s' \<and> inv s' \<and> req s' = (req s)(fd \<mapsto> es) \<and> known s' = known s \<and>
        app s' = app s \<and> del s' = del s"
    and reg_panic: "req s fd \<noteq> None \<Longrightarrow> reg fd es s = None"
    and set_read_ok: "inv s \<Longrightarrow> fd \<in> known s \<Longrightarrow> \<exists>s'. set_read E v fd s = Some s' \<and> inv s' \<and>
      req s' = (req s)(fd \<mapsto> ev_set E (the (req s fd)) (EPOLLIN E) v) \<and> known s' = known s \<and>
      app s' = app s \<and> del s' = del s"
    and set_read_panic: "fd \<notin> known s \<Longrightarrow> set_read E v fd s = None"
    and set_write_ok: "inv s \<Longrightarrow> fd \<in> known s \<Longrightarrow> \<exists>s'. set_write E v fd s = Some s' \<and> inv s' \<and>
      req s' = (req s)(fd \<mapsto> ev_set E (the (req s fd)) (EPOLLOUT E) v) \<and> known s' = known s \<and>
      app s' = app s \<and> del s' = del s"
    and set_write_panic: "fd \<notin> known s \<Longrightarrow> set_write E v fd s = None"
    and unreg_ok: "inv s \<Longrightarrow> fd \<in> known s \<Longrightarrow>
      \<exists>s'. unreg fd s = Some s' \<and> inv s' \<and> req s' = (req s)(fd := None) \<and> known s' = known s - {fd} \<and>
        app s' = (app s)(fd := None) \<and> del s' = insert fd (del s)"
    and unreg_panic: "fd \<notin> known s \<Longrightarrow> unreg fd s = None"
    and unreg_closed_ok: "inv s \<Longrightarrow> fd \<in> known s \<Longrightarrow>
      \<exists>s'. unreg_closed fd s = Some s' \<and> inv s' \<and> req s' = (req s)(fd := None) \<and> known s' = known s - {fd} \<and>
        app s' = (app s)(fd := None) \<and> del s' = del s"
    and unreg_closed_panic: "fd \<notin> known s \<Longrightarrow> unreg_closed fd s = None"
begin

lemma register_SomeD:
  assumes "inv s" and "reg fd es s = Some s'"
  shows "req s fd = None \<and> inv s' \<and> req s' = (req s)(fd \<mapsto> es) \<and> known s' = known s \<and>
    app s' = app s \<and> del s' = del s"
  using assms reg_ok [of s fd es] reg_panic [of s fd es] by (cases "req s fd") auto

lemma unreg_SomeD:
  assumes "inv s" and "unreg fd s = Some s'"
  shows "fd \<in> known s \<and> inv s' \<and> req s' = (req s)(fd := None) \<and> known s' = known s - {fd} \<and>
    app s' = (app s)(fd := None) \<and> del s' = insert fd (del s)"
  using assms unreg_ok [of s fd] unreg_panic [of fd s] by (cases "fd \<in> known s") auto

lemma unreg_closed_SomeD:
  assumes "inv s" and "unreg_closed fd s = Some s'"
  shows "fd \<in> known s \<and> inv s' \<and> req s' = (req s)(fd := None) \<and> known s' = known s - {fd} \<and>
    app s' = (app s)(fd := None) \<and> del s' = del s"
  using assms unreg_closed_ok [of s fd] unreg_closed_panic [of fd s] by (cases "fd \<in> known s") auto

lemma set_read_SomeD:
  assumes "inv s" and "set_read E v fd s = Some s'" and "events_laws E"
  shows "fd \<in> known s \<and> inv s' \<and> known s' = known s \<and> app s' = app s \<and> del s' = del s \<and>
    dom (req s') = dom (req s) \<and>
    wants_write E (req s') = wants_write E (req s) \<and>
    wants_read E (req s') = (wants_read E (req s))(fd := v)"
proof -
  have k: "fd \<in> known s" using assms(2) set_read_panic by fastforce
  then have r: "req s fd \<noteq> None" using known_req by blast
  from set_read_ok [OF assms(1) k, of E v] assms(2)
  have s': "inv s'" "req s' = (req s)(fd \<mapsto> ev_set E (the (req s fd)) (EPOLLIN E) v)" "known s' = known s"
      "app s' = app s" "del s' = del s"
    by auto
  show ?thesis
    using k s' r wants_after_set [where req = "req s", OF assms(3) r]
    by (simp add: insert_absorb domIff)
qed

lemma set_write_SomeD:
  assumes "inv s" and "set_write E v fd s = Some s'" and "events_laws E"
  shows "fd \<in> known s \<and> inv s' \<and> known s' = known s \<and> app s' = app s \<and> del s' = del s \<and>
    dom (req s') = dom (req s) \<and>
    wants_read E (req s') = wants_read E (req s) \<and>
    wants_write E (req s') = (wants_write E (req s))(fd := v)"
proof -
  have k: "fd \<in> known s" using assms(2) set_write_panic by fastforce
  then have r: "req s fd \<noteq> None" using known_req by blast
  from set_write_ok [OF assms(1) k, of E v] assms(2)
  have s': "inv s'" "req s' = (req s)(fd \<mapsto> ev_set E (the (req s fd)) (EPOLLOUT E) v)" "known s' = known s"
      "app s' = app s" "del s' = del s"
    by auto
  show ?thesis
    using k s' r wants_after_set [where req = "req s", OF assms(3) r]
    by (simp add: insert_absorb domIff)
qed

lemma reg_cases: "inv s \<Longrightarrow> case reg fd es s of None \<Rightarrow> fd \<in> dom (req s)
    | Some s' \<Rightarrow> fd \<notin> dom (req s) \<and> inv s' \<and> req s' = (req s)(fd \<mapsto> es)"
  using reg_ok [of s fd es] reg_panic [of s fd es]
  by (cases "req s fd = None") (auto simp: domIff)

lemma set_read_cases: "inv s \<Longrightarrow> case set_read E v fd s of None \<Rightarrow> fd \<notin> known s
    | Some s' \<Rightarrow> fd \<in> known s \<and> inv s' \<and> req s' = (req s)(fd \<mapsto> ev_set E (the (req s fd)) (EPOLLIN E) v)"
  using set_read_ok [of s fd E v] set_read_panic [of fd s E v] by (cases "fd \<in> known s") auto

lemma set_write_cases: "inv s \<Longrightarrow> case set_write E v fd s of None \<Rightarrow> fd \<notin> known s
    | Some s' \<Rightarrow> fd \<in> known s \<and> inv s' \<and> req s' = (req s)(fd \<mapsto> ev_set E (the (req s fd)) (EPOLLOUT E) v)"
  using set_write_ok [of s fd E v] set_write_panic [of fd s E v] by (cases "fd \<in> known s") auto

lemma unreg_cases: "inv s \<Longrightarrow> case unreg fd s of None \<Rightarrow> fd \<notin> known s
    | Some s' \<Rightarrow> fd \<in> known s \<and> inv s' \<and> req s' = (req s)(fd := None)"
  by (cases "unreg fd s") (use unreg_ok [of s fd] in force, simp add: unreg_SomeD)

lemma unreg_closed_cases: "inv s \<Longrightarrow> case unreg_closed fd s of None \<Rightarrow> fd \<notin> known s
    | Some s' \<Rightarrow> fd \<in> known s \<and> inv s' \<and> req s' = (req s)(fd := None)"
  by (cases "unreg_closed fd s") (use unreg_closed_ok [of s fd] in force, simp add: unreg_closed_SomeD)

lemma set_write_defined: "inv s \<Longrightarrow> (\<exists>s'. set_write E v fd s = Some s') \<longleftrightarrow> fd \<in> known s"
  using set_write_ok [of s fd E v] set_write_panic [of fd s E v] by (cases "fd \<in> known s") auto

lemma set_read_defined: "inv s \<Longrightarrow> (\<exists>s'. set_read E v fd s = Some s') \<longleftrightarrow> fd \<in> known s"
  using set_read_ok [of s fd E v] set_read_panic [of fd s E v] by (cases "fd \<in> known s") auto

end

interpretation fdset: fd_registry reg_inv requested processed applied gone register
  "\<lambda>E v fd. modify fd (poll_for_read E v)" "\<lambda>E v fd. modify fd (poll_for_write E v)"
  unregister unregister_closed
proof (unfold_locales, goal_cases)
  case (4 s fd E v)
  then show ?case
    by (intro modify_law [where h = "\<lambda>es. ev_set E es (EPOLLIN E) v"]) (simp_all add: poll_for_read_def)
next
  case (6 s fd E v)
  then show ?case
    by (intro modify_law [where h = "\<lambda>es. ev_set E es (EPOLLOUT E) v"]) (simp_all add: poll_for_write_def)
qed (auto simp: processed_requested [THEN subsetD] register_law register_panic modify_panic
    unregister_law unregister_closed_law unregister_panic dest: subsetD [OF processed_requested])

section \<open>Applying the pending changes\<close>

definition pfd_synced :: "PolledFd \<Rightarrow> PolledFd" where
  "pfd_synced p = p\<lparr>pfd_event := (pfd_event p)\<lparr>events := new_events p\<rparr>\<rparr>"

lemma pfd_synced_simps [simp]:
  "pfd_fd (pfd_synced p) = pfd_fd p" "new_events (pfd_synced p) = new_events p"
  "events (pfd_event (pfd_synced p)) = new_events p"
  "event_data (pfd_event (pfd_synced p)) = event_data (pfd_event p)"
  by (simp_all add: pfd_synced_def)

lemma pfd_apply_updates_eq:
  "pfd_apply_updates p =
     (if events (pfd_event p) = new_events p then None else Some (pfd_event (pfd_synced p)), pfd_synced p)"
proof -
  have "events (pfd_event p) = new_events p \<Longrightarrow> p = pfd_synced p"
    by (cases p; cases "pfd_event p") (simp add: pfd_synced_def)
  then show ?thesis by (auto simp: pfd_apply_updates_def pfd_synced_def Let_def)
qed

lemma update_existing_shape:
  "update_existing uf ps w = (r, ps', w') \<Longrightarrow>
     map pfd_fd ps' = map pfd_fd ps \<and> map new_events ps' = map new_events ps"
  by (induction ps arbitrary: w r ps' w')
    (auto simp: pfd_apply_updates_eq split: prod.splits io_result.splits if_splits)

lemma update_existing_Ok:
  "update_existing uf ps w = (Ok u, ps', w') \<Longrightarrow> ps' = map pfd_synced ps"
  by (induction ps arbitrary: w ps' w')
    (auto simp: pfd_apply_updates_eq split: prod.splits io_result.splits if_splits)

lemma add_new_Ok:
  assumes "\<And>f es w p w'. nf f es w = (Ok p, w') \<Longrightarrow> p = mk f es"
  shows "add_new nf ns ex w = (Ok u, ex', w') \<Longrightarrow> ex' = ex @ map (\<lambda>(f, es). mk f es) ns"
  by (induction ns arbitrary: ex w) (fastforce split: prod.splits io_result.splits dest: assms)+

lemma apply_updates_Ok:
  assumes mk: "\<And>f es w p w'. nf f es w = (Ok p, w') \<Longrightarrow> p = mk f es"
    and ok: "apply_updates nf uf df s w = (Ok u, s', w')"
  shows "s' = \<lparr>existing = map pfd_synced (existing s) @ map (\<lambda>(f, es). mk f es) (new s), new = [], removed = []\<rparr>"
proof -
  from ok obtain ex1 w1 ex2 w2 where
    "update_existing uf (existing s) w = (Ok (), ex1, w1)" "add_new nf (new s) ex1 w1 = (Ok (), ex2, w2)"
    "s' = s\<lparr>existing := ex2, new := [], removed := []\<rparr>"
    by (auto simp: apply_updates_def split: prod.splits io_result.splits)
  with update_existing_Ok add_new_Ok [OF mk] show ?thesis by fastforce
qed

text \<open>The recording callbacks of the module's tests (\<^verbatim>\<open>FdSetUpdates\<close>): they never fail and keep
  the calls they received.\<close>

record FdSetUpdates =
  upd_new :: "(RawFd \<times> Events) list"
  upd_updates :: "(RawFd \<times> Event) list"
  upd_removed :: "RawFd list"

definition updates_new :: FdSetUpdates where
  "updates_new = \<lparr>upd_new = [], upd_updates = [], upd_removed = []\<rparr>"

definition recorded_apply_updates ::
  "events_api \<Rightarrow> FdSetUpdates \<Rightarrow> PolledFdSet \<Rightarrow> unit io_result \<times> PolledFdSet \<times> FdSetUpdates" where
  "recorded_apply_updates E u s =
     apply_updates
       (\<lambda>fd es u. (Ok (polled_fd_new E fd (event_new es 0)), u\<lparr>upd_new := upd_new u @ [(fd, es)]\<rparr>))
       (\<lambda>fd ev u. (Ok (), u\<lparr>upd_updates := upd_updates u @ [(fd, ev)]\<rparr>))
       (\<lambda>fd u. (Ok (), u\<lparr>upd_removed := upd_removed u @ [fd]\<rparr>)) s u"

definition changed_masks :: "PolledFdSet \<Rightarrow> (RawFd \<times> Event) list" where
  "changed_masks s = map (\<lambda>p. (pfd_fd p, (pfd_event p)\<lparr>events := new_events p\<rparr>))
     (filter (\<lambda>p. events (pfd_event p) \<noteq> new_events p) (existing s))"

lemma update_existing_recorded:
  "update_existing (\<lambda>fd ev u. (Ok (), u\<lparr>upd_updates := upd_updates u @ [(fd, ev)]\<rparr>)) ps u =
     (Ok (), map pfd_synced ps, u\<lparr>upd_updates := upd_updates u @
        map (\<lambda>p. (pfd_fd p, (pfd_event p)\<lparr>events := new_events p\<rparr>))
          (filter (\<lambda>p. events (pfd_event p) \<noteq> new_events p) ps)\<rparr>)"
  by (induction ps arbitrary: u) (simp_all add: pfd_apply_updates_eq pfd_synced_def)

lemma add_new_recorded:
  "add_new (\<lambda>fd es u. (Ok (mk fd es), u\<lparr>upd_new := upd_new u @ [(fd, es)]\<rparr>)) ns ex u =
     (Ok (), ex @ map (\<lambda>(f, es). mk f es) ns, u\<lparr>upd_new := upd_new u @ ns\<rparr>)"
  by (induction ns arbitrary: ex u) auto

lemma delete_removed_recorded:
  "delete_removed (\<lambda>fd u. (Ok (), u\<lparr>upd_removed := upd_removed u @ [fd]\<rparr>)) fds u =
     (Ok (), u\<lparr>upd_removed := upd_removed u @ fds\<rparr>)"
  by (induction fds arbitrary: u) auto

section \<open>Properties\<close>

text \<open>C26. The registration discipline of \<^verbatim>\<open>PolledFdSet\<close>: on a set without duplicates, \<^verbatim>\<open>register\<close>
  panics exactly for a descriptor that is already registered (processed or not), \<^verbatim>\<open>modify\<close>,
  \<^verbatim>\<open>unregister\<close> and \<^verbatim>\<open>unregister_closed\<close> panic exactly for one epoll does not know yet, and when
  they return the set has no duplicates and only the named descriptor's request changed.\<close>

theorem registration_discipline:
  assumes "reg_inv s"
  shows "(case register fd es s of
        None \<Rightarrow> fd \<in> dom (requested s)
      | Some s' \<Rightarrow> fd \<notin> dom (requested s) \<and> reg_inv s' \<and> requested s' = (requested s)(fd \<mapsto> es)) \<and>
    (case modify fd (poll_for_write E v) s of
        None \<Rightarrow> fd \<notin> processed s
      | Some s' \<Rightarrow> fd \<in> processed s \<and> reg_inv s' \<and>
          requested s' = (requested s)(fd \<mapsto> ev_set E (the (requested s fd)) (EPOLLOUT E) v)) \<and>
    (case modify fd (poll_for_read E v) s of
        None \<Rightarrow> fd \<notin> processed s
      | Some s' \<Rightarrow> fd \<in> processed s \<and> reg_inv s' \<and>
          requested s' = (requested s)(fd \<mapsto> ev_set E (the (requested s fd)) (EPOLLIN E) v)) \<and>
    (case unregister fd s of
        None \<Rightarrow> fd \<notin> processed s
      | Some s' \<Rightarrow> fd \<in> processed s \<and> reg_inv s' \<and> requested s' = (requested s)(fd := None)) \<and>
    (case unregister_closed fd s of
        None \<Rightarrow> fd \<notin> processed s
      | Some s' \<Rightarrow> fd \<in> processed s \<and> reg_inv s' \<and> requested s' = (requested s)(fd := None))"
  using fdset.reg_cases [OF assms] fdset.set_write_cases [OF assms] fdset.set_read_cases [OF assms]
    fdset.unreg_cases [OF assms] fdset.unreg_closed_cases [OF assms]
  by (intro conjI)

theorem registration_discipline_witness:
  "reg_inv (fd_set_new\<lparr>new := [(3, 1)]\<rparr>) \<and> register 3 1 (fd_set_new\<lparr>new := [(3, 1)]\<rparr>) = None \<and>
   3 \<in> dom (requested (fd_set_new\<lparr>new := [(3, 1)]\<rparr>))"
proof -
  have inv: "reg_inv (fd_set_new\<lparr>new := [(3, 1)]\<rparr>)"
    by (simp add: reg_inv_def fd_set_new_def)
  have "register 3 1 (fd_set_new\<lparr>new := [(3, 1)]\<rparr>) = None"
    by (simp add: register_def fd_set_new_def)
  then show ?thesis
    using inv registration_discipline [OF inv, of 3 1] by simp
qed

text \<open>C27. \<^verbatim>\<open>PolledFdSet::apply_updates\<close> tells epoll exactly what is pending: an update for each
  processed descriptor whose requested mask differs from the applied one and for no other, an
  addition for each registration in order, a deletion for each removal; afterwards every
  descriptor is processed with its requested mask applied and nothing is pending. (The callbacks
  are the recording ones of the module's tests.)\<close>

theorem apply_updates_reports_exactly_pending:
  "recorded_apply_updates E u s =
     (Ok (),
      \<lparr>existing = map pfd_synced (existing s) @
         map (\<lambda>(fd, es). polled_fd_new E fd (event_new es 0)) (new s), new = [], removed = []\<rparr>,
      \<lparr>upd_new = upd_new u @ new s, upd_updates = upd_updates u @ changed_masks s,
       upd_removed = upd_removed u @ removed s\<rparr>)"
  by (simp add: recorded_apply_updates_def apply_updates_def update_existing_recorded add_new_recorded
      delete_removed_recorded changed_masks_def)

end
