(* ===== verification/Platform.thy ===== *)
theory Platform
  imports Flip_Buffer Polled_Fd
begin

text \<open>
  What the program uses of the operating system and of the \<^verbatim>\<open>epoll\<close> and \<^verbatim>\<open>libc\<close> crates, as a
  record of functions on an arbitrary world \<open>'w\<close>. Every operation of the model that performs
  IO takes such a record as an argument. \<open>platform_laws\<close> collects the documented behaviour that
  the theorems rely on: the Read and Write contracts, and what each call does to the process's
  table of open descriptors (\<open>opened\<close>); \<open>epoll_laws\<close> adds what the calls do to the interest
  list of the epoll instance.
\<close>

section \<open>Calls\<close>

datatype ControlOptions = EPOLL_CTL_ADD | EPOLL_CTL_MOD | EPOLL_CTL_DEL

record 'w platform =
  plat_events :: events_api
  EIO :: int
  sys_read :: "RawFd \<Rightarrow> 'w Read"
  sys_write :: "RawFd \<Rightarrow> u8 list \<Rightarrow> 'w \<Rightarrow> nat io_result \<times> 'w"
  sys_flush :: "RawFd \<Rightarrow> 'w \<Rightarrow> unit io_result \<times> 'w"
  sys_accept :: "RawFd \<Rightarrow> 'w \<Rightarrow> RawFd io_result \<times> 'w"
  sys_close :: "RawFd \<Rightarrow> 'w \<Rightarrow> 'w"
  epoll_create :: "bool \<Rightarrow> 'w \<Rightarrow> RawFd io_result \<times> 'w"
  epoll_ctl :: "RawFd \<Rightarrow> ControlOptions \<Rightarrow> RawFd \<Rightarrow> Event \<Rightarrow> 'w \<Rightarrow> unit io_result \<times> 'w"
  epoll_wait :: "RawFd \<Rightarrow> int \<Rightarrow> Event list \<Rightarrow> 'w \<Rightarrow> (nat io_result \<times> Event list) \<times> 'w"

definition fd_writer :: "'w platform \<Rightarrow> RawFd \<Rightarrow> 'w Write" where
  "fd_writer P fd = \<lparr>write_fn = sys_write P fd, flush_fn = sys_flush P fd\<rparr>"

section \<open>Worlds reached by stream IO\<close>

text \<open>\<open>io_on P F w w'\<close>: from \<open>w\<close> to \<open>w'\<close> only reads, writes and flushes of the descriptors in
  \<open>F\<close> happened.\<close>

inductive io_on :: "'w platform \<Rightarrow> RawFd set \<Rightarrow> 'w \<Rightarrow> 'w \<Rightarrow> bool" for P F where
  io_refl: "io_on P F w w"
| io_read: "io_on P F w w1 \<Longrightarrow> fd \<in> F \<Longrightarrow> io_on P F w (snd (sys_read P fd s w1))"
| io_write: "io_on P F w w1 \<Longrightarrow> fd \<in> F \<Longrightarrow> io_on P F w (snd (sys_write P fd s w1))"
| io_flush: "io_on P F w w1 \<Longrightarrow> fd \<in> F \<Longrightarrow> io_on P F w (snd (sys_flush P fd w1))"

lemma io_on_mono: "io_on P F w w' \<Longrightarrow> F \<subseteq> G \<Longrightarrow> io_on P G w w'"
  by (induction rule: io_on.induct) (auto intro: io_on.intros)

lemma io_on_none: "io_on P {} w w' \<Longrightarrow> w' = w"
  by (induction rule: io_on.induct) auto

lemma io_on_keeps:
  assumes "io_on P F w w'"
    and "\<And>fd s w. g (snd (sys_read P fd s w)) = g w"
    and "\<And>fd s w. g (snd (sys_write P fd s w)) = g w"
    and "\<And>fd w. g (snd (sys_flush P fd w)) = g w"
  shows "g w' = g w"
  using assms(1) by (induction rule: io_on.induct) (simp_all add: assms(2-4))

section \<open>Laws\<close>

definition platform_laws :: "'w platform \<Rightarrow> ('w \<Rightarrow> RawFd set) \<Rightarrow> bool" where
  "platform_laws P opened \<longleftrightarrow>
     events_laws (plat_events P) \<and>
     (\<forall>fd. read_contract (sys_read P fd)) \<and> (\<forall>fd. write_contract (fd_writer P fd)) \<and>
     (\<forall>fd s w. opened (snd (sys_read P fd s w)) = opened w) \<and>
     (\<forall>fd s w. opened (snd (sys_write P fd s w)) = opened w) \<and>
     (\<forall>fd w. opened (snd (sys_flush P fd w)) = opened w) \<and>
     (\<forall>fd w c w'. sys_accept P fd w = (Ok c, w') \<longrightarrow> c \<notin> opened w \<and> opened w' = insert c (opened w)) \<and>
     (\<forall>fd w e w'. sys_accept P fd w = (Err e, w') \<longrightarrow> opened w' = opened w) \<and>
     (\<forall>fd w. opened (sys_close P fd w) = opened w - {fd}) \<and>
     (\<forall>ep op fd ev w. opened (snd (epoll_ctl P ep op fd ev w)) = opened w) \<and>
     (\<forall>ep t evs w. opened (snd (epoll_wait P ep t evs w)) = opened w)"

text \<open>\<open>interest w\<close> is the interest list of the epoll instance \<open>ep\<close>: a successful call changes
  the entry of its descriptor only, and closing a descriptor removes it.\<close>

definition epoll_laws :: "'w platform \<Rightarrow> RawFd \<Rightarrow> ('w \<Rightarrow> RawFd \<rightharpoonup> Event) \<Rightarrow> bool" where
  "epoll_laws P ep interest \<longleftrightarrow>
     (\<forall>fd ev w w'. epoll_ctl P ep EPOLL_CTL_ADD fd ev w = (Ok (), w') \<longrightarrow> interest w' = (interest w)(fd \<mapsto> ev)) \<and>
     (\<forall>fd ev w w'. epoll_ctl P ep EPOLL_CTL_MOD fd ev w = (Ok (), w') \<longrightarrow> interest w' = (interest w)(fd \<mapsto> ev)) \<and>
     (\<forall>fd ev w w'. epoll_ctl P ep EPOLL_CTL_DEL fd ev w = (Ok (), w') \<longrightarrow> interest w' = (interest w)(fd := None)) \<and>
     (\<forall>fd w. interest (sys_close P fd w) = (interest w)(fd := None)) \<and>
     (\<forall>fd s w. interest (snd (sys_read P fd s w)) = interest w) \<and>
     (\<forall>fd s w. interest (snd (sys_write P fd s w)) = interest w) \<and>
     (\<forall>fd w. interest (snd (sys_flush P fd w)) = interest w) \<and>
     (\<forall>fd w. interest (snd (sys_accept P fd w)) = interest w) \<and>
     (\<forall>t evs w. interest (snd (epoll_wait P ep t evs w)) = interest w)"

lemma platform_lawsD:
  assumes "platform_laws P opened"
  shows "events_laws (plat_events P)" "read_contract (sys_read P fd)" "write_contract (fd_writer P fd)"
    "sys_accept P fd w = (Ok c, w') \<Longrightarrow> c \<notin> opened w \<and> opened w' = insert c (opened w)"
    "sys_accept P fd w = (Err e, w') \<Longrightarrow> opened w' = opened w"
    "opened (sys_close P fd w) = opened w - {fd}"
    "opened (snd (epoll_ctl P ep op fd ev w)) = opened w"
    "opened (snd (epoll_wait P ep t evs w)) = opened w"
proof -
  note laws = assms [unfolded platform_laws_def]
  show "events_laws (plat_events P)" "read_contract (sys_read P fd)" "write_contract (fd_writer P fd)"
    "opened (sys_close P fd w) = opened w - {fd}"
    "opened (snd (epoll_ctl P ep op fd ev w)) = opened w"
    "opened (snd (epoll_wait P ep t evs w)) = opened w"
    using laws by simp_all
  show "sys_accept P fd w = (Ok c, w') \<Longrightarrow> c \<notin> opened w \<and> opened w' = insert c (opened w)"
    using laws by meson
  show "sys_accept P fd w = (Err e, w') \<Longrightarrow> opened w' = opened w"
    using laws by meson
qed

lemma io_on_opened: "platform_laws P opened \<Longrightarrow> io_on P F w w' \<Longrightarrow> opened w' = opened w"
  by (rule io_on_keeps) (auto simp: platform_laws_def)

lemma io_on_interest: "epoll_laws P ep interest \<Longrightarrow> io_on P F w w' \<Longrightarrow> interest w' = interest w"
  by (rule io_on_keeps) (auto simp: epoll_laws_def)

section \<open>Event tags\<close>

text \<open>The pollster registers a descriptor under the tag \<^verbatim>\<open>fd as u64\<close> (an \<^verbatim>\<open>i32\<close> is sign extended) and
  recovers it with \<^verbatim>\<open>event.data as RawFd\<close> (the low 32 bits).\<close>

definition fd_data :: "RawFd \<Rightarrow> u64" where
  "fd_data fd = scast fd"

definition data_fd :: "u64 \<Rightarrow> RawFd" where
  "data_fd d = ucast d"

lemma data_fd_data [simp]: "data_fd (fd_data fd) = fd"
  by (rule bit_word_eqI) (auto simp: data_fd_def fd_data_def bit_ucast_iff bit_signed_iff)

section \<open>The kernel's state\<close>

text \<open>The part of the kernel's state that the invariants speak about: open descriptors, the interest
  list of the epoll instance, and the entries of that list which are not the channel manager's.\<close>

record 'w kernel_view =
  kv_opened :: "'w \<Rightarrow> RawFd set"
  kv_interest :: "'w \<Rightarrow> RawFd \<rightharpoonup> Event"
  kv_foreign :: "RawFd \<rightharpoonup> Event"

definition kernel_laws :: "'w platform \<Rightarrow> RawFd \<Rightarrow> 'w kernel_view \<Rightarrow> bool" where
  "kernel_laws P ep K \<longleftrightarrow> platform_laws P (kv_opened K) \<and> epoll_laws P ep (kv_interest K)"

lemma kernel_lawsD:
  assumes "kernel_laws P ep K"
  shows "platform_laws P (kv_opened K)" "epoll_laws P ep (kv_interest K)" "events_laws (plat_events P)"
    "io_on P F w w' \<Longrightarrow> kv_opened K w' = kv_opened K w"
    "io_on P F w w' \<Longrightarrow> kv_interest K w' = kv_interest K w"
    "kv_opened K (sys_close P fd w) = kv_opened K w - {fd}"
    "kv_interest K (sys_close P fd w) = (kv_interest K w)(fd := None)"
    "kv_interest K (snd (sys_accept P fd w)) = kv_interest K w"
proof -
  have p: "platform_laws P (kv_opened K)" and e: "epoll_laws P ep (kv_interest K)"
    using assms by (simp_all add: kernel_laws_def)
  show "platform_laws P (kv_opened K)" "epoll_laws P ep (kv_interest K)" by (fact p, fact e)
  show "events_laws (plat_events P)" "kv_opened K (sys_close P fd w) = kv_opened K w - {fd}"
    using platform_lawsD [OF p] by simp_all
  show "io_on P F w w' \<Longrightarrow> kv_opened K w' = kv_opened K w"
    "io_on P F w w' \<Longrightarrow> kv_interest K w' = kv_interest K w"
    using io_on_opened [OF p] io_on_interest [OF e] by blast+
  show "kv_interest K (sys_close P fd w) = (kv_interest K w)(fd := None)"
    "kv_interest K (snd (sys_accept P fd w)) = kv_interest K w"
    using e by (simp_all add: epoll_laws_def)
qed

end
