(* ===== verification/Channel_Manager.thy ===== *)
theory Channel_Manager
  imports Platform
begin

text \<open>
  \<^verbatim>\<open>src/src/channel_manager.rs\<close>: the classification of IO errors, the two copy functions
  between a channel and a buffer, and the \<^verbatim>\<open>ChannelManager\<close> trait as a record of operations.
\<close>

section \<open>Copying between channels and buffers\<close>

fun is_nonfatal_io_error :: "ErrorKind \<Rightarrow> bool" where
  "is_nonfatal_io_error ConnectionReset = True"
| "is_nonfatal_io_error BrokenPipe = True"
| "is_nonfatal_io_error _ = False"

type_synonym copy_outcome = "(bool \<times> BufferStateChange) io_result"

definition copy_outcome :: "CopyResult \<times> BufferStateChange \<Rightarrow> copy_outcome" where
  "copy_outcome rc =
     (case rc of
        (IOCompleted n, state) \<Rightarrow> if n = 0 then Ok (True, state) else Ok (False, state)
      | (IOError err, state) \<Rightarrow>
          if is_nonfatal_io_error err then Ok (True, state) else Err (error_of_kind err)
      | (BufferNotReady, state) \<Rightarrow> Ok (False, state))"

definition channel_to_buffer ::
  "'w Read \<Rightarrow> FlipBuffer \<Rightarrow> 'w \<Rightarrow> (copy_outcome \<times> FlipBuffer \<times> 'w) option" where
  "channel_to_buffer rd buffer w = do {
     (rc, buffer', w') \<leftarrow> read_or_drain rd buffer w;
     Some (copy_outcome rc, buffer', w')
   }"

definition buffer_to_channel ::
  "FlipBuffer \<Rightarrow> 'w Write \<Rightarrow> 'w \<Rightarrow> (copy_outcome \<times> FlipBuffer \<times> 'w) option" where
  "buffer_to_channel buffer W w = do {
     (rc, buffer', w') \<leftarrow> write_to W buffer w;
     Some (copy_outcome rc, buffer', w')
   }"

text \<open>The trait: handlers take the manager, the descriptor set and the world, and return the
  \<^verbatim>\<open>io::Result<()>\<close> with the new values.\<close>

type_synonym ('m, 'w) handler =
  "RawFd \<Rightarrow> 'm \<Rightarrow> PolledFdSet \<Rightarrow> 'w \<Rightarrow> (unit io_result \<times> 'm \<times> PolledFdSet \<times> 'w) option"

record ('m, 'w) ChannelManager =
  cm_initialize :: "'m \<Rightarrow> PolledFdSet \<Rightarrow> 'w \<Rightarrow> ('m \<times> PolledFdSet \<times> 'w) option"
  cm_on_readable :: "('m, 'w) handler"
  cm_on_writable :: "('m, 'w) handler"
  cm_on_hangup :: "('m, 'w) handler"

section \<open>What a copy does\<close>

definition filled :: "FlipBuffer \<Rightarrow> copy_outcome \<Rightarrow> FlipBuffer \<Rightarrow> bool" where
  "filled b res b' \<longleftrightarrow> buf_inv b' \<and> (\<exists>xs. contents b' = contents b @ xs \<and>
     (case res of
        Ok (close, ch) \<Rightarrow> (contents b' \<noteq> [] \<longleftrightarrow> track_change ch (contents b \<noteq> [])) \<and>
          ch \<noteq> BecameEmpty \<and> (close \<longrightarrow> xs = [])
      | Err e \<Rightarrow> xs = [] \<and> \<not> is_nonfatal_io_error (kind e)))"

definition drained :: "FlipBuffer \<Rightarrow> copy_outcome \<Rightarrow> FlipBuffer \<Rightarrow> bool" where
  "drained b res b' \<longleftrightarrow> buf_inv b' \<and> (\<exists>xs. contents b = xs @ contents b' \<and>
     (case res of
        Ok (close, ch) \<Rightarrow> (contents b' \<noteq> [] \<longleftrightarrow> track_change ch (contents b \<noteq> [])) \<and>
          ch \<noteq> BecameNonEmpty
      | Err e \<Rightarrow> \<not> is_nonfatal_io_error (kind e)))"

lemma channel_to_buffer_total:
  assumes "buf_inv b" and "read_contract rd"
  shows "\<exists>res b' w'. channel_to_buffer rd b w = Some (res, b', w') \<and> filled b res b' \<and>
    (w' = snd (rd (space_slice b) w) \<or> w' = snd (rd (heap_buffer 8192) w))"
proof (cases "buffer_full b")
  case True
  obtain res s' w' where "rd (heap_buffer 8192) w = ((res, s'), w')"
    by (metis surj_pair)
  then show ?thesis
    using assms True
    by (cases res) (auto simp: channel_to_buffer_def read_or_drain_full copy_outcome_def filled_def)
next
  case False
  from read_from_total [OF assms, of w] obtain cr ch b' w' where
    r: "read_from rd b w = Some ((cr, ch), b', w')" "buf_inv b'" "fill_spec rd b w (cr, ch) b' w'"
    by auto
  note sp = r(3) [unfolded fill_spec_def, simplified]
  have w': "w' = snd (rd (space_slice b) w)"
    using sp False by (cases cr) auto
  have ch: "ch \<noteq> BecameEmpty"
    using sp by (cases cr) (auto split: if_splits)
  have "case copy_outcome (cr, ch) of
      Ok (close, ch) \<Rightarrow> (contents b' \<noteq> [] \<longleftrightarrow> track_change ch (contents b \<noteq> [])) \<and>
        ch \<noteq> BecameEmpty \<and> (close \<longrightarrow> accepted_bytes rd b w = [])
    | Err e \<Rightarrow> accepted_bytes rd b w = [] \<and> \<not> is_nonfatal_io_error (kind e)"
    using sp ch fill_spec_bytes(2) [OF r(3)] False
    by (cases cr) (auto simp: copy_outcome_def accepted_bytes_def)
  then have "filled b (copy_outcome (cr, ch)) b'"
    unfolding filled_def using r(2) fill_spec_bytes(1) [OF r(3)] by blast
  then show ?thesis
    using assms False r(1) w' by (simp add: channel_to_buffer_def read_or_drain_room)
qed

lemma buffer_to_channel_total:
  assumes "buf_inv b" and "write_contract W"
  shows "\<exists>res b' w'. buffer_to_channel b W w = Some (res, b', w') \<and> drained b res b' \<and>
    (w' = w \<or> w' = snd (write_fn W (data_slice b) w) \<or>
     w' = snd (flush_fn W (snd (write_fn W (data_slice b) w))))"
proof -
  from write_to_total [OF assms, of w] obtain cr ch b' w' where
    r: "write_to W b w = Some ((cr, ch), b', w')" "buf_inv b'" "drain_spec W b w (cr, ch) b' w'"
    by auto
  obtain wres w1 fr w2 where io: "write_fn W (data_slice b) w = (wres, w1)" "flush_fn W w1 = (fr, w2)"
    by fastforce
  have ch: "ch \<noteq> BecameNonEmpty"
    using r(3) by (cases wres; cases fr) (simp_all add: drain_spec_def io split: if_splits)
  have "case copy_outcome (cr, ch) of
      Ok (close, ch) \<Rightarrow> (contents b' \<noteq> [] \<longleftrightarrow> track_change ch (contents b \<noteq> [])) \<and> ch \<noteq> BecameNonEmpty
    | Err e \<Rightarrow> \<not> is_nonfatal_io_error (kind e)"
    using ch drain_spec_bytes(2) [OF assms(1) r(3)] by (cases cr) (simp_all add: copy_outcome_def)
  then have "drained b (copy_outcome (cr, ch)) b'"
    unfolding drained_def using r(2) drain_spec_bytes(1) [OF assms(1) r(3)] by blast
  moreover have "w' = w \<or> w' = w1 \<or> w' = w2"
    using r(3) by (cases wres; cases fr) (auto simp: drain_spec_def io split: if_splits)
  ultimately show ?thesis
    using r(1) io by (auto simp: buffer_to_channel_def)
qed

lemma channel_to_buffer_fd:
  assumes "platform_laws P opened" and "buf_inv b"
  shows "\<exists>res b' w'. channel_to_buffer (sys_read P fd) b w = Some (res, b', w') \<and> filled b res b' \<and>
    io_on P {fd} w w'"
proof -
  have "io_on P {fd} w (snd (sys_read P fd s w))" for s
    by (simp add: io_on.intros)
  then show ?thesis
    using channel_to_buffer_total [OF assms(2) platform_lawsD(2) [OF assms(1)], of fd w] by metis
qed

lemma buffer_to_channel_fd:
  assumes "platform_laws P opened" and "buf_inv b"
  shows "\<exists>res b' w'. buffer_to_channel b (fd_writer P fd) w = Some (res, b', w') \<and> drained b res b' \<and>
    io_on P {fd} w w'"
proof -
  have "io_on P {fd} w w" "io_on P {fd} w (snd (sys_write P fd s w))"
    "io_on P {fd} w (snd (sys_flush P fd (snd (sys_write P fd s w))))" for s
    by (simp_all add: io_on.intros)
  then show ?thesis
    using buffer_to_channel_total [OF assms(2) platform_lawsD(3) [OF assms(1)], of fd w]
    by (auto simp: fd_writer_def)
qed

end
