(* ===== verification/Pty_File.thy ===== *)
theory Pty_File
  imports Channel_Manager
begin

text \<open>
  \<^verbatim>\<open>PtyFile\<close> of \<^verbatim>\<open>src/src/pty.rs\<close>: the master end of a pseudo-terminal as a byte stream. It is
  the \<^verbatim>\<open>File\<close> it wraps, except that the error a Linux pty gives after the slave side hung up is
  turned into an end of file, so that ptys look like pipes to the rest of the program.
\<close>

section \<open>Operations\<close>

definition ignore_eio :: "'w platform \<Rightarrow> nat io_result \<Rightarrow> nat io_result" where
  "ignore_eio P r =
     (case r of
        Ok n \<Rightarrow> Ok n
      | Err err \<Rightarrow> if raw_os_error err = Some (EIO P) then Ok 0 else Err err)"

definition pty_read :: "'w platform \<Rightarrow> RawFd \<Rightarrow> 'w Read" where
  "pty_read P fd s w = (case sys_read P fd s w of ((r, s'), w') \<Rightarrow> ((ignore_eio P r, s'), w'))"

definition pty_writer :: "'w platform \<Rightarrow> RawFd \<Rightarrow> 'w Write" where
  "pty_writer P fd =
     \<lparr>write_fn = (\<lambda>s w. case sys_write P fd s w of (r, w') \<Rightarrow> (ignore_eio P r, w')),
      flush_fn = sys_flush P fd\<rparr>"

section \<open>Contracts\<close>

lemma ignore_eio_Ok: "ignore_eio P r = Ok n \<Longrightarrow> r = Ok n \<or> n = 0"
  by (auto simp: ignore_eio_def split: io_result.splits if_splits)

lemma pty_read_contract:
  assumes "read_contract (sys_read P fd)"
  shows "read_contract (pty_read P fd)"
  unfolding read_contract_def
proof (intro allI impI)
  fix s w res s' w'
  assume *: "pty_read P fd s w = ((res, s'), w')"
  obtain r where r: "sys_read P fd s w = ((r, s'), w')" and res: "res = ignore_eio P r"
    using * by (cases "sys_read P fd s w") (auto simp: pty_read_def split: prod.splits)
  show "length s' = length s \<and> (\<forall>n. res = Ok n \<longrightarrow> n \<le> length s)"
    using read_contractD [OF assms r] ignore_eio_Ok [of P r] res by auto
qed

lemma pty_writer_contract:
  assumes "write_contract (fd_writer P fd)"
  shows "write_contract (pty_writer P fd)"
  using assms ignore_eio_Ok
  by (fastforce simp: write_contract_def fd_writer_def pty_writer_def split: prod.splits)

lemma pty_to_buffer:
  assumes "platform_laws P opened" and "buf_inv b"
  shows "\<exists>res b' w'. channel_to_buffer (pty_read P fd) b w = Some (res, b', w') \<and> filled b res b' \<and>
    io_on P {fd} w w'"
proof -
  have "snd (pty_read P fd s w) = snd (sys_read P fd s w)" for s
    by (simp add: pty_read_def split: prod.split)
  then have "io_on P {fd} w (snd (pty_read P fd s w))" for s
    by (simp add: io_on.intros)
  then show ?thesis
    using channel_to_buffer_total [OF assms(2) pty_read_contract [OF platform_lawsD(2) [OF assms(1)]], of fd w]
    by metis
qed

lemma buffer_to_pty:
  assumes "platform_laws P opened" and "buf_inv b"
  shows "\<exists>res b' w'. buffer_to_channel b (pty_writer P fd) w = Some (res, b', w') \<and> drained b res b' \<and>
    io_on P {fd} w w'"
proof -
  have "snd (write_fn (pty_writer P fd) s w) = snd (sys_write P fd s w)" for s
    by (simp add: pty_writer_def split: prod.split)
  then have "io_on P {fd} w w" "io_on P {fd} w (snd (write_fn (pty_writer P fd) s w))"
    "io_on P {fd} w (snd (flush_fn (pty_writer P fd) (snd (write_fn (pty_writer P fd) s w))))" for s
    by (simp_all add: io_on.intros pty_writer_def)
  then show ?thesis
    using buffer_to_channel_total [OF assms(2) pty_writer_contract [OF platform_lawsD(3) [OF assms(1)]], of fd w]
    by metis
qed

end
