(* ===== verification/Child_Stdio.thy ===== *)
theory Child_Stdio
  imports Pty_File
begin

text \<open>
  The first half of \<^verbatim>\<open>src/src/io.rs\<close>: the \<^verbatim>\<open>ChildStdio\<close> trait as a record of operations, its two
  implementations (\<^verbatim>\<open>ChildPipes\<close> and \<^verbatim>\<open>ChildPty\<close>), and the contract the channel manager relies
  on, as a locale interpreted by both.
\<close>

section \<open>The trait\<close>

type_synonym ('c, 'w) copy_op =
  "'c \<Rightarrow> FlipBuffer \<Rightarrow> 'w \<Rightarrow> (copy_outcome \<times> FlipBuffer \<times> 'w) option"

record ('c, 'w) ChildStdio =
  cs_initialize :: "'c \<Rightarrow> PolledFdSet \<Rightarrow> PolledFdSet option"
  stdin_fd :: "'c \<Rightarrow> RawFd option"
  stdout_fd :: "'c \<Rightarrow> RawFd option"
  stderr_fd :: "'c \<Rightarrow> RawFd option"
  write_stdin :: "('c, 'w) copy_op"
  read_stdout :: "('c, 'w) copy_op"
  read_stderr :: "('c, 'w) copy_op"
  cs_hangup :: "RawFd \<Rightarrow> 'c \<Rightarrow> PolledFdSet \<Rightarrow> 'w \<Rightarrow> ('c \<times> PolledFdSet \<times> 'w) option"

section \<open>ChildPipes\<close>

record ChildPipes =
  pipe_stdin :: "RawFd option"
  pipe_stdout :: "RawFd option"
  pipe_stderr :: "RawFd option"

definition pipes_new :: "RawFd \<Rightarrow> RawFd \<Rightarrow> RawFd \<Rightarrow> ChildPipes" where
  "pipes_new i out err = \<lparr>pipe_stdin = Some i, pipe_stdout = Some out, pipe_stderr = Some err\<rparr>"

definition pipes_initialize :: "'w platform \<Rightarrow> ChildPipes \<Rightarrow> PolledFdSet \<Rightarrow> PolledFdSet option" where
  "pipes_initialize P c fd_set = do {
     i \<leftarrow> pipe_stdin c;
     fd_set \<leftarrow> register i (ev_empty (plat_events P)) fd_set;
     out \<leftarrow> pipe_stdout c;
     fd_set \<leftarrow> register out (EPOLLIN (plat_events P)) fd_set;
     err \<leftarrow> pipe_stderr c;
     register err (EPOLLIN (plat_events P)) fd_set
   }"

text \<open>Setting a field to \<^verbatim>\<open>None\<close> drops the handle, which closes its descriptor.\<close>

definition pipes_hangup ::
  "'w platform \<Rightarrow> RawFd \<Rightarrow> ChildPipes \<Rightarrow> PolledFdSet \<Rightarrow> 'w \<Rightarrow> (ChildPipes \<times> PolledFdSet \<times> 'w) option" where
  "pipes_hangup P fd c fd_set w =
     (if pipe_stdin c = Some fd then do {
        fd_set \<leftarrow> unregister_closed fd fd_set;
        Some (c\<lparr>pipe_stdin := None\<rparr>, fd_set, sys_close P fd w)
      } else if pipe_stdout c = Some fd then do {
        fd_set \<leftarrow> unregister_closed fd fd_set;
        Some (c\<lparr>pipe_stdout := None\<rparr>, fd_set, sys_close P fd w)
      } else if pipe_stderr c = Some fd then do {
        fd_set \<leftarrow> unregister_closed fd fd_set;
        Some (c\<lparr>pipe_stderr := None\<rparr>, fd_set, sys_close P fd w)
      } else Some (c, fd_set, w))"

definition pipes_write_stdin :: "'w platform \<Rightarrow> (ChildPipes, 'w) copy_op" where
  "pipes_write_stdin P c buffer w =
     (case pipe_stdin c of
        Some fd \<Rightarrow> buffer_to_channel buffer (fd_writer P fd) w
      | None \<Rightarrow> Some (Ok (False, NoChange), buffer, w))"

definition pipes_read_stdout :: "'w platform \<Rightarrow> (ChildPipes, 'w) copy_op" where
  "pipes_read_stdout P c buffer w =
     (case pipe_stdout c of
        Some fd \<Rightarrow> channel_to_buffer (sys_read P fd) buffer w
      | None \<Rightarrow> Some (Ok (False, NoChange), buffer, w))"

text \<open>The source matches on \<^verbatim>\<open>self.stdout\<close> here as well.\<close>

definition pipes_read_stderr :: "'w platform \<Rightarrow> (ChildPipes, 'w) copy_op" where
  "pipes_read_stderr P c buffer w =
     (case pipe_stdout c of
        Some fd \<Rightarrow> channel_to_buffer (sys_read P fd) buffer w
      | None \<Rightarrow> Some (Ok (False, NoChange), buffer, w))"

definition pipes_stdio :: "'w platform \<Rightarrow> (ChildPipes, 'w) ChildStdio" where
  "pipes_stdio P =
     \<lparr>cs_initialize = pipes_initialize P, stdin_fd = pipe_stdin, stdout_fd = pipe_stdout,
      stderr_fd = pipe_stderr, write_stdin = pipes_write_stdin P, read_stdout = pipes_read_stdout P,
      read_stderr = pipes_read_stderr P, cs_hangup = pipes_hangup P\<rparr>"

section \<open>ChildPty\<close>

record ChildPty =
  pty :: "RawFd option"

definition child_pty_new :: "RawFd \<Rightarrow> ChildPty" where
  "child_pty_new p = \<lparr>pty = Some p\<rparr>"

definition pty_initialize :: "'w platform \<Rightarrow> ChildPty \<Rightarrow> PolledFdSet \<Rightarrow> PolledFdSet option" where
  "pty_initialize P c fd_set = do {
     p \<leftarrow> pty c;
     register p (EPOLLIN (plat_events P)) fd_set
   }"

definition pty_stderr_fd :: "ChildPty \<Rightarrow> RawFd option" where
  "pty_stderr_fd c = None"

definition pty_hangup ::
  "'w platform \<Rightarrow> RawFd \<Rightarrow> ChildPty \<Rightarrow> PolledFdSet \<Rightarrow> 'w \<Rightarrow> (ChildPty \<times> PolledFdSet \<times> 'w) option" where
  "pty_hangup P fd c fd_set w =
     (if pty c = Some fd then do {
        p \<leftarrow> pty c;
        fd_set \<leftarrow> unregister_closed p fd_set;
        Some (c\<lparr>pty := None\<rparr>, fd_set, sys_close P p w)
      } else Some (c, fd_set, w))"

definition pty_write_stdin :: "'w platform \<Rightarrow> (ChildPty, 'w) copy_op" where
  "pty_write_stdin P c buffer w =
     (case pty c of
        Some p \<Rightarrow> buffer_to_channel buffer (pty_writer P p) w
      | None \<Rightarrow> Some (Ok (False, NoChange), buffer, w))"

definition pty_read_stdout :: "'w platform \<Rightarrow> (ChildPty, 'w) copy_op" where
  "pty_read_stdout P c buffer w =
     (case pty c of
        Some p \<Rightarrow> channel_to_buffer (pty_read P p) buffer w
      | None \<Rightarrow> Some (Ok (False, NoChange), buffer, w))"

text \<open>\<^verbatim>\<open>read_stderr\<close> of a pty is an unconditional panic.\<close>

definition pty_read_stderr :: "(ChildPty, 'w) copy_op" where
  "pty_read_stderr c buffer w = None"

definition pty_stdio :: "'w platform \<Rightarrow> (ChildPty, 'w) ChildStdio" where
  "pty_stdio P =
     \<lparr>cs_initialize = pty_initialize P, stdin_fd = pty, stdout_fd = pty, stderr_fd = pty_stderr_fd,
      write_stdin = pty_write_stdin P, read_stdout = pty_read_stdout P, read_stderr = pty_read_stderr,
      cs_hangup = pty_hangup P\<rparr>"

section \<open>The contract of the trait\<close>

definition child_fds :: "('c, 'w) ChildStdio \<Rightarrow> 'c \<Rightarrow> RawFd set" where
  "child_fds C c = set_option (stdin_fd C c) \<union> set_option (stdout_fd C c) \<union> set_option (stderr_fd C c)"

definition close_role :: "RawFd \<Rightarrow> RawFd option \<Rightarrow> RawFd option" where
  "close_role fd r = (if r = Some fd then None else r)"

lemma set_close_role [simp]: "set_option (close_role fd r) = set_option r - {fd}"
  by (auto simp: close_role_def)

text \<open>
  \<open>C\<close> is an implementation of the trait, \<open>cinv\<close> its invariant and \<open>started\<close> its state before
  anything was closed. Copies go through the role's own descriptor and respect the buffer;
  \<open>cs_hangup\<close> of one of the child's descriptors closes it in every role, withdraws it from the
  descriptor set and touches nothing else.
\<close>

locale child_stdio =
  fixes C :: "'w platform \<Rightarrow> ('c, 'w) ChildStdio"
    and cinv :: "'c \<Rightarrow> bool"
    and started :: "'c \<Rightarrow> bool"
  assumes write_stdin_law: "platform_laws P opened \<Longrightarrow> buf_inv b \<Longrightarrow> stdin_fd (C P) c = Some fd \<Longrightarrow>
      \<exists>res b' w'. write_stdin (C P) c b w = Some (res, b', w') \<and> drained b res b' \<and> io_on P {fd} w w'"
    and read_stdout_law: "platform_laws P opened \<Longrightarrow> buf_inv b \<Longrightarrow> stdout_fd (C P) c = Some fd \<Longrightarrow>
      \<exists>res b' w'. read_stdout (C P) c b w = Some (res, b', w') \<and> filled b res b' \<and> io_on P {fd} w w'"
    and read_stderr_law: "platform_laws P opened \<Longrightarrow> buf_inv b \<Longrightarrow> stderr_fd (C P) c = Some fd \<Longrightarrow>
      \<exists>res b' w'. read_stderr (C P) c b w = Some (res, b', w') \<and> filled b res b' \<and>
        io_on P (child_fds (C P) c) w w'"
    and hangup_law: "cinv c \<Longrightarrow> reg_inv s \<Longrightarrow> fd \<in> child_fds (C P) c \<Longrightarrow> fd \<in> processed s \<Longrightarrow>
      \<exists>c' s'. cs_hangup (C P) fd c s w = Some (c', s', sys_close P fd w) \<and>
        unregister_closed fd s = Some s' \<and> cinv c' \<and>
        stdin_fd (C P) c' = close_role fd (stdin_fd (C P) c) \<and>
        stdout_fd (C P) c' = close_role fd (stdout_fd (C P) c) \<and>
        stderr_fd (C P) c' = close_role fd (stderr_fd (C P) c)"
    and hangup_panic: "fd \<in> child_fds (C P) c \<Longrightarrow> fd \<notin> processed s \<Longrightarrow> cs_hangup (C P) fd c s w = None"
    and initialize_law: "events_laws (plat_events P) \<Longrightarrow> cinv c \<Longrightarrow> started c \<Longrightarrow> reg_inv s \<Longrightarrow>
      child_fds (C P) c \<inter> dom (requested s) = {} \<Longrightarrow>
      \<exists>s'. cs_initialize (C P) c s = Some s' \<and> reg_inv s' \<and>
        dom (requested s') = dom (requested s) \<union> child_fds (C P) c \<and>
        (\<forall>fd. fd \<notin> child_fds (C P) c \<longrightarrow> requested s' fd = requested s fd) \<and>
        (\<forall>fd. stdout_fd (C P) c = Some fd \<or> stderr_fd (C P) c = Some fd \<longrightarrow>
           wants_read (plat_events P) (requested s') fd) \<and>
        processed s' = processed s \<and> applied s' = applied s \<and> gone s' = gone s"
begin

lemma hangup_child_fds:
  assumes "cinv c" and "reg_inv s" and "fd \<in> child_fds (C P) c" and "cs_hangup (C P) fd c s w = Some (c', s', w')"
  shows "cinv c' \<and> child_fds (C P) c' = child_fds (C P) c - {fd} \<and> w' = sys_close P fd w \<and>
    reg_inv s' \<and> requested s' = (requested s)(fd := None) \<and> processed s' = processed s - {fd} \<and>
    applied s' = (applied s)(fd := None) \<and> gone s' = gone s"
proof -
  have k: "fd \<in> processed s"
    using hangup_panic [OF assms(3), of s w] assms(4) by force
  from hangup_law [OF assms(1-3) k, of w] assms(4)
  have c': "cinv c'" "w' = sys_close P fd w" "unregister_closed fd s = Some s'"
      "stdin_fd (C P) c' = close_role fd (stdin_fd (C P) c)"
      "stdout_fd (C P) c' = close_role fd (stdout_fd (C P) c)"
      "stderr_fd (C P) c' = close_role fd (stderr_fd (C P) c)"
    by auto
  show ?thesis
    using c'(1,2) fdset.unreg_closed_SomeD [OF assms(2) c'(3)]
    by (auto simp: child_fds_def c'(4-6))
qed

end

section \<open>The implementations meet the contract\<close>

definition pipes_inv :: "ChildPipes \<Rightarrow> bool" where
  "pipes_inv c \<longleftrightarrow>
     (\<forall>fd. pipe_stdin c = Some fd \<longrightarrow> pipe_stdout c \<noteq> Some fd \<and> pipe_stderr c \<noteq> Some fd) \<and>
     (\<forall>fd. pipe_stdout c = Some fd \<longrightarrow> pipe_stderr c \<noteq> Some fd)"

definition pipes_started :: "ChildPipes \<Rightarrow> bool" where
  "pipes_started c \<longleftrightarrow> pipe_stdin c \<noteq> None \<and> pipe_stdout c \<noteq> None \<and> pipe_stderr c \<noteq> None"

definition pty_started :: "ChildPty \<Rightarrow> bool" where
  "pty_started c \<longleftrightarrow> pty c \<noteq> None"

lemmas pipes_ops = pipes_stdio_def pipes_write_stdin_def pipes_read_stdout_def pipes_read_stderr_def
lemmas pty_ops = pty_stdio_def pty_write_stdin_def pty_read_stdout_def pty_read_stderr_def pty_stderr_fd_def

lemma register_fresh:
  assumes "reg_inv s" and "fd \<notin> dom (requested s)"
  obtains s' where "register fd es s = Some s'" "reg_inv s'" "requested s' = (requested s)(fd \<mapsto> es)"
    "processed s' = processed s" "applied s' = applied s" "gone s' = gone s"
  using fdset.reg_ok [OF assms(1), of fd es] assms(2) by (auto simp: domIff)

lemma pipes_initialize_law:
  assumes E: "events_laws (plat_events P)" and inv: "pipes_inv c" "pipes_started c" "reg_inv s"
    and fresh: "child_fds (pipes_stdio P) c \<inter> dom (requested s) = {}"
  shows "\<exists>s'. pipes_initialize P c s = Some s' \<and> reg_inv s' \<and>
    dom (requested s') = dom (requested s) \<union> child_fds (pipes_stdio P) c \<and>
    (\<forall>fd. fd \<notin> child_fds (pipes_stdio P) c \<longrightarrow> requested s' fd = requested s fd) \<and>
    (\<forall>fd. pipe_stdout c = Some fd \<or> pipe_stderr c = Some fd \<longrightarrow>
       wants_read (plat_events P) (requested s') fd) \<and>
    processed s' = processed s \<and> applied s' = applied s \<and> gone s' = gone s"
proof -
  obtain i out err where c: "pipe_stdin c = Some i" "pipe_stdout c = Some out" "pipe_stderr c = Some err"
    using inv(2) by (auto simp: pipes_started_def)
  have d: "i \<noteq> out" "i \<noteq> err" "out \<noteq> err" and fds: "child_fds (pipes_stdio P) c = {i, out, err}"
    using inv(1) c by (auto simp: pipes_inv_def child_fds_def pipes_stdio_def)
  let ?E = "plat_events P"
  obtain s1 where s1: "register i (ev_empty ?E) s = Some s1" "reg_inv s1"
      "requested s1 = (requested s)(i \<mapsto> ev_empty ?E)" "processed s1 = processed s"
      "applied s1 = applied s" "gone s1 = gone s"
    using register_fresh [OF inv(3), of i] fresh fds by blast
  have "out \<notin> dom (requested s1)" using s1(3) d fresh fds by auto
  then obtain s2 where s2: "register out (EPOLLIN ?E) s1 = Some s2" "reg_inv s2"
      "requested s2 = (requested s1)(out \<mapsto> EPOLLIN ?E)" "processed s2 = processed s1"
      "applied s2 = applied s1" "gone s2 = gone s1"
    using register_fresh [OF s1(2), of out] by blast
  have "err \<notin> dom (requested s2)" using s2(3) s1(3) d fresh fds by auto
  then obtain s3 where s3: "register err (EPOLLIN ?E) s2 = Some s3" "reg_inv s3"
      "requested s3 = (requested s2)(err \<mapsto> EPOLLIN ?E)" "processed s3 = processed s2"
      "applied s3 = applied s2" "gone s3 = gone s2"
    using register_fresh [OF s2(2), of err] by blast
  have "ev_contains ?E (EPOLLIN ?E) (EPOLLIN ?E)"
    using events_lawsD [OF E] by simp
  then show ?thesis
    using s1 s2 s3 d c fds
    by (auto simp: pipes_initialize_def wants_read_def wants_def)
qed

interpretation pipes: child_stdio pipes_stdio pipes_inv pipes_started
proof (unfold_locales, goal_cases)
  case (1 P opened b c fd w)
  then show ?case using buffer_to_channel_fd [of P opened b fd w] by (simp add: pipes_ops)
next
  case (2 P opened b c fd w)
  then show ?case using channel_to_buffer_fd [of P opened b fd w] by (simp add: pipes_ops)
next
  case (3 P opened b c fd w)
  show ?case
  proof (cases "pipe_stdout c")
    case None
    then show ?thesis using 3 by (auto simp: pipes_ops filled_def intro: io_on.intros)
  next
    case (Some out)
    then have "{out} \<subseteq> child_fds (pipes_stdio P) c" by (simp add: child_fds_def pipes_stdio_def)
    then show ?thesis
      using Some channel_to_buffer_fd [OF 3(1,2), of out w] io_on_mono [of P "{out}" w]
      by (simp add: pipes_ops) blast
  qed
next
  case (4 c s fd P w)
  then obtain s' where "unregister_closed fd s = Some s'"
    using fdset.unreg_closed_ok [of s fd] by blast
  then show ?case
    using 4(1,3) by (auto simp: pipes_stdio_def pipes_hangup_def pipes_inv_def child_fds_def close_role_def)
next
  case (5 fd P c s w)
  then show ?case
    using fdset.unreg_closed_panic [of fd s]
    by (auto simp: pipes_stdio_def pipes_hangup_def child_fds_def)
next
  case (6 P c s)
  from pipes_initialize_law [OF this] show ?case by (simp add: pipes_stdio_def)
qed

interpretation ptys: child_stdio pty_stdio "\<lambda>_. True" pty_started
proof (unfold_locales, goal_cases)
  case (1 P opened b c fd w)
  then show ?case using buffer_to_pty [of P opened b fd w] by (simp add: pty_ops)
next
  case (2 P opened b c fd w)
  then show ?case using pty_to_buffer [of P opened b fd w] by (simp add: pty_ops)
next
  case (4 c s fd P w)
  then show ?case
    using fdset.unreg_closed_ok [of s fd]
    by (auto simp: pty_stdio_def pty_stderr_fd_def pty_hangup_def child_fds_def close_role_def)
next
  case (5 fd P c s w)
  then show ?case
    using fdset.unreg_closed_panic [of fd s]
    by (auto simp: pty_stdio_def pty_stderr_fd_def pty_hangup_def child_fds_def)
next
  case (6 P c s)
  then obtain p where p: "pty c = Some p" by (auto simp: pty_started_def)
  then have fds: "child_fds (pty_stdio P) c = {p}"
    by (simp add: child_fds_def pty_stdio_def pty_stderr_fd_def)
  then obtain s' where "register p (EPOLLIN (plat_events P)) s = Some s'" "reg_inv s'"
      "requested s' = (requested s)(p \<mapsto> EPOLLIN (plat_events P))" "processed s' = processed s"
      "applied s' = applied s" "gone s' = gone s"
    using 6 register_fresh [of s p] by blast
  then show ?case
    using p fds events_lawsD [OF 6(1)]
    by (auto simp: pty_stdio_def pty_stderr_fd_def pty_initialize_def wants_read_def wants_def)
qed (simp_all add: pty_stdio_def pty_stderr_fd_def)

end
