(* ===== verification/IOSock_Manager.thy ===== *)
theory IOSock_Manager
  imports Child_Stdio
begin

text \<open>
  The second half of \<^verbatim>\<open>src/src/io.rs\<close>: \<^verbatim>\<open>IOSockChannelManager\<close>, the component that owns the child's
  stdio, the console, the listening socket, the one client connection and the two buffers,
  and reacts to readiness events. One definition per method; the branches of the two long
  handlers are definitions of their own, composed as the source composes them.
\<close>

section \<open>State\<close>

datatype SocketAvailability = ReadOnly | WriteOnly | ReadWrite

record UnixClient =
  stream :: RawFd
  availability :: SocketAvailability

record 'c IOSockChannelManager =
  child :: 'c
  console :: "RawFd option"
  server_socket :: RawFd
  client_socket :: "UnixClient option"
  in_buffer :: FlipBuffer
  out_buffer :: FlipBuffer

type_synonym ('c, 'w) handler_result =
  "(unit io_result \<times> 'c IOSockChannelManager \<times> PolledFdSet \<times> 'w) option"

text \<open>\<open>stdout_raw_fd\<close> is \<^verbatim>\<open>stdout().as_raw_fd()\<close>.\<close>

definition stdout_raw_fd :: RawFd where
  "stdout_raw_fd = 1"

definition manager_new :: "'c \<Rightarrow> RawFd \<Rightarrow> 'c IOSockChannelManager" where
  "manager_new stdio server =
     \<lparr>child = stdio, console = Some stdout_raw_fd, server_socket = server, client_socket = None,
      in_buffer = new_buffer, out_buffer = new_buffer\<rparr>"

section \<open>Queries\<close>

definition client_socket_readable :: "'c IOSockChannelManager \<Rightarrow> bool" where
  "client_socket_readable m =
     (case client_socket m of Some c \<Rightarrow> availability c \<noteq> WriteOnly | None \<Rightarrow> False)"

definition client_socket_writable :: "'c IOSockChannelManager \<Rightarrow> bool" where
  "client_socket_writable m =
     (case client_socket m of Some c \<Rightarrow> availability c \<noteq> ReadOnly | None \<Rightarrow> False)"

text \<open>The guard \<^verbatim>\<open>Some(c) if c.stream.as_raw_fd() == fd\<close> that opens each handler.\<close>

definition client_stream :: "'c IOSockChannelManager \<Rightarrow> RawFd \<Rightarrow> UnixClient option" where
  "client_stream m fd =
     (case client_socket m of
        Some c \<Rightarrow> if stream c = fd then Some c else None
      | None \<Rightarrow> None)"

definition has_output_channel :: "'c IOSockChannelManager \<Rightarrow> bool" where
  "has_output_channel m \<longleftrightarrow> console m \<noteq> None \<or> client_socket_writable m"

definition request_primary_output_writable ::
  "events_api \<Rightarrow> 'c IOSockChannelManager \<Rightarrow> PolledFdSet \<Rightarrow> (bool \<times> PolledFdSet) option" where
  "request_primary_output_writable E m fd_set =
     (case (client_socket m, console m) of
        (Some client, _) \<Rightarrow> do {
          fd_set \<leftarrow> modify (stream client) (poll_for_write E True) fd_set;
          Some (True, fd_set)
        }
      | (None, Some out) \<Rightarrow> do {
          fd_set \<leftarrow> modify out (poll_for_write E True) fd_set;
          Some (True, fd_set)
        }
      | (None, None) \<Rightarrow> Some (False, fd_set))"

section \<open>initialize\<close>

definition initialize ::
  "'w platform \<Rightarrow> ('c, 'w) ChildStdio \<Rightarrow> 'c IOSockChannelManager \<Rightarrow> PolledFdSet \<Rightarrow> 'w \<Rightarrow>
     ('c IOSockChannelManager \<times> PolledFdSet \<times> 'w) option" where
  "initialize P C m fd_set w = do {
     fd_set \<leftarrow> cs_initialize C (child m) fd_set;
     fd_set \<leftarrow> register (server_socket m) (EPOLLIN (plat_events P)) fd_set;
     out \<leftarrow> console m;
     fd_set \<leftarrow> register out (ev_empty (plat_events P)) fd_set;
     Some (m, fd_set, w)
   }"

section \<open>on-hangup\<close>

text \<open>Clearing \<open>client_socket\<close> drops the \<^verbatim>\<open>UnixStream\<close> and so closes its descriptor; dropping the
  \<^verbatim>\<open>Stdout\<close> handle closes nothing.\<close>

definition hangup_client ::
  "'w platform \<Rightarrow> UnixClient \<Rightarrow> 'c IOSockChannelManager \<Rightarrow> PolledFdSet \<Rightarrow> 'w \<Rightarrow> ('c, 'w) handler_result" where
  "hangup_client P c m fd_set w = do {
     fd_set \<leftarrow> unregister_closed (stream c) fd_set;
     let m = m\<lparr>client_socket := None\<rparr>;
         w = sys_close P (stream c) w
     in do {
       pending \<leftarrow> writable_size (out_buffer m);
       fd_set \<leftarrow> (case console m of
                    Some out \<Rightarrow> if pending > 0
                                then modify out (poll_for_write (plat_events P) True) fd_set
                                else Some fd_set
                  | None \<Rightarrow> Some fd_set);
       Some (Ok (), m, fd_set, w)
     }
   }"

definition hangup_other ::
  "('c, 'w) ChildStdio \<Rightarrow> RawFd \<Rightarrow> 'c IOSockChannelManager \<Rightarrow> PolledFdSet \<Rightarrow> 'w \<Rightarrow> ('c, 'w) handler_result" where
  "hangup_other C fd m fd_set w =
     (if stdin_fd C (child m) = Some fd \<or> stdout_fd C (child m) = Some fd \<or> stderr_fd C (child m) = Some fd
      then do {
        (c, fd_set, w) \<leftarrow> cs_hangup C fd (child m) fd_set w;
        Some (Ok (), m\<lparr>child := c\<rparr>, fd_set, w)
      }
      else (case console m of
              Some c \<Rightarrow>
                if c = fd then do {
                  fd_set \<leftarrow> unregister c fd_set;
                  Some (Ok (), m\<lparr>console := None\<rparr>, fd_set, w)
                }
                else Some (Ok (), m, fd_set, w)
            | None \<Rightarrow> Some (Ok (), m, fd_set, w)))"

definition on_hangup ::
  "'w platform \<Rightarrow> ('c, 'w) ChildStdio \<Rightarrow> RawFd \<Rightarrow> 'c IOSockChannelManager \<Rightarrow> PolledFdSet \<Rightarrow> 'w \<Rightarrow>
     ('c, 'w) handler_result" where
  "on_hangup P C fd m fd_set w =
     (case client_stream m fd of
        Some c \<Rightarrow> hangup_client P c m fd_set w
      | None \<Rightarrow> hangup_other C fd m fd_set w)"

section \<open>on-readable\<close>

text \<open>A connection that arrives while a client is connected is accepted and dropped, which closes it.\<close>

definition accept_client ::
  "'w platform \<Rightarrow> 'c IOSockChannelManager \<Rightarrow> PolledFdSet \<Rightarrow> 'w \<Rightarrow> ('c, 'w) handler_result" where
  "accept_client P m fd_set w =
     (case sys_accept P (server_socket m) w of
        (Err e, w) \<Rightarrow> Some (Err e, m, fd_set, w)
      | (Ok new_stream, w) \<Rightarrow>
          (if client_socket m = None then do {
             pending \<leftarrow> writable_size (out_buffer m);
             fd_set \<leftarrow> register new_stream
               (ev_set (plat_events P) (EPOLLIN (plat_events P)) (EPOLLOUT (plat_events P)) (pending > 0)) fd_set;
             let m = m\<lparr>client_socket := Some \<lparr>stream = new_stream, availability = ReadWrite\<rparr>\<rparr>
             in do {
               fd_set \<leftarrow> (case console m of
                            Some f \<Rightarrow> modify f (poll_for_write (plat_events P) False) fd_set
                          | None \<Rightarrow> Some fd_set);
               Some (Ok (), m, fd_set, w)
             }
           }
           else Some (Ok (), m, fd_set, sys_close P new_stream w)))"

definition discard_output :: "'c IOSockChannelManager \<Rightarrow> 'c IOSockChannelManager" where
  "discard_output m = m\<lparr>out_buffer := snd (discard (out_buffer m))\<rparr>"

text \<open>Data from the client. The last step of the source discards \<^verbatim>\<open>out_buffer\<close>, also when the child
  has no stdin to take what is in \<^verbatim>\<open>in_buffer\<close>.\<close>

definition read_client ::
  "'w platform \<Rightarrow> ('c, 'w) ChildStdio \<Rightarrow> RawFd \<Rightarrow> UnixClient \<Rightarrow> 'c IOSockChannelManager \<Rightarrow> PolledFdSet \<Rightarrow> 'w \<Rightarrow>
     ('c, 'w) handler_result" where
  "read_client P C fd c m fd_set w =
     (if \<not> client_socket_readable m then None
      else do {
        (res, b, w) \<leftarrow> channel_to_buffer (sys_read P (stream c)) (in_buffer m) w;
        let m = m\<lparr>in_buffer := b\<rparr>
        in (case res of
              Err e \<Rightarrow> Some (Err e, m, fd_set, w)
            | Ok (should_close, buffer_state) \<Rightarrow>
                (if should_close then
                   (if availability c = ReadOnly then on_hangup P C fd m fd_set w
                    else do {
                      fd_set \<leftarrow> modify fd (poll_for_read (plat_events P) False) fd_set;
                      Some (Ok (), m\<lparr>client_socket := Some (c\<lparr>availability := WriteOnly\<rparr>)\<rparr>, fd_set, w)
                    })
                 else if buffer_state = BecameNonEmpty then
                   (case stdin_fd C (child m) of
                      Some i \<Rightarrow> do {
                        fd_set \<leftarrow> modify i (poll_for_write (plat_events P) True) fd_set;
                        Some (Ok (), m, fd_set, w)
                      }
                    | None \<Rightarrow> Some (Ok (), discard_output m, fd_set, w))
                 else Some (Ok (), if stdin_fd C (child m) = None then discard_output m else m, fd_set, w)))
      })"

text \<open>Output of the child, the same code for its stdout and its stderr.\<close>

definition read_child ::
  "'w platform \<Rightarrow> ('c, 'w) ChildStdio \<Rightarrow> ('c, 'w) copy_op \<Rightarrow> RawFd \<Rightarrow> 'c IOSockChannelManager \<Rightarrow> PolledFdSet \<Rightarrow> 'w \<Rightarrow>
     ('c, 'w) handler_result" where
  "read_child P C copy fd m fd_set w = do {
     (res, b, w) \<leftarrow> copy (child m) (out_buffer m) w;
     let m = m\<lparr>out_buffer := b\<rparr>
     in (case res of
           Err e \<Rightarrow> Some (Err e, m, fd_set, w)
         | Ok (should_close, buffer_state) \<Rightarrow>
             (if should_close then on_hangup P C fd m fd_set w
              else if buffer_state = BecameNonEmpty then do {
                (requested_writable, fd_set) \<leftarrow> request_primary_output_writable (plat_events P) m fd_set;
                Some (Ok (), if \<not> requested_writable then discard_output m else m, fd_set, w)
              }
              else Some (Ok (), if \<not> has_output_channel m then discard_output m else m, fd_set, w)))
   }"

definition on_readable ::
  "'w platform \<Rightarrow> ('c, 'w) ChildStdio \<Rightarrow> RawFd \<Rightarrow> 'c IOSockChannelManager \<Rightarrow> PolledFdSet \<Rightarrow> 'w \<Rightarrow>
     ('c, 'w) handler_result" where
  "on_readable P C fd m fd_set w =
     (if fd = server_socket m then accept_client P m fd_set w
      else case client_stream m fd of
        Some c \<Rightarrow> read_client P C fd c m fd_set w
      | None \<Rightarrow>
          (if stdout_fd C (child m) = Some fd then read_child P C (read_stdout C) fd m fd_set w
           else if stderr_fd C (child m) = Some fd then read_child P C (read_stderr C) fd m fd_set w
           else Some (Ok (), m, fd_set, w)))"

section \<open>on-writable\<close>

text \<open>Output to the client. When the peer no longer reads, the source clears the \<^emph>\<open>read\<close> polling flag.\<close>

definition write_client ::
  "'w platform \<Rightarrow> ('c, 'w) ChildStdio \<Rightarrow> RawFd \<Rightarrow> UnixClient \<Rightarrow> 'c IOSockChannelManager \<Rightarrow> PolledFdSet \<Rightarrow> 'w \<Rightarrow>
     ('c, 'w) handler_result" where
  "write_client P C fd c m fd_set w =
     (if \<not> client_socket_writable m then None
      else do {
        (res, b, w) \<leftarrow> buffer_to_channel (out_buffer m) (fd_writer P (stream c)) w;
        let m = m\<lparr>out_buffer := b\<rparr>
        in (case res of
              Err e \<Rightarrow> Some (Err e, m, fd_set, w)
            | Ok (should_close, buffer_state) \<Rightarrow>
                (if should_close then
                   (if availability c = WriteOnly then on_hangup P C fd m fd_set w
                    else do {
                      fd_set \<leftarrow> modify fd (poll_for_read (plat_events P) False) fd_set;
                      Some (Ok (), m\<lparr>client_socket := Some (c\<lparr>availability := ReadOnly\<rparr>)\<rparr>, fd_set, w)
                    })
                 else if buffer_state = BecameEmpty then do {
                   fd_set \<leftarrow> modify (stream c) (poll_for_write (plat_events P) False) fd_set;
                   Some (Ok (), m, fd_set, w)
                 }
                 else Some (Ok (), m, fd_set, w)))
      })"

definition write_console ::
  "'w platform \<Rightarrow> ('c, 'w) ChildStdio \<Rightarrow> RawFd \<Rightarrow> 'c IOSockChannelManager \<Rightarrow> PolledFdSet \<Rightarrow> 'w \<Rightarrow>
     ('c, 'w) handler_result" where
  "write_console P C fd m fd_set w = do {
     (res, b, w) \<leftarrow> buffer_to_channel (out_buffer m) (fd_writer P fd) w;
     let m = m\<lparr>out_buffer := b\<rparr>
     in (case res of
           Err e \<Rightarrow> Some (Err e, m, fd_set, w)
         | Ok (should_close, buffer_state) \<Rightarrow>
             (if should_close then on_hangup P C fd m fd_set w
              else if buffer_state = BecameEmpty then do {
                fd_set \<leftarrow> modify fd (poll_for_write (plat_events P) False) fd_set;
                Some (Ok (), m, fd_set, w)
              }
              else Some (Ok (), m, fd_set, w)))
   }"

definition write_child ::
  "'w platform \<Rightarrow> ('c, 'w) ChildStdio \<Rightarrow> RawFd \<Rightarrow> 'c IOSockChannelManager \<Rightarrow> PolledFdSet \<Rightarrow> 'w \<Rightarrow>
     ('c, 'w) handler_result" where
  "write_child P C fd m fd_set w = do {
     (res, b, w) \<leftarrow> write_stdin C (child m) (in_buffer m) w;
     let client_readable = client_socket_readable m;
         m = m\<lparr>in_buffer := b\<rparr>
     in (case res of
           Err e \<Rightarrow> Some (Err e, m, fd_set, w)
         | Ok (should_close, buffer_state) \<Rightarrow>
             (if should_close then on_hangup P C fd m fd_set w
              else if buffer_state = BecameEmpty \<and> client_readable then do {
                fd_set \<leftarrow> modify fd (poll_for_write (plat_events P) False) fd_set;
                Some (Ok (), m, fd_set, w)
              }
              else Some (Ok (), m, fd_set, w)))
   }"

definition on_writable ::
  "'w platform \<Rightarrow> ('c, 'w) ChildStdio \<Rightarrow> RawFd \<Rightarrow> 'c IOSockChannelManager \<Rightarrow> PolledFdSet \<Rightarrow> 'w \<Rightarrow>
     ('c, 'w) handler_result" where
  "on_writable P C fd m fd_set w =
     (case client_stream m fd of
        Some c \<Rightarrow> write_client P C fd c m fd_set w
      | None \<Rightarrow>
          (if console m = Some fd then write_console P C fd m fd_set w
           else if stdin_fd C (child m) = Some fd then write_child P C fd m fd_set w
           else Some (Ok (), m, fd_set, w)))"

definition iosock_manager ::
  "'w platform \<Rightarrow> ('c, 'w) ChildStdio \<Rightarrow> ('c IOSockChannelManager, 'w) ChannelManager" where
  "iosock_manager P C =
     \<lparr>cm_initialize = initialize P C, cm_on_readable = on_readable P C, cm_on_writable = on_writable P C,
      cm_on_hangup = on_hangup P C\<rparr>"

end
