(* ===== verification/Manager_Invariant.thy ===== *)
theory Manager_Invariant
  imports IOSock_Manager
begin

text \<open>
  The invariant of \<^verbatim>\<open>IOSockChannelManager\<close> (\<^verbatim>\<open>src/src/io.rs\<close>) together with its descriptor set
  and the kernel, and the proof that every handler preserves it, for any implementation of
  \<^verbatim>\<open>ChildStdio\<close> that meets the \<open>child_stdio\<close> contract. The parts:
  \<^item> \<open>roles_distinct\<close>: the server socket, the console, the client and the child's streams are
    different descriptors;
  \<^item> \<open>registry_ok\<close>: exactly the descriptors in a role are registered, and all but a freshly accepted
    client are known to epoll, under their own tag;
  \<^item> \<open>kernel_ok\<close>: they are open, and the kernel's interest list is what was last applied;
  \<^item> \<open>wakeup_ok\<close>: no byte can be forgotten, because a stream with bytes waiting for it is polled
    for writability, and every stream that may still deliver bytes is polled for readability.
\<close>

section \<open>The invariant\<close>

definition fixed_fds :: "('c, 'w) ChildStdio \<Rightarrow> 'c IOSockChannelManager \<Rightarrow> RawFd set" where
  "fixed_fds C m = insert (server_socket m) (set_option (console m) \<union> child_fds C (child m))"

definition client_fds :: "'c IOSockChannelManager \<Rightarrow> RawFd set" where
  "client_fds m = stream ` set_option (client_socket m)"

definition role_fds :: "('c, 'w) ChildStdio \<Rightarrow> 'c IOSockChannelManager \<Rightarrow> RawFd set" where
  "role_fds C m = fixed_fds C m \<union> client_fds m"

definition roles_distinct :: "('c, 'w) ChildStdio \<Rightarrow> 'c IOSockChannelManager \<Rightarrow> bool" where
  "roles_distinct C m \<longleftrightarrow>
     server_socket m \<notin> set_option (console m) \<union> child_fds C (child m) \<and>
     set_option (console m) \<inter> child_fds C (child m) = {} \<and> client_fds m \<inter> fixed_fds C m = {}"

definition registry_ok :: "('c, 'w) ChildStdio \<Rightarrow> 'c IOSockChannelManager \<Rightarrow> PolledFdSet \<Rightarrow> bool" where
  "registry_ok C m s \<longleftrightarrow>
     reg_inv s \<and> dom (requested s) = role_fds C m \<and> fixed_fds C m \<subseteq> processed s \<and> gone s \<inter> role_fds C m = {} \<and>
     (\<forall>fd ev. applied s fd = Some ev \<longrightarrow> event_data ev = fd_data fd)"

definition kernel_ok ::
  "'w kernel_view \<Rightarrow> ('c, 'w) ChildStdio \<Rightarrow> 'c IOSockChannelManager \<Rightarrow> PolledFdSet \<Rightarrow> 'w \<Rightarrow> bool" where
  "kernel_ok K C m s w \<longleftrightarrow>
     role_fds C m \<union> gone s \<union> dom (kv_foreign K) \<subseteq> kv_opened K w \<and>
     dom (kv_foreign K) \<inter> (role_fds C m \<union> gone s) = {} \<and>
     (\<forall>fd. fd \<notin> gone s \<longrightarrow> kv_interest K w fd = (applied s ++ kv_foreign K) fd)"

text \<open>The channel the child's output goes to: the client, else the console.\<close>

definition primary_output :: "'c IOSockChannelManager \<Rightarrow> RawFd option" where
  "primary_output m =
     (case client_socket m of Some c \<Rightarrow> Some (stream c) | None \<Rightarrow> console m)"

definition output_wakeup :: "events_api \<Rightarrow> 'c IOSockChannelManager \<Rightarrow> PolledFdSet \<Rightarrow> bool" where
  "output_wakeup E m s \<longleftrightarrow> contents (out_buffer m) \<noteq> [] \<longrightarrow>
     (\<forall>fd. primary_output m = Some fd \<longrightarrow> wants_write E (requested s) fd)"

definition input_wakeup ::
  "events_api \<Rightarrow> ('c, 'w) ChildStdio \<Rightarrow> 'c IOSockChannelManager \<Rightarrow> PolledFdSet \<Rightarrow> bool" where
  "input_wakeup E C m s \<longleftrightarrow> contents (in_buffer m) \<noteq> [] \<longrightarrow>
     (\<forall>fd. stdin_fd C (child m) = Some fd \<longrightarrow> wants_write E (requested s) fd)"

definition sources_polled ::
  "events_api \<Rightarrow> ('c, 'w) ChildStdio \<Rightarrow> 'c IOSockChannelManager \<Rightarrow> PolledFdSet \<Rightarrow> bool" where
  "sources_polled E C m s \<longleftrightarrow>
     wants_read E (requested s) (server_socket m) \<and>
     (\<forall>fd. stdout_fd C (child m) = Some fd \<or> stderr_fd C (child m) = Some fd \<longrightarrow> wants_read E (requested s) fd) \<and>
     (\<forall>c. client_socket m = Some c \<longrightarrow> (wants_read E (requested s) (stream c) \<longleftrightarrow> availability c = ReadWrite))"

definition wakeup_ok ::
  "events_api \<Rightarrow> ('c, 'w) ChildStdio \<Rightarrow> 'c IOSockChannelManager \<Rightarrow> PolledFdSet \<Rightarrow> bool" where
  "wakeup_ok E C m s \<longleftrightarrow> output_wakeup E m s \<and> input_wakeup E C m s \<and> sources_polled E C m s"

definition mgr_core ::
  "'w kernel_view \<Rightarrow> ('c \<Rightarrow> bool) \<Rightarrow> ('c, 'w) ChildStdio \<Rightarrow> 'c IOSockChannelManager \<Rightarrow> PolledFdSet \<Rightarrow> 'w \<Rightarrow> bool" where
  "mgr_core K cinv C m s w \<longleftrightarrow>
     buf_inv (in_buffer m) \<and> buf_inv (out_buffer m) \<and> cinv (child m) \<and> roles_distinct C m \<and>
     registry_ok C m s \<and> kernel_ok K C m s w"

definition mgr_inv ::
  "'w platform \<Rightarrow> 'w kernel_view \<Rightarrow> ('c \<Rightarrow> bool) \<Rightarrow> ('c, 'w) ChildStdio \<Rightarrow> 'c IOSockChannelManager \<Rightarrow>
     PolledFdSet \<Rightarrow> 'w \<Rightarrow> bool" where
  "mgr_inv P K cinv C m s w \<longleftrightarrow> mgr_core K cinv C m s w \<and> wakeup_ok (plat_events P) C m s"

lemmas role_defs = role_fds_def fixed_fds_def client_fds_def
lemmas wakeup_defs = wakeup_ok_def output_wakeup_def input_wakeup_def sources_polled_def

section \<open>Steps that keep the structure\<close>

text \<open>A copy through descriptors that are open: only a buffer and the streams change.\<close>

definition same_roles :: "'c IOSockChannelManager \<Rightarrow> 'c IOSockChannelManager \<Rightarrow> bool" where
  "same_roles m m' \<longleftrightarrow> child m' = child m \<and> console m' = console m \<and> server_socket m' = server_socket m \<and>
     map_option stream (client_socket m') = map_option stream (client_socket m)"

lemma client_fds_alt: "client_fds m = set_option (map_option stream (client_socket m))"
  by (simp add: client_fds_def option.set_map)

lemma same_roles_fds:
  "same_roles m m' \<Longrightarrow> fixed_fds C m' = fixed_fds C m \<and> client_fds m' = client_fds m \<and> role_fds C m' = role_fds C m"
  by (simp add: same_roles_def role_defs(1,2) client_fds_alt)

lemma mgr_core_same_roles:
  assumes "mgr_core K cinv C m s w" and "same_roles m m'"
    and "buf_inv (in_buffer m')" "buf_inv (out_buffer m')"
    and "reg_inv s'" "dom (requested s') = dom (requested s)" "processed s' = processed s"
      "applied s' = applied s" "gone s' = gone s"
    and "kv_opened K w' = kv_opened K w" "kv_interest K w' = kv_interest K w"
  shows "mgr_core K cinv C m' s' w'"
  using assms same_roles_fds [OF assms(2), of C]
  by (simp add: mgr_core_def registry_ok_def kernel_ok_def roles_distinct_def same_roles_def)

text \<open>Closing a descriptor in a role.\<close>

lemma mgr_coreD:
  assumes "mgr_core K cinv C m s w"
  shows "buf_inv (in_buffer m)" "buf_inv (out_buffer m)" "cinv (child m)" "roles_distinct C m" "reg_inv s"
    "dom (requested s) = role_fds C m" "fixed_fds C m \<subseteq> processed s" "gone s \<inter> role_fds C m = {}"
    "role_fds C m \<subseteq> kv_opened K w" "gone s \<subseteq> kv_opened K w" "dom (kv_foreign K) \<subseteq> kv_opened K w"
    "dom (kv_foreign K) \<inter> role_fds C m = {}" "dom (kv_foreign K) \<inter> gone s = {}"
    "fd \<notin> gone s \<Longrightarrow> kv_interest K w fd = (applied s ++ kv_foreign K) fd"
    "applied s fd = Some ev \<Longrightarrow> event_data ev = fd_data fd"
  using assms by (simp_all add: mgr_core_def registry_ok_def kernel_ok_def Int_Un_distrib)

lemma mgr_coreI:
  assumes "buf_inv (in_buffer m)" "buf_inv (out_buffer m)" "cinv (child m)" "roles_distinct C m" "reg_inv s"
    "dom (requested s) = role_fds C m" "fixed_fds C m \<subseteq> processed s" "gone s \<inter> role_fds C m = {}"
    "role_fds C m \<subseteq> kv_opened K w" "gone s \<subseteq> kv_opened K w" "dom (kv_foreign K) \<subseteq> kv_opened K w"
    "dom (kv_foreign K) \<inter> role_fds C m = {}" "dom (kv_foreign K) \<inter> gone s = {}"
    "\<And>fd. fd \<notin> gone s \<Longrightarrow> kv_interest K w fd = (applied s ++ kv_foreign K) fd"
    "\<And>fd ev. applied s fd = Some ev \<Longrightarrow> event_data ev = fd_data fd"
  shows "mgr_core K cinv C m s w"
  using assms by (simp add: mgr_core_def registry_ok_def kernel_ok_def Int_Un_distrib)

lemma mgr_core_close:
  assumes laws: "kernel_laws P ep K" and core: "mgr_core K cinv C m s w"
    and fd: "fd \<in> role_fds C m" and u: "unregister_closed fd s = Some s'"
    and m': "fixed_fds C m' = fixed_fds C m - {fd}" "client_fds m' = client_fds m - {fd}"
      "in_buffer m' = in_buffer m" "out_buffer m' = out_buffer m" "cinv (child m')" "roles_distinct C m'"
  shows "mgr_core K cinv C m' s' (sys_close P fd w)"
proof (rule mgr_coreI)
  note c = mgr_coreD [OF core]
  note s' = fdset.unreg_closed_SomeD [OF c(5) u]
  have role': "role_fds C m' = role_fds C m - {fd}"
    using m'(1,2) by (auto simp: role_fds_def)
  have fdn: "fd \<notin> gone s" "kv_foreign K fd = None"
    using c(8,12) fd by blast+
  show "dom (requested s') = role_fds C m'" "reg_inv s'"
    using s' role' c(6) by simp_all
  show "fixed_fds C m' \<subseteq> processed s'"
    using Diff_mono [OF c(7) subset_refl, of "{fd}"] s' m'(1) by simp
  show "gone s' \<inter> role_fds C m' = {}" "dom (kv_foreign K) \<inter> role_fds C m' = {}"
    "dom (kv_foreign K) \<inter> gone s' = {}"
    using s' role' c(8,12,13) by auto
  show "role_fds C m' \<subseteq> kv_opened K (sys_close P fd w)" "gone s' \<subseteq> kv_opened K (sys_close P fd w)"
    "dom (kv_foreign K) \<subseteq> kv_opened K (sys_close P fd w)"
    using s' role' fdn c(9-11) by (auto simp: kernel_lawsD(6) [OF laws])
  show "kv_interest K (sys_close P fd w) x = (applied s' ++ kv_foreign K) x" if "x \<notin> gone s'" for x
    using that s' fdn c(14) [of x] by (simp add: kernel_lawsD(7) [OF laws] map_add_def split: option.splits)
  show "event_data ev = fd_data x" if "applied s' x = Some ev" for x ev
    using that s' c(15) [of x ev] by (simp split: if_splits)
qed (simp_all add: mgr_coreD(1,2) [OF core] m'(3-6))

text \<open>Giving up the console, which stays open.\<close>

lemma mgr_core_console:
  assumes core: "mgr_core K cinv C m s w" and con: "console m = Some fd" and u: "unregister fd s = Some s'"
  shows "mgr_core K cinv C (m\<lparr>console := None\<rparr>) s' w"
proof (rule mgr_coreI)
  note c = mgr_coreD [OF core]
  note s' = fdset.unreg_SomeD [OF c(5) u]
  let ?m = "m\<lparr>console := None\<rparr>"
  have fixed': "fixed_fds C ?m = fixed_fds C m - {fd}" and role': "role_fds C ?m = role_fds C m - {fd}"
    and fd: "fd \<in> role_fds C m"
    using c(4) con by (auto simp: roles_distinct_def role_defs)
  show "roles_distinct C ?m"
    using c(4) by (auto simp: roles_distinct_def role_defs)
  show "dom (requested s') = role_fds C ?m" "reg_inv s'"
    using s' role' c(6) by simp_all
  show "fixed_fds C ?m \<subseteq> processed s'"
    using Diff_mono [OF c(7) subset_refl, of "{fd}"] s' fixed' by simp
  show "gone s' \<inter> role_fds C ?m = {}" "dom (kv_foreign K) \<inter> role_fds C ?m = {}"
    "dom (kv_foreign K) \<inter> gone s' = {}" "role_fds C ?m \<subseteq> kv_opened K w" "gone s' \<subseteq> kv_opened K w"
    using s' role' fd c(8-10,12,13) by auto
  show "kv_interest K w x = (applied s' ++ kv_foreign K) x" if "x \<notin> gone s'" for x
    using that s' c(14) [of x] by (simp add: map_add_def split: option.splits)
  show "event_data ev = fd_data x" if "applied s' x = Some ev" for x ev
    using that s' c(15) [of x ev] by (simp split: if_splits)
qed (simp_all add: mgr_coreD(1-3,11) [OF core])

text \<open>A new client, and a connection that is refused because there is one.\<close>

lemma mgr_core_accept:
  assumes laws: "kernel_laws P ep K" and core: "mgr_core K cinv C m s w"
    and a: "sys_accept P fd w = (Ok c, w')" and no: "client_socket m = None" and r: "register c es s = Some s'"
  shows "mgr_core K cinv C (m\<lparr>client_socket := Some \<lparr>stream = c, availability = av\<rparr>\<rparr>) s' w'"
proof (rule mgr_coreI)
  let ?m = "m\<lparr>client_socket := Some \<lparr>stream = c, availability = av\<rparr>\<rparr>"
  note co = mgr_coreD [OF core]
  note s' = fdset.register_SomeD [OF co(5) r]
  note ac = platform_lawsD(4) [OF kernel_lawsD(1) [OF laws] a]
  have i: "kv_interest K w' = kv_interest K w"
    using kernel_lawsD(8) [OF laws, of fd w] a by simp
  have fixed': "fixed_fds C ?m = fixed_fds C m" and role': "role_fds C ?m = insert c (role_fds C m)"
    using no by (auto simp: role_defs)
  have fresh: "c \<notin> role_fds C m" "c \<notin> gone s" "c \<notin> dom (kv_foreign K)"
    using ac co(9-11) by blast+
  show "roles_distinct C ?m"
    using co(4) fresh(1) by (simp add: roles_distinct_def fixed' client_fds_def role_fds_def)
  show "dom (requested s') = role_fds C ?m" "fixed_fds C ?m \<subseteq> processed s'" "reg_inv s'"
    using s' role' fixed' co(6,7) by simp_all
  show "gone s' \<inter> role_fds C ?m = {}" "dom (kv_foreign K) \<inter> role_fds C ?m = {}"
    "dom (kv_foreign K) \<inter> gone s' = {}"
    using s' role' fresh co(8,12,13) by simp_all
  show "role_fds C ?m \<subseteq> kv_opened K w'" "gone s' \<subseteq> kv_opened K w'" "dom (kv_foreign K) \<subseteq> kv_opened K w'"
    using s' role' ac co(9-11) by auto
  show "kv_interest K w' x = (applied s' ++ kv_foreign K) x" if "x \<notin> gone s'" for x
    using that s' i co(14) [of x] by simp
  show "event_data ev = fd_data x" if "applied s' x = Some ev" for x ev
    using that s' co(15) [of x ev] by simp
qed (simp_all add: mgr_coreD(1-3,11) [OF core])

lemma mgr_core_refuse:
  assumes laws: "kernel_laws P ep K" and core: "mgr_core K cinv C m s w" and a: "sys_accept P fd w = (Ok c, w')"
  shows "kv_opened K (sys_close P c w') = kv_opened K w" "kv_interest K (sys_close P c w') = kv_interest K w"
proof -
  note co = mgr_coreD [OF core]
  note ac = platform_lawsD(4) [OF kernel_lawsD(1) [OF laws] a]
  show "kv_opened K (sys_close P c w') = kv_opened K w"
    using ac by (auto simp: kernel_lawsD(6) [OF laws])
  have "c \<notin> gone s" "kv_foreign K c = None" "c \<notin> processed s"
    using ac co(6,9-11) processed_requested [of s] by blast+
  then have "kv_interest K w c = None"
    using co(14) [of c] dom_applied [of s] by (auto simp: map_add_def)
  then show "kv_interest K (sys_close P c w') = kv_interest K w"
    using kernel_lawsD(8) [OF laws, of fd w] a by (simp add: kernel_lawsD(7) [OF laws] fun_upd_idem)
qed

section \<open>Steps of the handlers\<close>

lemma mgr_invD:
  assumes "mgr_inv P K cinv C m s w"
  shows "mgr_core K cinv C m s w" "output_wakeup (plat_events P) m s" "input_wakeup (plat_events P) C m s"
    "sources_polled (plat_events P) C m s"
  using assms by (simp_all add: mgr_inv_def wakeup_ok_def)

lemma primary_output_buffers [simp]:
  "primary_output (m\<lparr>out_buffer := b\<rparr>) = primary_output m" "primary_output (m\<lparr>in_buffer := b\<rparr>) = primary_output m"
  by (simp_all add: primary_output_def cong: option.case_cong)

lemma mgr_core_buffers:
  assumes core: "mgr_core K cinv C m s w" and b: "buf_inv b"
    and w': "kv_opened K w' = kv_opened K w" "kv_interest K w' = kv_interest K w"
  shows "mgr_core K cinv C (m\<lparr>out_buffer := b\<rparr>) s w'" "mgr_core K cinv C (m\<lparr>in_buffer := b\<rparr>) s w'"
  by (rule mgr_core_same_roles [OF core]; use b w' mgr_coreD(1,2,5) [OF core] in \<open>simp add: same_roles_def\<close>)+

lemma mgr_inv_out_buffer:
  assumes inv: "mgr_inv P K cinv C m s w" and b: "buf_inv b" "contents b \<noteq> [] \<longrightarrow> contents (out_buffer m) \<noteq> []"
    and w': "kv_opened K w' = kv_opened K w" "kv_interest K w' = kv_interest K w"
  shows "mgr_inv P K cinv C (m\<lparr>out_buffer := b\<rparr>) s w'"
  using mgr_core_buffers(1) [OF mgr_invD(1) [OF inv] b(1) w'] inv b(2)
  by (auto simp: mgr_inv_def wakeup_defs)

lemma mgr_inv_in_buffer:
  assumes inv: "mgr_inv P K cinv C m s w" and b: "buf_inv b" "contents b \<noteq> [] \<longrightarrow> contents (in_buffer m) \<noteq> []"
    and w': "kv_opened K w' = kv_opened K w" "kv_interest K w' = kv_interest K w"
  shows "mgr_inv P K cinv C (m\<lparr>in_buffer := b\<rparr>) s w'"
  using mgr_core_buffers(2) [OF mgr_invD(1) [OF inv] b(1) w'] inv b(2)
  by (auto simp: mgr_inv_def wakeup_defs)

lemma mgr_core_set_write:
  assumes core: "mgr_core K cinv C m s w" and E: "events_laws E" and u: "modify fd (poll_for_write E v) s = Some s'"
  shows "mgr_core K cinv C m s' w"
proof -
  note c = mgr_coreD [OF core]
  note s' = fdset.set_write_SomeD [OF c(5) u E]
  show ?thesis
    by (rule mgr_core_same_roles [OF core]) (use s' c(1,2) in \<open>simp_all add: same_roles_def\<close>)
qed

lemma mgr_core_set_read:
  assumes core: "mgr_core K cinv C m s w" and E: "events_laws E" and u: "modify fd (poll_for_read E v) s = Some s'"
    and m': "same_roles m m'" "in_buffer m' = in_buffer m" "out_buffer m' = out_buffer m"
  shows "mgr_core K cinv C m' s' w"
proof -
  note c = mgr_coreD [OF core]
  note s' = fdset.set_read_SomeD [OF c(5) u E]
  show ?thesis
    by (rule mgr_core_same_roles [OF core m'(1)]) (use s' c(1,2) in \<open>simp_all add: m'(2,3)\<close>)
qed

lemma wants_after_remove:
  "wants_read E (req(fd := None)) x \<longleftrightarrow> x \<noteq> fd \<and> wants_read E req x"
  "wants_write E (req(fd := None)) x \<longleftrightarrow> x \<noteq> fd \<and> wants_write E req x"
  by (simp_all add: wants_read_def wants_write_def wants_remove)

lemma wants_after_add:
  "wants_read E (req(fd \<mapsto> es)) x = (if x = fd then ev_contains E es (EPOLLIN E) else wants_read E req x)"
  "wants_write E (req(fd \<mapsto> es)) x = (if x = fd then ev_contains E es (EPOLLOUT E) else wants_write E req x)"
  by (simp_all add: wants_read_def wants_write_def wants_add)

lemma roles_distinctD:
  assumes "roles_distinct C m"
  shows "console m = Some fd \<Longrightarrow> fd \<noteq> server_socket m \<and> fd \<notin> child_fds C (child m)"
    "client_socket m = Some c \<Longrightarrow> stream c \<noteq> server_socket m \<and> stream c \<notin> child_fds C (child m) \<and>
       console m \<noteq> Some (stream c)"
    "server_socket m \<notin> child_fds C (child m)" "console m \<noteq> Some (server_socket m)"
  using assms by (auto simp: roles_distinct_def role_defs)

lemma child_fdsI [simp, intro]:
  "stdin_fd C c = Some fd \<Longrightarrow> fd \<in> child_fds C c" "stdout_fd C c = Some fd \<Longrightarrow> fd \<in> child_fds C c"
  "stderr_fd C c = Some fd \<Longrightarrow> fd \<in> child_fds C c"
  by (simp_all add: child_fds_def)

lemma hangup_client_inv:
  assumes laws: "kernel_laws P ep K" and inv: "mgr_inv P K cinv C m s w" and cl: "client_socket m = Some c"
    and run: "hangup_client P c m s w = Some (r, m', s', w')"
  shows "r = Ok () \<and> mgr_inv P K cinv C m' s' w'"
proof -
  let ?E = "plat_events P" and ?m = "m\<lparr>client_socket := None\<rparr>"
  note co = mgr_coreD [OF mgr_invD(1) [OF inv]] and E = kernel_lawsD(3) [OF laws]
  note rd = roles_distinctD [OF co(4)]
  have size: "writable_size (out_buffer m) = Some (length (contents (out_buffer m)))"
    using co(2) by (rule writable_size_eq)
  obtain s1 where s1: "unregister_closed (stream c) s = Some s1"
    using run by (cases "unregister_closed (stream c) s") (simp_all add: hangup_client_def)
  note u = fdset.unreg_closed_SomeD [OF co(5) s1]
  have core1: "mgr_core K cinv C ?m s1 (sys_close P (stream c) w)"
    by (rule mgr_core_close [OF laws mgr_invD(1) [OF inv] _ s1])
      (use co(3,4) cl in \<open>auto simp: role_defs roles_distinct_def\<close>)
  have rest: "input_wakeup ?E C ?m s1" "sources_polled ?E C ?m s1"
    using mgr_invD(3,4) [OF inv] u rd(2) [OF cl]
    by (auto simp: input_wakeup_def sources_polled_def wants_after_remove)
  show ?thesis
  proof (cases "contents (out_buffer m) = [] \<or> console m = None")
    case True
    then have "r = Ok ()" "m' = ?m" "s' = s1" "w' = sys_close P (stream c) w"
      using run s1 size by (auto simp: hangup_client_def split: option.splits)
    moreover have "output_wakeup ?E ?m s1"
      using True by (auto simp: output_wakeup_def primary_output_def)
    ultimately show ?thesis
      using core1 rest by (simp add: mgr_inv_def wakeup_ok_def)
  next
    case False
    then obtain out where out: "console m = Some out" by auto
    obtain s2 where s2: "modify out (poll_for_write ?E True) s1 = Some s2"
      and res: "r = Ok ()" "m' = ?m" "s' = s2" "w' = sys_close P (stream c) w"
      using run s1 size False out by (auto simp: hangup_client_def split: bind_splits)
    note v = fdset.set_write_SomeD [OF mgr_coreD(5) [OF core1] s2 E]
    have "output_wakeup ?E ?m s2" "input_wakeup ?E C ?m s2" "sources_polled ?E C ?m s2"
      using rest v out by (auto simp: output_wakeup_def primary_output_def input_wakeup_def sources_polled_def)
    then show ?thesis
      using mgr_core_set_write [OF core1 E s2] res by (simp add: mgr_inv_def wakeup_ok_def)
  qed
qed

lemma client_stream_Some: "client_stream m fd = Some c \<longleftrightarrow> client_socket m = Some c \<and> stream c = fd"
  by (auto simp: client_stream_def split: option.splits)

lemma client_stream_None: "client_stream m fd = None \<longleftrightarrow> fd \<notin> client_fds m"
  by (auto simp: client_stream_def client_fds_def split: option.splits)

lemma hangup_console_inv:
  assumes inv: "mgr_inv P K cinv C m s w" and con: "console m = Some fd" and u: "unregister fd s = Some s'"
  shows "mgr_inv P K cinv C (m\<lparr>console := None\<rparr>) s' w"
proof -
  note co = mgr_coreD [OF mgr_invD(1) [OF inv]]
  note rd = roles_distinctD [OF co(4)] and v = fdset.unreg_SomeD [OF co(5) u]
  have "wakeup_ok (plat_events P) C (m\<lparr>console := None\<rparr>) s'"
    using mgr_invD(2-4) [OF inv] v rd(1) [OF con] rd(2) con
    by (auto simp: wakeup_defs primary_output_def wants_after_remove split: option.splits)
  then show ?thesis
    using mgr_core_console [OF mgr_invD(1) [OF inv] con u] by (simp add: mgr_inv_def)
qed

lemma accept_client_inv:
  assumes laws: "kernel_laws P ep K" and inv: "mgr_inv P K cinv C m s w"
    and run: "accept_client P m s w = Some (r, m', s', w')"
  shows "mgr_inv P K cinv C m' s' w'"
proof -
  let ?E = "plat_events P"
  note co = mgr_coreD [OF mgr_invD(1) [OF inv]] and E = kernel_lawsD(3) [OF laws]
  obtain res w1 where a: "sys_accept P (server_socket m) w = (res, w1)" by fastforce
  have i: "kv_interest K w1 = kv_interest K w"
    using kernel_lawsD(8) [OF laws, of "server_socket m" w] a by simp
  show ?thesis
  proof (cases res)
    case (Err e)
    then have "kv_opened K w1 = kv_opened K w"
      using platform_lawsD(5) [OF kernel_lawsD(1) [OF laws]] a by blast
    then have "mgr_inv P K cinv C (m\<lparr>in_buffer := in_buffer m\<rparr>) s w1"
      by (intro mgr_inv_in_buffer [OF inv co(1)]) (simp_all add: i)
    then show ?thesis
      using run a Err by (simp add: accept_client_def)
  next
    case (Ok c)
    show ?thesis
    proof (cases "client_socket m = None")
      case False
      have "mgr_inv P K cinv C (m\<lparr>in_buffer := in_buffer m\<rparr>) s (sys_close P c w1)"
        by (intro mgr_inv_in_buffer [OF inv co(1)])
          (simp_all add: mgr_core_refuse [OF laws mgr_invD(1) [OF inv] a [unfolded Ok]])
      then show ?thesis
        using run a Ok False by (simp add: accept_client_def)
    next
      case True
      let ?es = "ev_set ?E (EPOLLIN ?E) (EPOLLOUT ?E) (0 < length (contents (out_buffer m)))"
      let ?m = "m\<lparr>client_socket := Some \<lparr>stream = c, availability = ReadWrite\<rparr>\<rparr>"
      obtain s1 where s1: "register c ?es s = Some s1"
        using run a Ok True co(2) by (auto simp: accept_client_def writable_size_eq split: bind_splits)
      note u = fdset.register_SomeD [OF co(5) s1]
      have ec: "ev_contains ?E ?es (EPOLLIN ?E)"
        "ev_contains ?E ?es (EPOLLOUT ?E) \<longleftrightarrow> contents (out_buffer m) \<noteq> []"
        using events_lawsD [OF E] by simp_all
      have core1: "mgr_core K cinv C ?m s1 w1"
        by (rule mgr_core_accept [OF laws mgr_invD(1) [OF inv] a [unfolded Ok] True s1])
      note rd = roles_distinctD [OF mgr_coreD(4) [OF core1]]
      have out: "output_wakeup ?E ?m s1"
        using u ec(2)
        by (cases "contents (out_buffer m) = []")
          (simp_all add: output_wakeup_def primary_output_def wants_after_add)
      have inp: "input_wakeup ?E C ?m s1"
        using mgr_invD(3) [OF inv] u rd(2) by (auto simp: input_wakeup_def wants_after_add)
      have src: "sources_polled ?E C ?m s1"
        using mgr_invD(4) [OF inv] u rd(2) ec by (auto simp: sources_polled_def wants_after_add)
      show ?thesis
      proof (cases "console m")
        case None
        then have "m' = ?m" "s' = s1" "w' = w1"
          using run a Ok True co(2) s1 by (simp_all add: accept_client_def writable_size_eq)
        then show ?thesis
          using core1 out inp src by (simp add: mgr_inv_def wakeup_ok_def)
      next
        case (Some con)
        obtain s2 where s2: "modify con (poll_for_write ?E False) s1 = Some s2"
          and res: "m' = ?m" "s' = s2" "w' = w1"
          using run a Ok True co(2) s1 Some
          by (auto simp: accept_client_def writable_size_eq split: bind_splits)
        note v = fdset.set_write_SomeD [OF mgr_coreD(5) [OF core1] s2 E]
        have "output_wakeup ?E ?m s2"
          using out v rd(2) Some by (auto simp: output_wakeup_def primary_output_def)
        moreover have "input_wakeup ?E C ?m s2"
          using inp v rd(1) Some by (auto simp: input_wakeup_def)
        moreover have "sources_polled ?E C ?m s2"
          using src v by (simp add: sources_polled_def)
        ultimately show ?thesis
          using mgr_core_set_write [OF core1 E s2] res by (simp add: mgr_inv_def wakeup_ok_def)
      qed
    qed
  qed
qed

lemma discard_nonempty: "buf_inv b \<Longrightarrow> contents (snd (discard b)) \<noteq> [] \<Longrightarrow> contents b \<noteq> []"
  unfolding discard_spec(2) by (simp add: contents_def)

lemma discard_output_inv:
  assumes inv: "mgr_inv P K cinv C m s w"
  shows "mgr_inv P K cinv C (discard_output m) s w"
proof -
  have b: "buf_inv (out_buffer m)"
    by (rule mgr_coreD(2) [OF mgr_invD(1) [OF inv]])
  show ?thesis
    unfolding discard_output_def
    by (rule mgr_inv_out_buffer [OF inv discard_spec(1) [OF b]]) (use discard_nonempty [OF b] in auto)
qed

text \<open>Asking for a writability event is what restores the wakeup of a direction that got bytes.\<close>

lemma wakeup_set_write:
  assumes core: "mgr_core K cinv C m s w" and E: "events_laws E" and u: "modify fd (poll_for_write E True) s = Some s'"
  shows "output_wakeup E m s \<Longrightarrow> output_wakeup E m s'" "input_wakeup E C m s \<Longrightarrow> input_wakeup E C m s'"
    "sources_polled E C m s \<Longrightarrow> sources_polled E C m s'"
    "primary_output m = Some fd \<Longrightarrow> output_wakeup E m s'" "stdin_fd C (child m) = Some fd \<Longrightarrow> input_wakeup E C m s'"
  using fdset.set_write_SomeD [OF mgr_coreD(5) [OF core] u E]
  by (auto simp: output_wakeup_def input_wakeup_def sources_polled_def)

lemma request_primary_eq:
  "request_primary_output_writable E m s =
     (case primary_output m of
        Some fd \<Rightarrow> map_option (Pair True) (modify fd (poll_for_write E True) s)
      | None \<Rightarrow> Some (False, s))"
  by (auto simp: request_primary_output_writable_def primary_output_def split: option.splits bind_splits)

lemma request_primary_inv:
  assumes core: "mgr_core K cinv C m s w" and E: "events_laws (plat_events P)"
    and wake: "input_wakeup (plat_events P) C m s" "sources_polled (plat_events P) C m s"
    and run: "request_primary_output_writable (plat_events P) m s = Some (q, s')"
  shows "mgr_inv P K cinv C m s' w"
proof (cases "primary_output m")
  case None
  then have "s' = s" "output_wakeup (plat_events P) m s"
    using run by (simp_all add: request_primary_eq output_wakeup_def)
  then show ?thesis using core wake by (simp add: mgr_inv_def wakeup_ok_def)
next
  case (Some fd)
  then have u: "modify fd (poll_for_write (plat_events P) True) s = Some s'"
    using run by (simp add: request_primary_eq)
  show ?thesis
    using mgr_core_set_write [OF core E u] wakeup_set_write [OF core E u] wake Some
    by (simp add: mgr_inv_def wakeup_ok_def)
qed

text \<open>A request may be dropped when its direction is empty, and a client may be half closed.\<close>

lemma mgr_inv_clear_write:
  assumes inv: "mgr_inv P K cinv C m s w" and E: "events_laws (plat_events P)"
    and u: "modify fd (poll_for_write (plat_events P) False) s = Some s'"
    and empty: "primary_output m = Some fd \<longrightarrow> contents (out_buffer m) = []"
      "stdin_fd C (child m) = Some fd \<longrightarrow> contents (in_buffer m) = []"
  shows "mgr_inv P K cinv C m s' w"
proof -
  note v = fdset.set_write_SomeD [OF mgr_coreD(5) [OF mgr_invD(1) [OF inv]] u E]
  have "output_wakeup (plat_events P) m s'"
    using mgr_invD(2) [OF inv] v empty(1) by (auto simp: output_wakeup_def)
  moreover have "input_wakeup (plat_events P) C m s'"
    using mgr_invD(3) [OF inv] v empty(2) by (auto simp: input_wakeup_def)
  moreover have "sources_polled (plat_events P) C m s'"
    using mgr_invD(4) [OF inv] v by (simp add: sources_polled_def)
  ultimately show ?thesis
    using mgr_core_set_write [OF mgr_invD(1) [OF inv] E u] by (simp add: mgr_inv_def wakeup_ok_def)
qed

lemma mgr_inv_half_close:
  assumes inv: "mgr_inv P K cinv C m s w" and E: "events_laws (plat_events P)" and cl: "client_socket m = Some c"
    and u: "modify (stream c) (poll_for_read (plat_events P) False) s = Some s'" and av: "av \<noteq> ReadWrite"
  shows "mgr_inv P K cinv C (m\<lparr>client_socket := Some (c\<lparr>availability := av\<rparr>)\<rparr>) s' w"
proof -
  let ?m = "m\<lparr>client_socket := Some (c\<lparr>availability := av\<rparr>)\<rparr>"
  note co = mgr_coreD [OF mgr_invD(1) [OF inv]]
  note v = fdset.set_read_SomeD [OF co(5) u E] and rd = roles_distinctD(2) [OF co(4) cl]
  have "output_wakeup (plat_events P) ?m s'" "input_wakeup (plat_events P) C ?m s'"
    using mgr_invD(2,3) [OF inv] v cl by (simp_all add: output_wakeup_def primary_output_def input_wakeup_def)
  moreover have "sources_polled (plat_events P) C ?m s'"
    using mgr_invD(4) [OF inv] v rd av by (auto simp: sources_polled_def)
  moreover have "mgr_core K cinv C ?m s' w"
    by (rule mgr_core_set_read [OF mgr_invD(1) [OF inv] E u]) (simp_all add: same_roles_def cl)
  ultimately show ?thesis by (simp add: mgr_inv_def wakeup_ok_def)
qed

section \<open>The handlers preserve the invariant\<close>

context child_stdio
begin

lemma hangup_child_inv:
  assumes laws: "kernel_laws P ep K" and inv: "mgr_inv P K cinv (C P) m s w"
    and fd: "fd \<in> child_fds (C P) (child m)" and run: "cs_hangup (C P) fd (child m) s w = Some (c', s', w')"
  shows "mgr_inv P K cinv (C P) (m\<lparr>child := c'\<rparr>) s' w'"
proof -
  let ?E = "plat_events P" and ?m = "m\<lparr>child := c'\<rparr>"
  note co = mgr_coreD [OF mgr_invD(1) [OF inv]]
  note rd = roles_distinctD [OF co(4)]
  have k: "fd \<in> processed s"
    using fd co(7) by (auto simp: fixed_fds_def)
  obtain s1 where s1: "unregister_closed fd s = Some s1"
    and c': "s' = s1" "w' = sys_close P fd w" "cinv c'" "stdin_fd (C P) c' = close_role fd (stdin_fd (C P) (child m))"
      "stdout_fd (C P) c' = close_role fd (stdout_fd (C P) (child m))"
      "stderr_fd (C P) c' = close_role fd (stderr_fd (C P) (child m))"
    using hangup_law [OF co(3,5) fd k, of w] run by auto
  have fds: "child_fds (C P) c' = child_fds (C P) (child m) - {fd}"
    by (auto simp: child_fds_def c'(4-6))
  have "mgr_core K cinv (C P) ?m s1 (sys_close P fd w)"
  proof (rule mgr_core_close [OF laws mgr_invD(1) [OF inv] _ s1])
    show "fd \<in> role_fds (C P) m" "cinv (child ?m)" using fd c'(3) by (simp_all add: role_defs)
    show "fixed_fds (C P) ?m = fixed_fds (C P) m - {fd}" "client_fds ?m = client_fds m - {fd}"
      using fds fd rd by (auto simp: fixed_fds_def client_fds_def)
    show "roles_distinct (C P) ?m"
      using co(4) fds by (auto simp: roles_distinct_def role_defs)
  qed simp_all
  moreover have req: "requested s1 = (requested s)(fd := None)"
    using fdset.unreg_closed_SomeD [OF co(5) s1] by simp
  have "output_wakeup ?E ?m s1"
    using mgr_invD(2) [OF inv] fd rd(1,2)
    by (auto simp: output_wakeup_def primary_output_def wants_after_remove req split: option.splits)
  moreover have "input_wakeup ?E (C P) ?m s1"
    using mgr_invD(3) [OF inv] by (auto simp: input_wakeup_def wants_after_remove req c'(4) close_role_def)
  moreover have "sources_polled ?E (C P) ?m s1"
    using mgr_invD(4) [OF inv] fd rd(2,3)
    by (auto simp: sources_polled_def wants_after_remove req c'(5,6) close_role_def split: if_splits)
  ultimately show ?thesis
    using c'(1,2) by (simp add: mgr_inv_def wakeup_ok_def)
qed

lemma on_hangup_inv:
  assumes laws: "kernel_laws P ep K" and inv: "mgr_inv P K cinv (C P) m s w"
    and run: "on_hangup P (C P) fd m s w = Some (r, m', s', w')"
  shows "r = Ok () \<and> mgr_inv P K cinv (C P) m' s' w'"
proof (cases "client_stream m fd")
  case (Some c)
  then have "client_socket m = Some c" and "hangup_client P c m s w = Some (r, m', s', w')"
    using run by (simp_all add: on_hangup_def) (simp add: client_stream_Some)
  then show ?thesis
    by (rule hangup_client_inv [OF laws inv])
next
  case None
  then have run': "hangup_other (C P) fd m s w = Some (r, m', s', w')"
    using run by (simp add: on_hangup_def)
  show ?thesis
  proof (cases "fd \<in> child_fds (C P) (child m)")
    case True
    then have "stdin_fd (C P) (child m) = Some fd \<or> stdout_fd (C P) (child m) = Some fd \<or>
        stderr_fd (C P) (child m) = Some fd"
      by (auto simp: child_fds_def)
    then show ?thesis
      using run' hangup_child_inv [OF laws inv True] by (auto simp: hangup_other_def split: bind_splits)
  next
    case False
    then have "\<not> (stdin_fd (C P) (child m) = Some fd \<or> stdout_fd (C P) (child m) = Some fd \<or>
        stderr_fd (C P) (child m) = Some fd)"
      by auto
    then show ?thesis
      using run' inv hangup_console_inv [OF inv]
      by (auto simp: hangup_other_def split: bind_splits option.splits if_splits)
  qed
qed

lemma io_world:
  assumes "kernel_laws P ep K" and "io_on P F w w'"
  shows "kv_opened K w' = kv_opened K w" "kv_interest K w' = kv_interest K w"
  using assms by (simp_all add: kernel_lawsD(4,5))

lemma read_child_inv:
  assumes laws: "kernel_laws P ep K" and inv: "mgr_inv P K cinv (C P) m s w"
    and copy: "copy (child m) (out_buffer m) w = Some (res, b, w1)" "filled (out_buffer m) res b" "io_on P F w w1"
    and run: "read_child P (C P) copy fd m s w = Some (r, m', s', w')"
  shows "mgr_inv P K cinv (C P) m' s' w'"
proof -
  let ?E = "plat_events P" and ?m = "m\<lparr>out_buffer := b\<rparr>"
  note E = kernel_lawsD(3) [OF laws] and f = copy(2) [unfolded filled_def]
  have keep: "mgr_inv P K cinv (C P) ?m s w1" if "contents b \<noteq> [] \<longrightarrow> contents (out_buffer m) \<noteq> []"
    using mgr_inv_out_buffer [OF inv _ that io_world [OF laws copy(3)]] f by blast
  show ?thesis
  proof (cases res)
    case (Err e)
    then show ?thesis using run copy(1) keep f by (auto simp: read_child_def)
  next
    case (Ok cs)
    obtain close ch where cs: "cs = (close, ch)" by fastforce
    consider (close) close | (more) "\<not> close" "ch = BecameNonEmpty" | (same) "\<not> close" "ch = NoChange"
      using f Ok cs by (cases ch) auto
    then show ?thesis
    proof cases
      case close
      then have "mgr_inv P K cinv (C P) ?m s w1" using keep f Ok cs by auto
      moreover have "on_hangup P (C P) fd ?m s w1 = Some (r, m', s', w')"
        using run copy(1) Ok cs close by (simp add: read_child_def)
      ultimately show ?thesis using on_hangup_inv [OF laws] by blast
    next
      case same
      then have "mgr_inv P K cinv (C P) ?m s w1" using keep f Ok cs by auto
      then show ?thesis
        using run copy(1) Ok cs same discard_output_inv [of P K cinv "C P" ?m s w1]
        by (auto simp: read_child_def Let_def split: if_splits)
    next
      case more
      obtain q s1 where req: "request_primary_output_writable ?E ?m s = Some (q, s1)"
        and res: "m' = (if \<not> q then discard_output ?m else ?m)" "s' = s1" "w' = w1"
        using run copy(1) Ok cs more by (auto simp: read_child_def Let_def split: bind_splits)
      have core: "mgr_core K cinv (C P) ?m s w1"
        using mgr_core_buffers(1) [OF mgr_invD(1) [OF inv] _ io_world [OF laws copy(3)]] f by blast
      have wake: "input_wakeup ?E (C P) ?m s" "sources_polled ?E (C P) ?m s"
        using mgr_invD(3,4) [OF inv] by (simp_all add: input_wakeup_def sources_polled_def)
      have "mgr_inv P K cinv (C P) ?m s1 w1"
        by (rule request_primary_inv [OF core E wake req])
      then show ?thesis
        using res discard_output_inv [of P K cinv "C P" ?m s1 w1] by simp
    qed
  qed
qed

lemma read_client_inv:
  assumes laws: "kernel_laws P ep K" and inv: "mgr_inv P K cinv (C P) m s w" and cl: "client_socket m = Some c"
    and run: "read_client P (C P) (stream c) c m s w = Some (r, m', s', w')"
  shows "mgr_inv P K cinv (C P) m' s' w'"
proof -
  let ?E = "plat_events P"
  note co = mgr_coreD [OF mgr_invD(1) [OF inv]] and E = kernel_lawsD(3) [OF laws]
  obtain res b w1 where copy: "channel_to_buffer (sys_read P (stream c)) (in_buffer m) w = Some (res, b, w1)"
      "filled (in_buffer m) res b" and io: "io_on P {stream c} w w1"
    using channel_to_buffer_fd [OF kernel_lawsD(1) [OF laws] co(1)] by blast
  let ?m = "m\<lparr>in_buffer := b\<rparr>"
  note f = copy(2) [unfolded filled_def] and run = run [unfolded read_client_def, simplified copy, simplified]
  have keep: "mgr_inv P K cinv (C P) ?m s w1" if "contents b \<noteq> [] \<longrightarrow> contents (in_buffer m) \<noteq> []"
    using mgr_inv_in_buffer [OF inv _ that io_world [OF laws io]] f by blast
  note dis = discard_output_inv [of P K cinv "C P" ?m s w1]
  have readable: "client_socket_readable m" using run by (simp split: if_splits)
  show ?thesis
  proof (cases res)
    case (Err e)
    then show ?thesis using run readable keep f by (auto simp: Let_def)
  next
    case (Ok cs)
    obtain close ch where cs: "cs = (close, ch)" by fastforce
    consider (hangup) close "availability c = ReadOnly" | (half) close "availability c \<noteq> ReadOnly"
      | (more) i where "\<not> close" "ch = BecameNonEmpty" "stdin_fd (C P) (child m) = Some i"
      | (closed) "\<not> close" "ch = BecameNonEmpty" "stdin_fd (C P) (child m) = None"
      | (same) "\<not> close" "ch = NoChange"
      using f Ok cs by (cases ch) auto
    then show ?thesis
    proof cases
      case hangup
      then have "mgr_inv P K cinv (C P) ?m s w1" using keep f Ok cs by auto
      then show ?thesis
        using run readable Ok cs hangup on_hangup_inv [OF laws] by (auto simp: Let_def)
    next
      case half
      then have i1: "mgr_inv P K cinv (C P) ?m s w1" using keep f Ok cs by auto
      show ?thesis
        using run readable Ok cs half cl mgr_inv_half_close [OF i1 E] by (auto simp: Let_def split: bind_splits)
    next
      case more
      then obtain s1 where s1: "modify i (poll_for_write ?E True) s = Some s1" and res: "m' = ?m" "s' = s1" "w' = w1"
        using run readable Ok cs by (auto simp: Let_def split: bind_splits)
      have core: "mgr_core K cinv (C P) ?m s w1"
        using mgr_core_buffers(2) [OF mgr_invD(1) [OF inv] _ io_world [OF laws io]] f by blast
      have "output_wakeup ?E ?m s" "sources_polled ?E (C P) ?m s"
        using mgr_invD(2,4) [OF inv] by (simp_all add: output_wakeup_def sources_polled_def)
      then show ?thesis
        using mgr_core_set_write [OF core E s1] wakeup_set_write [OF core E s1] more res
        by (simp add: mgr_inv_def wakeup_ok_def)
    next
      case closed
      have "mgr_core K cinv (C P) ?m s w1"
        using mgr_core_buffers(2) [OF mgr_invD(1) [OF inv] _ io_world [OF laws io]] f by blast
      then have "mgr_inv P K cinv (C P) ?m s w1"
        using mgr_invD(2,4) [OF inv] closed by (simp add: mgr_inv_def wakeup_defs)
      then show ?thesis using run readable Ok cs closed dis by (simp add: Let_def)
    next
      case same
      then have "mgr_inv P K cinv (C P) ?m s w1" using keep f Ok cs by auto
      then show ?thesis using run readable Ok cs same dis by (auto simp: Let_def split: if_splits)
    qed
  qed
qed

lemma write_client_inv:
  assumes laws: "kernel_laws P ep K" and inv: "mgr_inv P K cinv (C P) m s w" and cl: "client_socket m = Some c"
    and run: "write_client P (C P) (stream c) c m s w = Some (r, m', s', w')"
  shows "mgr_inv P K cinv (C P) m' s' w'"
proof -
  note co = mgr_coreD [OF mgr_invD(1) [OF inv]] and E = kernel_lawsD(3) [OF laws]
  obtain res b w1 where copy: "buffer_to_channel (out_buffer m) (fd_writer P (stream c)) w = Some (res, b, w1)"
      "drained (out_buffer m) res b" and io: "io_on P {stream c} w w1"
    using buffer_to_channel_fd [OF kernel_lawsD(1) [OF laws] co(2)] by blast
  let ?m = "m\<lparr>out_buffer := b\<rparr>"
  note run = run [unfolded write_client_def, simplified copy, simplified]
  note f = copy(2) [unfolded drained_def]
  have i1: "mgr_inv P K cinv (C P) ?m s w1"
    by (rule mgr_inv_out_buffer [OF inv _ _ io_world [OF laws io]]) (use f in auto)
  have writable: "client_socket_writable m" using run by (simp split: if_splits)
  show ?thesis
  proof (cases res)
    case (Err e)
    then show ?thesis using run writable i1 by (simp add: Let_def)
  next
    case (Ok cs)
    obtain close ch where res: "res = Ok (close, ch)" using Ok by (cases cs) simp
    consider (hangup) close "availability c = WriteOnly" | (half) close "availability c \<noteq> WriteOnly"
      | (empty) "\<not> close" "ch = BecameEmpty" | (same) "\<not> close" "ch \<noteq> BecameEmpty" by blast
    then show ?thesis
    proof cases
      case hangup
      then show ?thesis
        using run writable res on_hangup_inv [OF laws i1] by (auto simp: Let_def)
    next
      case half
      then show ?thesis
        using run writable res cl mgr_inv_half_close [OF i1 E] by (auto simp: Let_def split: bind_splits)
    next
      case empty
      then have "contents b = []" using f res by simp
      then show ?thesis
        using run writable res empty mgr_inv_clear_write [OF i1 E, of "stream c"] roles_distinctD(2) [OF co(4) cl]
        by (auto simp: Let_def split: bind_splits)
    next
      case same
      then show ?thesis using run writable res i1 by (simp add: Let_def)
    qed
  qed
qed

lemma write_console_inv:
  assumes laws: "kernel_laws P ep K" and inv: "mgr_inv P K cinv (C P) m s w" and con: "console m = Some fd"
    and run: "write_console P (C P) fd m s w = Some (r, m', s', w')"
  shows "mgr_inv P K cinv (C P) m' s' w'"
proof -
  note co = mgr_coreD [OF mgr_invD(1) [OF inv]] and E = kernel_lawsD(3) [OF laws]
  obtain res b w1 where copy: "buffer_to_channel (out_buffer m) (fd_writer P fd) w = Some (res, b, w1)"
      "drained (out_buffer m) res b" and io: "io_on P {fd} w w1"
    using buffer_to_channel_fd [OF kernel_lawsD(1) [OF laws] co(2)] by blast
  note run = run [unfolded write_console_def, simplified copy, simplified]
  note f = copy(2) [unfolded drained_def]
  have i1: "mgr_inv P K cinv (C P) (m\<lparr>out_buffer := b\<rparr>) s w1"
    by (rule mgr_inv_out_buffer [OF inv _ _ io_world [OF laws io]]) (use f in auto)
  have "mgr_inv P K cinv (C P) (m\<lparr>out_buffer := b\<rparr>) s1 w1"
    if "res = Ok (False, BecameEmpty)" "modify fd (poll_for_write (plat_events P) False) s = Some s1" for s1
    using that f roles_distinctD(1) [OF co(4) con]
    by (intro mgr_inv_clear_write [OF i1 E that(2)]) auto
  then show ?thesis
    using run i1 on_hangup_inv [OF laws i1]
    by (auto simp: Let_def split: io_result.splits prod.splits if_splits bind_splits)
qed

lemma write_child_inv:
  assumes laws: "kernel_laws P ep K" and inv: "mgr_inv P K cinv (C P) m s w" and i: "stdin_fd (C P) (child m) = Some fd"
    and run: "write_child P (C P) fd m s w = Some (r, m', s', w')"
  shows "mgr_inv P K cinv (C P) m' s' w'"
proof -
  note co = mgr_coreD [OF mgr_invD(1) [OF inv]] and E = kernel_lawsD(3) [OF laws]
  obtain res b w1 where copy: "write_stdin (C P) (child m) (in_buffer m) w = Some (res, b, w1)"
      "drained (in_buffer m) res b" and io: "io_on P {fd} w w1"
    using write_stdin_law [OF kernel_lawsD(1) [OF laws] co(1) i] by blast
  note run = run [unfolded write_child_def, simplified copy, simplified]
  note f = copy(2) [unfolded drained_def]
  have i1: "mgr_inv P K cinv (C P) (m\<lparr>in_buffer := b\<rparr>) s w1"
    by (rule mgr_inv_in_buffer [OF inv _ _ io_world [OF laws io]]) (use f in auto)
  have "primary_output m \<noteq> Some fd"
    using roles_distinctD(1,2) [OF co(4)] i by (auto simp: primary_output_def split: option.splits)
  then have "mgr_inv P K cinv (C P) (m\<lparr>in_buffer := b\<rparr>) s1 w1"
    if "res = Ok (False, BecameEmpty)" "modify fd (poll_for_write (plat_events P) False) s = Some s1" for s1
    using that f by (intro mgr_inv_clear_write [OF i1 E that(2)]) auto
  then show ?thesis
    using run i1 on_hangup_inv [OF laws i1]
    by (auto simp: Let_def split: io_result.splits prod.splits if_splits bind_splits)
qed

lemma on_readable_inv:
  assumes laws: "kernel_laws P ep K" and inv: "mgr_inv P K cinv (C P) m s w"
    and run: "on_readable P (C P) fd m s w = Some (r, m', s', w')"
  shows "mgr_inv P K cinv (C P) m' s' w'"
proof -
  note co = mgr_coreD [OF mgr_invD(1) [OF inv]] and pl = kernel_lawsD(1) [OF laws]
  consider (server) "fd = server_socket m"
    | (client) c where "fd \<noteq> server_socket m" "client_stream m fd = Some c"
    | (out) "fd \<noteq> server_socket m" "client_stream m fd = None" "stdout_fd (C P) (child m) = Some fd"
    | (err) "fd \<noteq> server_socket m" "client_stream m fd = None" "stdout_fd (C P) (child m) \<noteq> Some fd"
        "stderr_fd (C P) (child m) = Some fd"
    | (other) "fd \<noteq> server_socket m" "client_stream m fd = None" "stdout_fd (C P) (child m) \<noteq> Some fd"
        "stderr_fd (C P) (child m) \<noteq> Some fd"
    by (cases "client_stream m fd") auto
  then show ?thesis
  proof cases
    case server
    then show ?thesis using run accept_client_inv [OF laws inv] by (simp add: on_readable_def)
  next
    case client
    then have "client_socket m = Some c" "stream c = fd" by (simp_all add: client_stream_Some)
    then show ?thesis using run client read_client_inv [OF laws inv] by (auto simp: on_readable_def)
  next
    case out
    then show ?thesis
      using run read_stdout_law [OF pl co(2) out(3), of w] read_child_inv [OF laws inv, of "read_stdout (C P)"]
      by (auto simp: on_readable_def)
  next
    case err
    then show ?thesis
      using run read_stderr_law [OF pl co(2) err(4), of w] read_child_inv [OF laws inv, of "read_stderr (C P)"]
      by (auto simp: on_readable_def)
  next
    case other
    then show ?thesis using run inv by (simp add: on_readable_def)
  qed
qed

lemma on_writable_inv:
  assumes laws: "kernel_laws P ep K" and inv: "mgr_inv P K cinv (C P) m s w"
    and run: "on_writable P (C P) fd m s w = Some (r, m', s', w')"
  shows "mgr_inv P K cinv (C P) m' s' w'"
proof (cases "client_stream m fd")
  case (Some c)
  then have "client_socket m = Some c" "stream c = fd" by (simp_all add: client_stream_Some)
  then show ?thesis using run Some write_client_inv [OF laws inv] by (auto simp: on_writable_def)
next
  case None
  then show ?thesis
    using run inv write_console_inv [OF laws inv] write_child_inv [OF laws inv]
    by (auto simp: on_writable_def split: if_splits)
qed

end

end
