(* ===== verification/Pollster.thy ===== *)
theory Pollster
  imports Channel_Manager
begin

text \<open>
  \<^verbatim>\<open>src/src/pollster.rs\<close>: the event loop. The manager is any \<open>ChannelManager\<close> dictionary; the
  laws the loop needs of it are the locale \<open>channel_manager\<close>.
\<close>

section \<open>State and operations\<close>

definition POLLSTER_MAX_FDS :: nat where
  "POLLSTER_MAX_FDS = 5"

record 'm Pollster =
  poll_fd :: RawFd
  close_fd :: RawFd
  poll_events :: "Event list"
  fd_set :: PolledFdSet
  channel_mgr :: 'm

text \<open>The three closures of \<^verbatim>\<open>apply_poll_updates\<close>.\<close>

definition add_fd :: "'w platform \<Rightarrow> RawFd \<Rightarrow> RawFd \<Rightarrow> Events \<Rightarrow> 'w \<Rightarrow> PolledFd io_result \<times> 'w" where
  "add_fd P ep fd es w =
     (let event = event_new es (fd_data fd)
      in (case epoll_ctl P ep EPOLL_CTL_ADD fd event w of
            (Err e, w) \<Rightarrow> (Err e, w)
          | (Ok _, w) \<Rightarrow> (Ok (polled_fd_new (plat_events P) fd event), w)))"

definition update_fd :: "'w platform \<Rightarrow> RawFd \<Rightarrow> RawFd \<Rightarrow> Event \<Rightarrow> 'w \<Rightarrow> unit io_result \<times> 'w" where
  "update_fd P ep fd event w = epoll_ctl P ep EPOLL_CTL_MOD fd event w"

definition delete_fd :: "'w platform \<Rightarrow> RawFd \<Rightarrow> RawFd \<Rightarrow> 'w \<Rightarrow> unit io_result \<times> 'w" where
  "delete_fd P ep fd w =
     epoll_ctl P ep EPOLL_CTL_DEL fd (event_new (ev_empty (plat_events P)) (fd_data fd)) w"

definition apply_poll_updates :: "'w platform \<Rightarrow> 'm Pollster \<Rightarrow> 'w \<Rightarrow> unit io_result \<times> 'm Pollster \<times> 'w" where
  "apply_poll_updates P p w =
     (case apply_updates (add_fd P (poll_fd p)) (update_fd P (poll_fd p)) (delete_fd P (poll_fd p)) (fd_set p) w of
        (r, s, w) \<Rightarrow> (r, p\<lparr>fd_set := s\<rparr>, w))"

definition pollster_new ::
  "'w platform \<Rightarrow> ('m, 'w) ChannelManager \<Rightarrow> 'm \<Rightarrow> RawFd \<Rightarrow> 'w \<Rightarrow> ('m Pollster io_result \<times> 'w) option" where
  "pollster_new P cm m close_notify w =
     (case epoll_create P True w of
        (Err e, w) \<Rightarrow> Some (Err e, w)
      | (Ok fd, w) \<Rightarrow>
          (case epoll_ctl P fd EPOLL_CTL_ADD close_notify
                  (event_new (EPOLLIN (plat_events P)) (fd_data close_notify)) w of
             (Err e, w) \<Rightarrow> Some (Err e, w)
           | (Ok _, w) \<Rightarrow> do {
               (m, s, w) \<leftarrow> cm_initialize cm m fd_set_new w;
               let p = \<lparr>poll_fd = fd, close_fd = close_notify,
                        poll_events = replicate POLLSTER_MAX_FDS (event_new (ev_empty (plat_events P)) 0),
                        fd_set = s, channel_mgr = m\<rparr>
               in (case apply_poll_updates P p w of
                     (Err e, _, w) \<Rightarrow> Some (Err e, w)
                   | (Ok _, p, w) \<Rightarrow> Some (Ok p, w))
             }))"

text \<open>One event: readable, then writable, then error or hangup; the first failing handler ends it.\<close>

definition and_then ::
  "(unit io_result \<times> 'm \<times> PolledFdSet \<times> 'w) option \<Rightarrow>
   ('m \<Rightarrow> PolledFdSet \<Rightarrow> 'w \<Rightarrow> (unit io_result \<times> 'm \<times> PolledFdSet \<times> 'w) option) \<Rightarrow>
   (unit io_result \<times> 'm \<times> PolledFdSet \<times> 'w) option" where
  "and_then x k = do {
     (r, m, s, w) \<leftarrow> x;
     (case r of Err e \<Rightarrow> Some (Err e, m, s, w) | Ok _ \<Rightarrow> k m s w)
   }"

definition call_if :: "bool \<Rightarrow> ('m, 'w) handler \<Rightarrow> ('m, 'w) handler" where
  "call_if b h fd m s w = (if b then h fd m s w else Some (Ok (), m, s, w))"

definition dispatch :: "'w platform \<Rightarrow> ('m, 'w) ChannelManager \<Rightarrow> Events \<Rightarrow> ('m, 'w) handler" where
  "dispatch P cm actions fd m s w =
     (let E = plat_events P in
      and_then (call_if (ev_contains E actions (EPOLLIN E)) (cm_on_readable cm) fd m s w) (\<lambda>m s w.
      and_then (call_if (ev_contains E actions (EPOLLOUT E)) (cm_on_writable cm) fd m s w) (\<lambda>m s w.
      call_if (ev_contains E actions (EPOLLERR E) \<or> ev_contains E actions (EPOLLHUP E)) (cm_on_hangup cm) fd m s w)))"

text \<open>The \<^verbatim>\<open>for\<close> loop over the reported events; an entry is \<open>None\<close> where indexing the array would
  panic. The result carries \<^verbatim>\<open>final_iteration\<close>.\<close>

fun process_events ::
  "'w platform \<Rightarrow> ('m, 'w) ChannelManager \<Rightarrow> RawFd \<Rightarrow> Event option list \<Rightarrow> bool \<Rightarrow> 'm \<Rightarrow> PolledFdSet \<Rightarrow> 'w \<Rightarrow>
     (bool io_result \<times> 'm \<times> PolledFdSet \<times> 'w) option" where
  "process_events P cm cfd [] final_iteration m s w = Some (Ok final_iteration, m, s, w)"
| "process_events P cm cfd (None # evs) final_iteration m s w = None"
| "process_events P cm cfd (Some event # evs) final_iteration m s w =
     (let fd = data_fd (event_data event) in
      if fd = cfd then process_events P cm cfd evs True m s w
      else do {
        (r, m, s, w) \<leftarrow> dispatch P cm (from_bits_truncate (plat_events P) (events event)) fd m s w;
        (case r of
           Err e \<Rightarrow> Some (Err e, m, s, w)
         | Ok _ \<Rightarrow> process_events P cm cfd evs final_iteration m s w)
      })"

definition first_events :: "nat \<Rightarrow> Event list \<Rightarrow> Event option list" where
  "first_events n evs = map (\<lambda>i. if i < length evs then Some (evs ! i) else None) [0..<n]"

text \<open>One turn of \<^verbatim>\<open>loop\<close>: it returns from \<^verbatim>\<open>run\<close> or continues.\<close>

datatype control = Continue | Return "unit io_result"

definition wait_result :: "nat io_result \<Rightarrow> nat io_result" where
  "wait_result r =
     (case r of
        Ok n \<Rightarrow> Ok n
      | Err err \<Rightarrow> if kind err = Interrupted then Ok 0 else Err err)"

definition run_iteration ::
  "'w platform \<Rightarrow> ('m, 'w) ChannelManager \<Rightarrow> 'm Pollster \<Rightarrow> 'w \<Rightarrow> (control \<times> 'm Pollster \<times> 'w) option" where
  "run_iteration P cm p w =
     (case epoll_wait P (poll_fd p) (-1) (poll_events p) w of
        ((res, evs), w) \<Rightarrow>
          (let p = p\<lparr>poll_events := evs\<rparr> in
           (case wait_result res of
              Err err \<Rightarrow> Some (Return (Err err), p, w)
            | Ok num_events \<Rightarrow> do {
                (r, m, s, w) \<leftarrow> process_events P cm (close_fd p) (first_events num_events evs) False
                  (channel_mgr p) (fd_set p) w;
                let p = p\<lparr>channel_mgr := m, fd_set := s\<rparr>
                in (case r of
                      Err err \<Rightarrow> Some (Return (Err err), p, w)
                    | Ok True \<Rightarrow> Some (Return (Ok ()), p, w)
                    | Ok False \<Rightarrow>
                        (if num_events > 0
                         then (case apply_poll_updates P p w of
                                 (Err err, p, w) \<Rightarrow> Some (Return (Err err), p, w)
                               | (Ok _, p, w) \<Rightarrow> Some (Continue, p, w))
                         else Some (Continue, p, w)))
              })))"

text \<open>The loop itself. \<open>None\<close> is a loop that never ends, \<open>Some None\<close> a panic.\<close>

partial_function (option) run ::
  "'w platform \<Rightarrow> ('m, 'w) ChannelManager \<Rightarrow> 'm Pollster \<Rightarrow> 'w \<Rightarrow> (unit io_result \<times> 'm Pollster \<times> 'w) option option"
where
  "run P cm p w =
     (case run_iteration P cm p w of
        None \<Rightarrow> Some None
      | Some (Return r, p', w') \<Rightarrow> Some (Some (r, p', w'))
      | Some (Continue, p', w') \<Rightarrow> run P cm p' w')"

text \<open>The definitions that an evaluation of the loop unfolds.\<close>

lemmas registry_ops = register_def fd_set_new_def apply_updates_def polled_fd_new_def event_new_def modify_def
  poll_for_write_def poll_for_read_def pfd_apply_updates_def
lemmas loop_ops = pollster_new_def apply_poll_updates_def add_fd_def update_fd_def delete_fd_def fd_data_def
  run_iteration_def wait_result_def first_events_def data_fd_def dispatch_def and_then_def call_if_def

section \<open>Synchronising the kernel's interest list\<close>

text \<open>\<open>syncable\<close>: what the descriptor set has applied is what the kernel has, apart from pending
  deletions and foreign entries. \<open>settled_as\<close>: what a successful \<^verbatim>\<open>apply_poll_updates\<close> leaves.\<close>

definition syncable :: "'w kernel_view \<Rightarrow> PolledFdSet \<Rightarrow> 'w \<Rightarrow> bool" where
  "syncable K s w \<longleftrightarrow> reg_inv s \<and> gone s \<inter> dom (requested s) = {} \<and>
     dom (kv_foreign K) \<inter> dom (requested s) = {} \<and> dom (kv_foreign K) \<inter> gone s = {} \<and>
     (\<forall>fd ev. applied s fd = Some ev \<longrightarrow> event_data ev = fd_data fd) \<and>
     (\<forall>fd. fd \<notin> gone s \<longrightarrow> kv_interest K w fd = (applied s ++ kv_foreign K) fd)"

definition settled_as ::
  "events_api \<Rightarrow> 'w kernel_view \<Rightarrow> PolledFdSet \<Rightarrow> PolledFdSet \<Rightarrow> 'w \<Rightarrow> 'w \<Rightarrow> bool" where
  "settled_as E K s s' w w' \<longleftrightarrow> reg_inv s' \<and> dom (requested s') = dom (requested s) \<and>
     wants_read E (requested s') = wants_read E (requested s) \<and>
     wants_write E (requested s') = wants_write E (requested s) \<and>
     processed s' = dom (requested s) \<and> gone s' = {} \<and>
     applied s' = (\<lambda>fd. map_option (\<lambda>es. event_new es (fd_data fd)) (requested s fd)) \<and>
     kv_opened K w' = kv_opened K w \<and> kv_interest K w' = applied s' ++ kv_foreign K"

lemma epoll_lawsD:
  assumes "kernel_laws P ep K"
  shows "epoll_ctl P ep EPOLL_CTL_ADD fd ev w = (Ok u, w') \<Longrightarrow> kv_interest K w' = (kv_interest K w)(fd \<mapsto> ev)"
    "epoll_ctl P ep EPOLL_CTL_MOD fd ev w = (Ok u, w') \<Longrightarrow> kv_interest K w' = (kv_interest K w)(fd \<mapsto> ev)"
    "epoll_ctl P ep EPOLL_CTL_DEL fd ev w = (Ok u, w') \<Longrightarrow> kv_interest K w' = (kv_interest K w)(fd := None)"
    "kv_interest K (snd (epoll_wait P ep t evs w)) = kv_interest K w"
    "kv_opened K (snd (epoll_wait P ep t evs w)) = kv_opened K w"
    "epoll_ctl P ep op fd ev w = (r, w') \<Longrightarrow> kv_opened K w' = kv_opened K w"
  using kernel_lawsD(2) [OF assms] platform_lawsD(7,8) [OF kernel_lawsD(1) [OF assms]]
  by (simp_all add: epoll_laws_def) (metis snd_conv)

definition synced_events :: "PolledFd list \<Rightarrow> RawFd \<rightharpoonup> Event" where
  "synced_events ps = map_of (map (\<lambda>p. (pfd_fd p, pfd_event (pfd_synced p))) ps)"

definition added_events :: "(RawFd \<times> Events) list \<Rightarrow> RawFd \<rightharpoonup> Event" where
  "added_events ns = map_of (map (\<lambda>(fd, es). (fd, event_new es (fd_data fd))) ns)"

lemma synced_events_simps [simp]:
  "synced_events [] = Map.empty" "synced_events (p # ps) = (synced_events ps)(pfd_fd p \<mapsto> pfd_event (pfd_synced p))"
  by (simp_all add: synced_events_def)

lemma dom_synced_events: "dom (synced_events ps) = pfd_fd ` set ps"
  by (simp add: synced_events_def dom_map_of_conv_image_fst image_image)

lemma added_events_simps [simp]:
  "added_events [] = Map.empty" "added_events ((fd, es) # ns) = (added_events ns)(fd \<mapsto> event_new es (fd_data fd))"
  by (simp_all add: added_events_def)

lemma dom_added_events: "dom (added_events ns) = fst ` set ns"
  by (simp add: added_events_def dom_map_of_conv_image_fst image_image case_prod_unfold)

lemma map_add_fresh: "k \<notin> dom n \<Longrightarrow> m(k \<mapsto> v) ++ n = m ++ n(k \<mapsto> v)"
  by (auto simp: map_add_def fun_eq_iff domIff split: option.splits)

lemma update_existing_kernel:
  assumes laws: "kernel_laws P ep K"
  shows "update_existing (update_fd P ep) ps w = (Ok u, ps', w') \<Longrightarrow> distinct (map pfd_fd ps) \<Longrightarrow>
    (\<forall>p \<in> set ps. kv_interest K w (pfd_fd p) = Some (pfd_event p)) \<Longrightarrow>
    kv_interest K w' = kv_interest K w ++ synced_events ps \<and> kv_opened K w' = kv_opened K w"
proof (induction ps arbitrary: w ps' w')
  case (Cons p ps)
  have fresh: "pfd_fd p \<notin> dom (synced_events ps)"
    using Cons.prems(2) by (simp add: dom_synced_events)
  show ?case
  proof (cases "events (pfd_event p) = new_events p")
    case True
    then have "pfd_synced p = p" by (simp add: pfd_synced_def)
    then have "kv_interest K w ++ synced_events (p # ps) = (kv_interest K w)(pfd_fd p \<mapsto> pfd_event p) ++ synced_events ps"
      by (simp only: map_add_fresh [OF fresh] synced_events_simps)
    also have "(kv_interest K w)(pfd_fd p \<mapsto> pfd_event p) = kv_interest K w"
      using Cons.prems(3) by (simp add: fun_upd_idem)
    finally have eq: "kv_interest K w ++ synced_events (p # ps) = kv_interest K w ++ synced_events ps" .
    obtain ps1 where "update_existing (update_fd P ep) ps w = (Ok u, ps1, w')"
      using Cons.prems(1) True by (auto simp: pfd_apply_updates_eq split: prod.splits)
    then show ?thesis
      unfolding eq using Cons.IH Cons.prems(2,3) by simp
  next
    case False
    then obtain w1 ps1 where w1: "update_fd P ep (pfd_fd p) (pfd_event (pfd_synced p)) w = (Ok (), w1)"
      and rest: "update_existing (update_fd P ep) ps w1 = (Ok u, ps1, w')"
      using Cons.prems(1) by (auto simp: pfd_apply_updates_eq split: prod.splits io_result.splits)
    note k = epoll_lawsD(2,6) [OF laws w1 [unfolded update_fd_def]]
    have "\<forall>q \<in> set ps. kv_interest K w1 (pfd_fd q) = Some (pfd_event q)"
      using Cons.prems(2,3) k(1) by (auto simp: image_iff)
    then have "kv_interest K w' = kv_interest K w1 ++ synced_events ps \<and> kv_opened K w' = kv_opened K w1"
      using Cons.IH [OF rest] Cons.prems(2) by simp
    then show ?thesis
      unfolding synced_events_simps map_add_fresh [OF fresh, symmetric] k .
  qed
qed simp

lemma add_fd_Ok:
  assumes "add_fd P ep fd es w = (Ok p, w')"
  shows "epoll_ctl P ep EPOLL_CTL_ADD fd (event_new es (fd_data fd)) w = (Ok (), w')"
    "p = polled_fd_new (plat_events P) fd (event_new es (fd_data fd))"
  using assms by (auto simp: add_fd_def Let_def split: prod.splits io_result.splits)

lemma add_new_kernel:
  assumes laws: "kernel_laws P ep K"
  shows "add_new (add_fd P ep) ns ex w = (Ok u, ex', w') \<Longrightarrow> distinct (map fst ns) \<Longrightarrow>
    kv_interest K w' = kv_interest K w ++ added_events ns \<and> kv_opened K w' = kv_opened K w"
proof (induction ns arbitrary: w ex)
  case (Cons n ns)
  obtain fd es where n: "n = (fd, es)" by fastforce
  have fresh: "fd \<notin> dom (added_events ns)"
    using Cons.prems(2) n by (simp add: dom_added_events)
  obtain w1 p where w1: "add_fd P ep fd es w = (Ok p, w1)"
    and rest: "add_new (add_fd P ep) ns (ex @ [p]) w1 = (Ok u, ex', w')"
    using Cons.prems(1) n by (auto split: prod.splits io_result.splits)
  note k = epoll_lawsD(1,6) [OF laws add_fd_Ok(1) [OF w1]]
  have "kv_interest K w' = kv_interest K w1 ++ added_events ns \<and> kv_opened K w' = kv_opened K w1"
    using Cons.IH [OF rest] Cons.prems(2) by simp
  then show ?case
    unfolding n added_events_simps map_add_fresh [OF fresh, symmetric] k .
qed simp

lemma delete_removed_kernel:
  assumes laws: "kernel_laws P ep K"
  shows "delete_removed (delete_fd P ep) fds w = (Ok u, w') \<Longrightarrow>
    kv_interest K w' = kv_interest K w |` (- set fds) \<and> kv_opened K w' = kv_opened K w"
proof (induction fds arbitrary: w)
  case (Cons fd fds)
  obtain w1 where w1: "delete_fd P ep fd w = (Ok (), w1)"
    and rest: "delete_removed (delete_fd P ep) fds w1 = (Ok u, w')"
    using Cons.prems by (auto split: prod.splits io_result.splits)
  show ?case
    using Cons.IH [OF rest] epoll_lawsD(3,6) [OF laws w1 [unfolded delete_fd_def]]
    by (auto simp: restrict_map_def fun_eq_iff)
qed (simp add: restrict_map_def)

lemma synced_events_tagged:
  "(\<And>p. p \<in> set ps \<Longrightarrow> event_data (pfd_event p) = fd_data (pfd_fd p)) \<Longrightarrow>
     synced_events ps fd = map_option (\<lambda>es. event_new es (fd_data fd)) (map_of (map (\<lambda>p. (pfd_fd p, new_events p)) ps) fd)"
  by (induction ps) (auto simp: pfd_synced_def event_new_def)

lemma added_events_tagged: "added_events ns fd = map_option (\<lambda>es. event_new es (fd_data fd)) (map_of ns fd)"
  by (induction ns) auto

text \<open>The descriptor set after a successful update.\<close>

definition settled_set :: "'w platform \<Rightarrow> PolledFdSet \<Rightarrow> PolledFdSet" where
  "settled_set P s = \<lparr>existing = map pfd_synced (existing s) @
     map (\<lambda>(fd, es). polled_fd_new (plat_events P) fd (event_new es (fd_data fd))) (new s), new = [], removed = []\<rparr>"

lemma applied_settled:
  assumes "syncable K s w"
  shows "applied (settled_set P s) = added_events (new s) ++ synced_events (existing s)"
    and "applied (settled_set P s) = (\<lambda>fd. map_option (\<lambda>es. event_new es (fd_data fd)) (requested s fd))"
proof -
  show 1: "applied (settled_set P s) = added_events (new s) ++ synced_events (existing s)"
    by (simp add: applied_def settled_set_def added_events_def synced_events_def polled_fd_new_def o_def
        case_prod_unfold)
  have "applied s (pfd_fd p) = Some (pfd_event p)" if "p \<in> set (existing s)" for p
    using assms that unfolding applied_def
    by (intro map_of_is_SomeI) (auto simp: syncable_def reg_inv_def o_def)
  then have "event_data (pfd_event p) = fd_data (pfd_fd p)" if "p \<in> set (existing s)" for p
    using assms that unfolding syncable_def by blast
  then show "applied (settled_set P s) = (\<lambda>fd. map_option (\<lambda>es. event_new es (fd_data fd)) (requested s fd))"
    unfolding 1
    by (auto simp: fun_eq_iff map_add_def synced_events_tagged added_events_tagged requested_def requests_def
        split: option.splits)
qed

lemma settled_set_requests:
  assumes inv: "reg_inv s" and E: "events_laws (plat_events P)"
  shows "reg_inv (settled_set P s)" "processed (settled_set P s) = dom (requested s)" "gone (settled_set P s) = {}"
    "dom (requested (settled_set P s)) = dom (requested s)"
    "wants_read (plat_events P) (requested (settled_set P s)) = wants_read (plat_events P) (requested s)"
    "wants_write (plat_events P) (requested (settled_set P s)) = wants_write (plat_events P) (requested s)"
proof -
  let ?E = "plat_events P"
  show "reg_inv (settled_set P s)"
    using inv by (simp add: reg_inv_def settled_set_def polled_fd_new_def o_def case_prod_unfold cong: map_cong)
  show pr: "processed (settled_set P s) = dom (requested s)"
    unfolding dom_requested
    by (simp add: processed_def settled_set_def polled_fd_new_def image_Un image_image case_prod_unfold)
  then show "dom (requested (settled_set P s)) = dom (requested s)"
    using dom_requested [of "settled_set P s"] by (simp add: settled_set_def)
  show "gone (settled_set P s) = {}" by (simp add: gone_def settled_set_def)
  have new: "map_of (map (\<lambda>n. (fst n, from_bits_truncate ?E (snd n))) ns) fd =
      map_option (from_bits_truncate ?E) (map_of ns fd)" for ns :: "(RawFd \<times> Events) list" and fd
    by (induction ns) auto
  have reqs: "requests (settled_set P s) = map (\<lambda>p. (pfd_fd p, new_events p)) (existing s) @
      map (\<lambda>n. (fst n, from_bits_truncate ?E (snd n))) (new s)"
    by (simp add: requests_def settled_set_def polled_fd_new_def event_new_def o_def case_prod_unfold)
  have req: "requested (settled_set P s) fd =
      (case map_of (map (\<lambda>p. (pfd_fd p, new_events p)) (existing s)) fd of
         Some es \<Rightarrow> Some es | None \<Rightarrow> map_option (from_bits_truncate ?E) (map_of (new s) fd))" for fd
    by (cases "map_of (map (\<lambda>p. (pfd_fd p, new_events p)) (existing s)) fd")
      (simp_all add: requested_def reqs map_add_def new)
  have old: "requested s fd =
      (case map_of (map (\<lambda>p. (pfd_fd p, new_events p)) (existing s)) fd of
         Some es \<Rightarrow> Some es | None \<Rightarrow> map_of (new s) fd)" for fd
    by (simp add: requested_def requests_def map_add_def)
  have "wants ?E (requested (settled_set P s)) fd f = wants ?E (requested s) fd f" if "f \<in> ev_flags ?E" for fd f
    by (cases "map_of (map (\<lambda>p. (pfd_fd p, new_events p)) (existing s)) fd"; cases "map_of (new s) fd")
      (simp_all add: wants_def req old events_lawsD(7) [OF E that])
  then show "wants_read ?E (requested (settled_set P s)) = wants_read ?E (requested s)"
    "wants_write ?E (requested (settled_set P s)) = wants_write ?E (requested s)"
    using events_lawsD(2,3) [OF E] by (simp_all add: fun_eq_iff wants_read_def wants_write_def)
qed

lemma settled_interest:
  assumes sync: "syncable K s w"
  shows "(kv_interest K w ++ synced_events (existing s) ++ added_events (new s)) |` (- gone s) =
    added_events (new s) ++ synced_events (existing s) ++ kv_foreign K"
proof
  fix x
  have g: "gone s \<inter> dom (requested s) = {}" and f: "dom (kv_foreign K) \<inter> dom (requested s) = {}"
      "dom (kv_foreign K) \<inter> gone s = {}"
    and k: "x \<notin> gone s \<Longrightarrow> kv_interest K w x = (applied s ++ kv_foreign K) x" and inv: "reg_inv s"
    using sync by (simp_all add: syncable_def)
  have doms: "dom (synced_events (existing s)) = processed s" "dom (added_events (new s)) = fst ` set (new s)"
    by (simp_all add: dom_synced_events dom_added_events processed_def)
  have disj: "processed s \<inter> fst ` set (new s) = {}"
    using inv by (auto simp: reg_inv_def processed_def)
  consider (gone) "x \<in> gone s" | (old) "x \<notin> gone s" "x \<in> processed s" | (new) "x \<notin> gone s" "x \<in> fst ` set (new s)"
    | (other) "x \<notin> gone s" "x \<notin> dom (requested s)"
    using dom_requested [of s] by blast
  then show "((kv_interest K w ++ synced_events (existing s) ++ added_events (new s)) |` (- gone s)) x =
      (added_events (new s) ++ synced_events (existing s) ++ kv_foreign K) x"
  proof cases
    case gone
    then have "x \<notin> dom (requested s)" "x \<notin> dom (kv_foreign K)" using g f(2) by blast+
    then have "x \<notin> dom (synced_events (existing s))" "x \<notin> dom (added_events (new s))" "x \<notin> dom (kv_foreign K)"
      unfolding doms dom_requested by blast+
    then show ?thesis using gone by (simp add: map_add_def domIff)
  next
    case old
    then have "x \<notin> dom (kv_foreign K)" "x \<notin> dom (added_events (new s))" "x \<in> dom (synced_events (existing s))"
      using f(1) disj unfolding doms dom_requested by blast+
    then show ?thesis using old by (auto simp: map_add_def domIff)
  next
    case new
    then have "x \<notin> dom (kv_foreign K)" "x \<in> dom (added_events (new s))" "x \<notin> dom (synced_events (existing s))"
      using f(1) disj unfolding doms dom_requested by blast+
    then show ?thesis using new by (auto simp: map_add_def domIff)
  next
    case other
    then have "applied s x = None" "x \<notin> dom (added_events (new s))" "x \<notin> dom (synced_events (existing s))"
      using processed_requested [of s] dom_applied [of s] unfolding doms dom_requested by blast+
    moreover have "kv_interest K w x = (applied s ++ kv_foreign K) x" using k other by blast
    ultimately show ?thesis using other by (simp add: map_add_def domIff split: option.split)
  qed
qed

lemma apply_poll_updates_settles:
  assumes laws: "kernel_laws P (poll_fd p) K" and sync: "syncable K (fd_set p) w"
    and run: "apply_poll_updates P p w = (Ok u, p', w')"
  shows "p' = p\<lparr>fd_set := fd_set p'\<rparr> \<and> settled_as (plat_events P) K (fd_set p) (fd_set p') w w'"
proof -
  let ?s = "fd_set p" and ?ep = "poll_fd p"
  note sy = sync [unfolded syncable_def]
  from run obtain s' where up: "apply_updates (add_fd P ?ep) (update_fd P ?ep) (delete_fd P ?ep) ?s w = (Ok u, s', w')"
    and p': "p' = p\<lparr>fd_set := s'\<rparr>"
    by (auto simp: apply_poll_updates_def split: prod.splits)
  have s': "s' = settled_set P ?s"
    using apply_updates_Ok [OF add_fd_Ok(2) up] by (simp add: settled_set_def)
  from up obtain ex1 w1 ex2 w2 where
    w1: "update_existing (update_fd P ?ep) (existing ?s) w = (Ok (), ex1, w1)" and
    w2: "add_new (add_fd P ?ep) (new ?s) ex1 w1 = (Ok (), ex2, w2)" and
    w3: "delete_removed (delete_fd P ?ep) (removed ?s) w2 = (Ok u, w')"
    by (auto simp: apply_updates_def split: prod.splits io_result.splits)
  have d: "distinct (map pfd_fd (existing ?s))" "distinct (map fst (new ?s))"
    using sy by (simp_all add: reg_inv_def)
  have "kv_interest K w (pfd_fd q) = Some (pfd_event q)" if q: "q \<in> set (existing ?s)" for q
  proof -
    have "applied ?s (pfd_fd q) = Some (pfd_event q)"
      unfolding applied_def using q d(1) by (intro map_of_is_SomeI) (auto simp: o_def)
    moreover have dq: "pfd_fd q \<in> dom (requested ?s)"
      using q processed_requested [of ?s] by (auto simp: processed_def)
    moreover have "pfd_fd q \<notin> gone ?s" "kv_foreign K (pfd_fd q) = None"
      using sy dq by blast+
    ultimately show ?thesis
      using sy by (simp add: map_add_def)
  qed
  then have k: "kv_interest K w' = (kv_interest K w ++ synced_events (existing ?s) ++ added_events (new ?s)) |` (- gone ?s)"
    "kv_opened K w' = kv_opened K w"
    using update_existing_kernel [OF laws w1 d(1)] add_new_kernel [OF laws w2 d(2)] delete_removed_kernel [OF laws w3]
    by (simp_all add: gone_def)
  have "kv_interest K w' = applied s' ++ kv_foreign K"
    unfolding k(1) s' applied_settled(1) [OF sync] by (rule settled_interest [OF sync])
  then show ?thesis
    unfolding settled_as_def p'
    using settled_set_requests [OF conjunct1 [OF sy] kernel_lawsD(3) [OF laws]] k(2) applied_settled(2) [OF sync]
    by (simp add: s')
qed

section \<open>The kernel polls what was asked for\<close>

definition polled_as_requested :: "events_api \<Rightarrow> 'w kernel_view \<Rightarrow> PolledFdSet \<Rightarrow> 'w \<Rightarrow> bool" where
  "polled_as_requested E K s w \<longleftrightarrow> processed s = dom (requested s) \<and> gone s = {} \<and>
     (\<forall>fd \<in> dom (requested s). \<exists>ev. kv_interest K w fd = Some ev \<and> event_data ev = fd_data fd \<and>
        (ev_contains E (events ev) (EPOLLIN E) \<longleftrightarrow> wants_read E (requested s) fd) \<and>
        (ev_contains E (events ev) (EPOLLOUT E) \<longleftrightarrow> wants_write E (requested s) fd))"

lemma settled_polled:
  assumes sync: "syncable K s w" and settled: "settled_as E K s s' w w'"
  shows "polled_as_requested E K s' w'"
  unfolding polled_as_requested_def
proof (intro conjI ballI)
  note st = settled [unfolded settled_as_def]
  show "processed s' = dom (requested s')" "gone s' = {}" using st by simp_all
  fix fd
  assume "fd \<in> dom (requested s')"
  then obtain es where es: "requested s fd = Some es" using st by auto
  then have "fd \<notin> dom (kv_foreign K)" using sync by (auto simp: syncable_def)
  then have i: "kv_interest K w' fd = Some (event_new es (fd_data fd))"
    using st es by (simp add: map_add_def domIff)
  have "wants_read E (requested s') fd = ev_contains E es (EPOLLIN E)"
    "wants_write E (requested s') fd = ev_contains E es (EPOLLOUT E)"
    using st es by (simp_all add: wants_read_def wants_write_def wants_def)
  then show "\<exists>ev. kv_interest K w' fd = Some ev \<and> event_data ev = fd_data fd \<and>
      (ev_contains E (events ev) (EPOLLIN E) \<longleftrightarrow> wants_read E (requested s') fd) \<and>
      (ev_contains E (events ev) (EPOLLOUT E) \<longleftrightarrow> wants_write E (requested s') fd)"
    using i by (simp add: event_new_def)
qed

text \<open>A successful \<^verbatim>\<open>epoll::create\<close> opens a descriptor and starts with an empty interest list; \<open>K\<close> views
  the instance it returns.\<close>

definition creates_epoll :: "'w platform \<Rightarrow> 'w kernel_view \<Rightarrow> 'w \<Rightarrow> bool" where
  "creates_epoll P K w \<longleftrightarrow> (\<forall>ep w1. epoll_create P True w = (Ok ep, w1) \<longrightarrow>
     kernel_laws P ep K \<and> kv_opened K w1 = insert ep (kv_opened K w) \<and> kv_interest K w1 = Map.empty)"

section \<open>What a batch of events preserves\<close>

text \<open>Whatever the three handlers of a manager preserve is preserved by the events of a batch.\<close>

definition handler_preserves :: "('m \<Rightarrow> PolledFdSet \<Rightarrow> 'w \<Rightarrow> bool) \<Rightarrow> ('m, 'w) handler \<Rightarrow> bool" where
  "handler_preserves I h \<longleftrightarrow>
     (\<forall>fd m s w r m' s' w'. I m s w \<longrightarrow> h fd m s w = Some (r, m', s', w') \<longrightarrow> I m' s' w')"

definition handlers_preserve ::
  "('m, 'w) ChannelManager \<Rightarrow> ('m \<Rightarrow> PolledFdSet \<Rightarrow> 'w \<Rightarrow> bool) \<Rightarrow> bool" where
  "handlers_preserve cm I \<longleftrightarrow> handler_preserves I (cm_on_readable cm) \<and>
     handler_preserves I (cm_on_writable cm) \<and> handler_preserves I (cm_on_hangup cm)"

lemma handler_preservesD:
  "handler_preserves I h \<Longrightarrow> I m s w \<Longrightarrow> h fd m s w = Some (r, m', s', w') \<Longrightarrow> I m' s' w'"
  unfolding handler_preserves_def by metis

lemma handler_preserves_call_if: "handler_preserves I h \<Longrightarrow> handler_preserves I (call_if b h)"
  by (cases b) (auto simp: handler_preserves_def call_if_def)

lemma and_then_preserves:
  assumes "and_then x k = Some (r, m', s', w')"
    and "\<And>r m s w. x = Some (r, m, s, w) \<Longrightarrow> I m s w"
    and "\<And>m s w. I m s w \<Longrightarrow> k m s w = Some (r, m', s', w') \<Longrightarrow> I m' s' w'"
  shows "I m' s' w'"
  using assms by (auto simp: and_then_def split: bind_splits io_result.splits)

lemma dispatch_preserves:
  assumes h: "handlers_preserve cm I" and inv: "I m s w"
    and run: "dispatch P cm actions fd m s w = Some (r, m', s', w')"
  shows "I m' s' w'"
proof -
  have keep: "handler_preserves I (call_if b (cm_on_readable cm))" "handler_preserves I (call_if b (cm_on_writable cm))"
    "handler_preserves I (call_if b (cm_on_hangup cm))" for b
    using h by (simp_all add: handlers_preserve_def handler_preserves_call_if)
  show ?thesis
    using run unfolding dispatch_def Let_def
  proof (rule and_then_preserves [where I = I])
    show "I m1 s1 w1" if "call_if b (cm_on_readable cm) fd m s w = Some (x, m1, s1, w1)" for b x m1 s1 w1
      by (rule handler_preservesD [OF keep(1) inv that])
  next
    fix m1 s1 w1
    assume 1: "I m1 s1 w1" and "and_then (call_if (ev_contains (plat_events P) actions (EPOLLOUT (plat_events P)))
        (cm_on_writable cm) fd m1 s1 w1)
      (call_if (ev_contains (plat_events P) actions (EPOLLERR (plat_events P)) \<or>
        ev_contains (plat_events P) actions (EPOLLHUP (plat_events P))) (cm_on_hangup cm) fd) = Some (r, m', s', w')"
    from this(2) show "I m' s' w'"
      by (rule and_then_preserves [where I = I])
        (erule handler_preservesD [OF keep(2) 1], erule (1) handler_preservesD [OF keep(3)])
  qed
qed

lemma process_events_preserves:
  assumes h: "handlers_preserve cm I"
  shows "I m s w \<Longrightarrow> process_events P cm cfd evs fin m s w = Some (r, m', s', w') \<Longrightarrow> I m' s' w'"
proof (induction evs arbitrary: fin m s w)
  case (Cons e evs)
  then obtain event where e: "e = Some event" by (cases e) simp_all
  let ?fd = "data_fd (event_data event)"
  show ?case
  proof (cases "?fd = cfd")
    case True
    then show ?thesis using Cons e by (simp add: Let_def)
  next
    case False
    then obtain r1 m1 s1 w1 where
      d: "dispatch P cm (from_bits_truncate (plat_events P) (events event)) ?fd m s w = Some (r1, m1, s1, w1)"
      using Cons.prems(2) e by (auto simp: Let_def split: bind_splits)
    have "I m1 s1 w1" by (rule dispatch_preserves [OF h Cons.prems(1) d])
    then show ?thesis
      using Cons.IH Cons.prems(2) e False d by (cases r1) (auto simp: Let_def)
  qed
qed simp

text \<open>A property of the world that \<^verbatim>\<open>epoll_ctl\<close> preserves holds after \<^verbatim>\<open>apply_poll_updates\<close>.\<close>

lemma apply_poll_updates_preserves:
  assumes ctl: "\<And>op fd ev w. Q w \<Longrightarrow> Q (snd (epoll_ctl P (poll_fd p) op fd ev w))"
    and run: "apply_poll_updates P p w = (r, p', w')" and "Q w"
  shows "Q w'"
proof -
  let ?ep = "poll_fd p"
  have upd: "Q w2" if "Q w1" "update_fd P ?ep fd ev w1 = (x, w2)" for fd ev w1 w2 x
    using ctl [OF that(1)] that(2) unfolding update_fd_def by (metis snd_conv)
  have add: "Q w2" if "Q w1" "add_fd P ?ep fd es w1 = (x, w2)" for fd es w1 w2 x
    using ctl [OF that(1), of EPOLL_CTL_ADD fd "event_new es (fd_data fd)"] that(2)
    by (auto simp: add_fd_def Let_def split: prod.splits io_result.splits)
  have del: "Q w2" if "Q w1" "delete_fd P ?ep fd w1 = (x, w2)" for fd w1 w2 x
    using ctl [OF that(1)] that(2) unfolding delete_fd_def by (metis snd_conv)
  have up: "Q w2" if "Q w1" "update_existing (update_fd P ?ep) ps w1 = (x, ps', w2)" for ps w1 x ps' w2
    using that
  proof (induction ps arbitrary: w1 ps')
    case (Cons q ps)
    then show ?case
      by (auto split: prod.splits option.splits io_result.splits dest: upd)
  qed simp
  have new: "Q w2" if "Q w1" "add_new (add_fd P ?ep) ns ex w1 = (x, ex', w2)" for ns ex w1 x ex' w2
    using that
  proof (induction ns arbitrary: w1 ex)
    case (Cons n ns)
    then show ?case
      by (cases n) (auto split: prod.splits io_result.splits dest: add)
  qed simp
  have rem: "Q w2" if "Q w1" "delete_removed (delete_fd P ?ep) fds w1 = (x, w2)" for fds w1 x w2
    using that
  proof (induction fds arbitrary: w1)
    case (Cons fd fds)
    then show ?case by (auto split: prod.splits io_result.splits dest: del)
  qed simp
  obtain x1 ex1 w1 where 1: "update_existing (update_fd P ?ep) (existing (fd_set p)) w = (x1, ex1, w1)"
    by (metis prod_cases3)
  obtain x2 ex2 w2 where 2: "add_new (add_fd P ?ep) (new (fd_set p)) ex1 w1 = (x2, ex2, w2)"
    by (metis prod_cases3)
  obtain x3 w3 where 3: "delete_removed (delete_fd P ?ep) (removed (fd_set p)) w2 = (x3, w3)" by fastforce
  have "Q w1" by (rule up [OF assms(3) 1])
  moreover from this have "Q w2" by (rule new [OF _ 2])
  moreover from this have "Q w3" by (rule rem [OF _ 3])
  moreover have "w' \<in> {w1, w2, w3}"
    using run 1 2 3 by (cases x1; cases x2) (auto simp: apply_poll_updates_def apply_updates_def)
  ultimately show ?thesis by blast
qed

section \<open>The contract of a channel manager\<close>

locale channel_manager =
  fixes cm :: "'w platform \<Rightarrow> ('m, 'w) ChannelManager"
    and minv :: "'w platform \<Rightarrow> 'w kernel_view \<Rightarrow> 'm \<Rightarrow> PolledFdSet \<Rightarrow> 'w \<Rightarrow> bool"
    and startable :: "'w platform \<Rightarrow> 'w kernel_view \<Rightarrow> 'm \<Rightarrow> 'w \<Rightarrow> bool"
  assumes on_readable_keeps: "kernel_laws P ep K \<Longrightarrow> minv P K m s w \<Longrightarrow>
      cm_on_readable (cm P) fd m s w = Some (r, m', s', w') \<Longrightarrow> minv P K m' s' w'"
    and on_writable_keeps: "kernel_laws P ep K \<Longrightarrow> minv P K m s w \<Longrightarrow>
      cm_on_writable (cm P) fd m s w = Some (r, m', s', w') \<Longrightarrow> minv P K m' s' w'"
    and on_hangup_keeps: "kernel_laws P ep K \<Longrightarrow> minv P K m s w \<Longrightarrow>
      cm_on_hangup (cm P) fd m s w = Some (r, m', s', w') \<Longrightarrow> minv P K m' s' w'"
    and minv_syncable: "minv P K m s w \<Longrightarrow> syncable K s w"
    and minv_settled: "minv P K m s w \<Longrightarrow> settled_as (plat_events P) K s s' w w' \<Longrightarrow> minv P K m s' w'"
    and minv_world: "minv P K m s w \<Longrightarrow> kv_opened K w' = kv_opened K w \<Longrightarrow>
      kv_interest K w' = kv_interest K w \<Longrightarrow> minv P K m s w'"
    and startable_mono: "startable P K m w \<Longrightarrow> kv_opened K w \<subseteq> kv_opened K w' \<Longrightarrow> startable P K m w'"
    and initialize_law: "kernel_laws P ep K \<Longrightarrow> startable P K m w \<Longrightarrow> kv_interest K w = kv_foreign K \<Longrightarrow>
      \<exists>m' s'. cm_initialize (cm P) m fd_set_new w = Some (m', s', w) \<and> syncable K s' w \<and>
        (\<forall>s'' w''. settled_as (plat_events P) K s' s'' w w'' \<longrightarrow> minv P K m' s'' w'')"
begin

lemma handlers_keep: "kernel_laws P ep K \<Longrightarrow> handlers_preserve (cm P) (minv P K)"
  unfolding handlers_preserve_def handler_preserves_def
  using on_readable_keeps on_writable_keeps on_hangup_keeps by metis

lemmas process_events_keeps = process_events_preserves [OF handlers_keep]

text \<open>An iteration that continues keeps the manager's invariant and leaves the kernel polling
  exactly what the manager asked for.\<close>

lemma iteration_keeps:
  assumes laws: "kernel_laws P (poll_fd p) K" and inv: "minv P K (channel_mgr p) (fd_set p) w"
    and pol: "polled_as_requested (plat_events P) K (fd_set p) w"
    and run: "run_iteration P (cm P) p w = Some (Continue, p', w')"
  shows "poll_fd p' = poll_fd p \<and> close_fd p' = close_fd p \<and> minv P K (channel_mgr p') (fd_set p') w' \<and>
    polled_as_requested (plat_events P) K (fd_set p') w'"
proof -
  obtain res evs w1 where wait: "epoll_wait P (poll_fd p) (-1) (poll_events p) w = ((res, evs), w1)"
    by (metis surj_pair)
  have w1: "kv_opened K w1 = kv_opened K w" "kv_interest K w1 = kv_interest K w"
    using epoll_lawsD(4,5) [OF laws, of "-1" "poll_events p" w] wait by simp_all
  note inv1 = minv_world [OF inv w1]
  obtain n where n: "wait_result res = Ok n"
    using run wait by (cases "wait_result res") (simp_all add: run_iteration_def Let_def)
  obtain r m s w2 where pe: "process_events P (cm P) (close_fd p) (first_events n evs) False
      (channel_mgr p) (fd_set p) w1 = Some (r, m, s, w2)"
    using run wait n by (auto simp: run_iteration_def Let_def split: bind_splits)
  let ?p = "p\<lparr>poll_events := evs, channel_mgr := m, fd_set := s\<rparr>"
  have inv2: "minv P K m s w2" by (rule process_events_keeps [OF laws inv1 pe])
  have r: "r = Ok False"
    using run wait n pe by (auto simp: run_iteration_def Let_def split: io_result.splits bool.splits)
  show ?thesis
  proof (cases "n > 0")
    case True
    then have ap: "apply_poll_updates P ?p w2 = (Ok (), p', w')"
      using run wait n pe r by (auto simp: run_iteration_def Let_def split: io_result.splits prod.splits)
    have "kernel_laws P (poll_fd ?p) K" "syncable K (fd_set ?p) w2"
      using laws minv_syncable [OF inv2] by simp_all
    from apply_poll_updates_settles [OF this ap]
    have p': "p' = ?p\<lparr>fd_set := fd_set p'\<rparr>" and st: "settled_as (plat_events P) K s (fd_set p') w2 w'"
      by simp_all
    have "poll_fd p' = poll_fd p" "close_fd p' = close_fd p" "channel_mgr p' = m"
      by (subst p', simp)+
    then show ?thesis
      using minv_settled [OF inv2 st] settled_polled [OF minv_syncable [OF inv2] st] by simp
  next
    case False
    then have "m = channel_mgr p" "s = fd_set p" "w2 = w1"
      using pe by (simp_all add: first_events_def)
    moreover from this have "p' = p\<lparr>poll_events := evs\<rparr>" "w' = w1"
      using run wait n pe r False by (auto simp: run_iteration_def Let_def)
    ultimately show ?thesis
      using inv2 pol w1 by (simp add: polled_as_requested_def)
  qed
qed

text \<open>The constructor does not panic, and when it succeeds the loop starts in such a state.\<close>

lemma new_establishes:
  assumes create: "creates_epoll P K w" and start: "startable P K m w"
    and foreign: "kv_foreign K = [cfd \<mapsto> event_new (EPOLLIN (plat_events P)) (fd_data cfd)]"
  shows "\<exists>r w'. pollster_new P (cm P) m cfd w = Some (r, w') \<and> (\<forall>p. r = Ok p \<longrightarrow>
    kernel_laws P (poll_fd p) K \<and> close_fd p = cfd \<and> minv P K (channel_mgr p) (fd_set p) w' \<and>
    polled_as_requested (plat_events P) K (fd_set p) w')"
proof -
  obtain r1 w1 where c: "epoll_create P True w = (r1, w1)" by fastforce
  show ?thesis
  proof (cases r1)
    case (Err e)
    then show ?thesis using c by (simp add: pollster_new_def)
  next
    case (Ok ep)
    then have laws: "kernel_laws P ep K" and k1: "kv_opened K w1 = insert ep (kv_opened K w)" "kv_interest K w1 = Map.empty"
      using create c by (simp_all add: creates_epoll_def)
    obtain r2 w2 where a: "epoll_ctl P ep EPOLL_CTL_ADD cfd (event_new (EPOLLIN (plat_events P)) (fd_data cfd)) w1 = (r2, w2)"
      by fastforce
    show ?thesis
    proof (cases r2)
      case (Err e)
      then show ?thesis using c Ok a by (simp add: pollster_new_def)
    next
      case (Ok u)
      have k2: "kv_opened K w2 = kv_opened K w1" "kv_interest K w2 = kv_foreign K"
        using epoll_lawsD(1,6) [OF laws] a Ok k1(2) foreign by simp_all
      have "startable P K m w2"
        by (rule startable_mono [OF start]) (use k1 k2 in auto)
      from initialize_law [OF laws this k2(2)] obtain m' s' where
        i: "cm_initialize (cm P) m fd_set_new w2 = Some (m', s', w2)" "syncable K s' w2"
          "\<And>s'' w''. settled_as (plat_events P) K s' s'' w2 w'' \<Longrightarrow> minv P K m' s'' w''"
        by blast
      let ?p = "\<lparr>poll_fd = ep, close_fd = cfd, poll_events = replicate POLLSTER_MAX_FDS
        (event_new (ev_empty (plat_events P)) 0), fd_set = s', channel_mgr = m'\<rparr>"
      obtain r3 p3 w3 where u: "apply_poll_updates P ?p w2 = (r3, p3, w3)" by (metis prod_cases3)
      show ?thesis
      proof (cases r3)
        case (Err e)
        then show ?thesis using c \<open>r1 = Ok ep\<close> a Ok i(1) u by (simp add: pollster_new_def Let_def)
      next
        case (Ok u')
        have "kernel_laws P (poll_fd ?p) K" "syncable K (fd_set ?p) w2" using laws i(2) by simp_all
        from apply_poll_updates_settles [OF this u [unfolded Ok]]
        have p3: "p3 = ?p\<lparr>fd_set := fd_set p3\<rparr>" and st: "settled_as (plat_events P) K s' (fd_set p3) w2 w3"
          by simp_all
        have f: "poll_fd p3 = ep" "close_fd p3 = cfd" "channel_mgr p3 = m'" by (subst p3, simp)+
        have "pollster_new P (cm P) m cfd w = Some (Ok p3, w3)"
          using c \<open>r1 = Ok ep\<close> a \<open>r2 = Ok u\<close> i(1) u Ok by (simp add: pollster_new_def Let_def)
        then show ?thesis
          using laws f i(3) [OF st] settled_polled [OF i(2) st] by simp
      qed
    qed
  qed
qed

end

section \<open>The loop\<close>

text \<open>The states between two iterations that \<^verbatim>\<open>run\<close> goes through.\<close>

inductive reaches ::
  "'w platform \<Rightarrow> ('m, 'w) ChannelManager \<Rightarrow> 'm Pollster \<Rightarrow> 'w \<Rightarrow> 'm Pollster \<Rightarrow> 'w \<Rightarrow> bool" for P cm p0 w0 where
  reaches_refl: "reaches P cm p0 w0 p0 w0"
| reaches_step: "reaches P cm p0 w0 p w \<Longrightarrow> run_iteration P cm p w = Some (Continue, p', w') \<Longrightarrow>
    reaches P cm p0 w0 p' w'"

lemma run_reaches: "reaches P cm p0 w0 p w \<Longrightarrow> run P cm p0 w0 = run P cm p w"
proof (induction rule: reaches.induct)
  case (reaches_step p w p' w')
  then show ?case using run.simps [of P cm p w] by simp
qed simp

lemma reaches_cons:
  assumes "reaches P cm p1 w1 q v" and "run_iteration P cm p w = Some (Continue, p1, w1)"
  shows "reaches P cm p w q v"
  using assms by (induction rule: reaches.induct) (blast intro: reaches.intros)+

text \<open>\<open>run\<close> ends exactly when an iteration it reaches returns or panics.\<close>

definition loop_ends ::
  "'w platform \<Rightarrow> ('m, 'w) ChannelManager \<Rightarrow> 'm Pollster \<Rightarrow> 'w \<Rightarrow> (unit io_result \<times> 'm Pollster \<times> 'w) option \<Rightarrow> bool" where
  "loop_ends P cm p0 w0 res \<longleftrightarrow> (\<exists>p w. reaches P cm p0 w0 p w \<and>
     (case res of
        None \<Rightarrow> run_iteration P cm p w = None
      | Some (r, p', w') \<Rightarrow> run_iteration P cm p w = Some (Return r, p', w')))"

lemma loop_ends_unfold:
  assumes IH: "\<And>P cm p w res. f P cm p w = Some res \<Longrightarrow> loop_ends P cm p w res"
    and eq: "(case run_iteration P cm p w of
        None \<Rightarrow> Some None
      | Some (Continue, p', w') \<Rightarrow> f P cm p' w'
      | Some (Return r, p', w') \<Rightarrow> Some (Some (r, p', w'))) = Some res"
  shows "loop_ends P cm p w res"
proof -
  consider "run_iteration P cm p w = None" | r p' w' where "run_iteration P cm p w = Some (Return r, p', w')"
    | p' w' where "run_iteration P cm p w = Some (Continue, p', w')"
    by (metis control.exhaust not_None_eq prod_cases3)
  then show ?thesis
  proof cases
    case 3
    then have "loop_ends P cm p' w' res" using eq IH by simp
    then show ?thesis unfolding loop_ends_def using reaches_cons [OF _ 3] by blast
  qed (use eq in \<open>auto simp: loop_ends_def intro!: exI [of _ p] exI [of _ w] reaches_refl\<close>)
qed

lemma run_ends:
  assumes "run P cm p w = Some res"
  shows "loop_ends P cm p w res"
proof -
  let ?Q = "\<lambda>(((P, cm), p), w) res. loop_ends P cm p w res"
  have "?Q (((P, cm), p), w) res"
  proof (rule run.raw_induct [where Pa = ?Q, OF _ assms])
    fix f P cm p w res
    assume IH: "\<And>P cm p w res. f P cm p w = Some res \<Longrightarrow> ?Q (((P, cm), p), w) res"
      and eq: "(case run_iteration P cm p w of
          None \<Rightarrow> Some None
        | Some (Continue, p', w') \<Rightarrow> f P cm p' w'
        | Some (Return r, p', w') \<Rightarrow> Some (Some (r, p', w'))) = Some res"
    show "?Q (((P, cm), p), w) res"
      using loop_ends_unfold [where f = f and P = P and cm = cm and p = p and w = w and res = res, OF _ eq] IH by simp
  qed
  then show ?thesis by simp
qed

lemma run_iff_ends: "run P cm p w = Some res \<longleftrightarrow> loop_ends P cm p w res"
proof
  assume "loop_ends P cm p w res"
  then obtain q v where q: "reaches P cm p w q v" and it: "case res of
      None \<Rightarrow> run_iteration P cm q v = None | Some (r, p', w') \<Rightarrow> run_iteration P cm q v = Some (Return r, p', w')"
    unfolding loop_ends_def by blast
  have "run P cm q v = Some res"
    using it by (subst run.simps) (auto split: option.splits)
  then show "run P cm p w = Some res" using run_reaches [OF q] by simp
qed (rule run_ends)

lemma process_events_final:
  "process_events P cm cfd evs fin m s w = Some (Ok f, m', s', w') \<Longrightarrow>
     f \<longleftrightarrow> fin \<or> (\<exists>ev. Some ev \<in> set evs \<and> data_fd (event_data ev) = cfd)"
proof (induction evs arbitrary: fin m s w)
  case (Cons e evs)
  then obtain event where e: "e = Some event" by (cases e) simp_all
  then show ?case
    using Cons by (auto simp: Let_def split: if_splits bind_splits io_result.splits) blast+
qed simp

definition close_reported :: "RawFd \<Rightarrow> nat \<Rightarrow> Event list \<Rightarrow> bool" where
  "close_reported cfd n evs \<longleftrightarrow> (\<exists>ev \<in> set (take n evs). data_fd (event_data ev) = cfd)"

lemma first_events_reported:
  "(\<exists>ev. Some ev \<in> set (first_events n evs) \<and> data_fd (event_data ev) = cfd) \<longleftrightarrow> close_reported cfd n evs"
proof
  assume "\<exists>ev. Some ev \<in> set (first_events n evs) \<and> data_fd (event_data ev) = cfd"
  then obtain i where "i < n" "i < length evs" "data_fd (event_data (evs ! i)) = cfd"
    by (auto simp: first_events_def split: if_splits)
  then show "close_reported cfd n evs"
    unfolding close_reported_def by (metis in_set_conv_nth length_take min_less_iff_conj nth_take)
next
  assume "close_reported cfd n evs"
  then obtain i where "i < n" "i < length evs" "data_fd (event_data (evs ! i)) = cfd"
    unfolding close_reported_def by (metis in_set_conv_nth length_take min_less_iff_conj nth_take)
  then show "\<exists>ev. Some ev \<in> set (first_events n evs) \<and> data_fd (event_data ev) = cfd"
    by (intro exI [of _ "evs ! i"]) (force simp: first_events_def)
qed

lemma run_iteration_Ok:
  assumes "run_iteration P cm p w = Some (Return (Ok ()), p', w')"
  obtains n evs w1 where "epoll_wait P (poll_fd p) (-1) (poll_events p) w = ((Ok n, evs), w1)"
    "close_reported (close_fd p) n evs"
proof -
  obtain res evs w1 where wait: "epoll_wait P (poll_fd p) (-1) (poll_events p) w = ((res, evs), w1)"
    by (metis surj_pair)
  obtain n where n: "wait_result res = Ok n"
    using assms wait by (cases "wait_result res") (simp_all add: run_iteration_def Let_def)
  obtain r m s w2 where pe: "process_events P cm (close_fd p) (first_events n evs) False
      (channel_mgr p) (fd_set p) w1 = Some (r, m, s, w2)"
    using assms wait n by (auto simp: run_iteration_def Let_def split: bind_splits)
  have "r = Ok True"
    using assms wait n pe
    by (auto simp: run_iteration_def Let_def split: io_result.splits bool.splits if_splits prod.splits)
  then have reported: "close_reported (close_fd p) n evs"
    using process_events_final [of P cm _ _ False] pe first_events_reported by blast
  then have "n \<noteq> 0" by (cases n) (auto simp: close_reported_def)
  then have "res = Ok n" using n by (auto simp: wait_result_def split: io_result.splits if_splits)
  then show ?thesis using that wait reported by simp
qed

context channel_manager
begin

lemma reaches_keeps:
  assumes "reaches P (cm P) p0 w0 p w"
    and "kernel_laws P (poll_fd p0) K" "minv P K (channel_mgr p0) (fd_set p0) w0"
      "polled_as_requested (plat_events P) K (fd_set p0) w0"
  shows "poll_fd p = poll_fd p0 \<and> close_fd p = close_fd p0 \<and> minv P K (channel_mgr p) (fd_set p) w \<and>
    polled_as_requested (plat_events P) K (fd_set p) w"
  using assms(1)
proof (induction rule: reaches.induct)
  case (reaches_step p w p' w')
  then show ?case using iteration_keeps [of P p K w p' w'] assms(2) by simp
qed (use assms in simp)

text \<open>A property of the manager and the world that the handlers preserve beside \<open>minv\<close>, and that epoll calls
  preserve, holds as long as the loop runs and when it returns.\<close>

lemma iteration_keeps_side:
  assumes laws: "kernel_laws P (poll_fd p) K" and inv: "minv P K (channel_mgr p) (fd_set p) w" and J: "J (channel_mgr p) w"
    and side: "handlers_preserve (cm P) (\<lambda>m s w. minv P K m s w \<and> J m w)"
    and ctl: "\<And>m op fd ev w. J m w \<Longrightarrow> J m (snd (epoll_ctl P (poll_fd p) op fd ev w))"
    and wait: "\<And>m evs w. J m w \<Longrightarrow> J m (snd (epoll_wait P (poll_fd p) (-1) evs w))"
    and run: "run_iteration P (cm P) p w = Some (x, p', w')"
  shows "J (channel_mgr p') w'"
proof -
  obtain res evs w1 where wt: "epoll_wait P (poll_fd p) (-1) (poll_events p) w = ((res, evs), w1)"
    by (metis surj_pair)
  have w1: "kv_opened K w1 = kv_opened K w" "kv_interest K w1 = kv_interest K w"
    using epoll_lawsD(4,5) [OF laws, of "-1" "poll_events p" w] wt by simp_all
  have J1: "J (channel_mgr p) w1" using wait [OF J, of "poll_events p"] wt by simp
  show ?thesis
  proof (cases "wait_result res")
    case (Err e)
    then show ?thesis using run wt J1 by (auto simp: run_iteration_def Let_def)
  next
    case (Ok n)
    obtain r m s w2 where pe: "process_events P (cm P) (close_fd p) (first_events n evs) False
        (channel_mgr p) (fd_set p) w1 = Some (r, m, s, w2)"
      using run wt Ok by (auto simp: run_iteration_def Let_def split: bind_splits)
    have J2: "J m w2"
      using process_events_preserves [OF side conjI [OF minv_world [OF inv w1] J1] pe] by simp
    let ?p = "p\<lparr>poll_events := evs, channel_mgr := m, fd_set := s\<rparr>"
    consider "channel_mgr p' = m" "w' = w2" | q where "apply_poll_updates P ?p w2 = (q, p', w')"
      using run wt Ok pe
      by (auto simp: run_iteration_def Let_def split: io_result.splits bool.splits if_splits prod.splits)
    then show ?thesis
    proof cases
      case 2
      have "channel_mgr p' = m"
        using 2 by (auto simp: apply_poll_updates_def split: prod.splits)
      then show ?thesis
        using apply_poll_updates_preserves [where Q = "J m", OF _ 2 J2] ctl by simp
    qed (use J2 in simp)
  qed
qed

lemma reaches_keeps_side:
  assumes "reaches P (cm P) p0 w0 p w"
    and laws: "kernel_laws P (poll_fd p0) K" and inv: "minv P K (channel_mgr p0) (fd_set p0) w0"
      "polled_as_requested (plat_events P) K (fd_set p0) w0" and J: "J (channel_mgr p0) w0"
    and side: "handlers_preserve (cm P) (\<lambda>m s w. minv P K m s w \<and> J m w)"
    and ctl: "\<And>m op fd ev w. J m w \<Longrightarrow> J m (snd (epoll_ctl P (poll_fd p0) op fd ev w))"
    and wait: "\<And>m evs w. J m w \<Longrightarrow> J m (snd (epoll_wait P (poll_fd p0) (-1) evs w))"
  shows "J (channel_mgr p) w"
  using assms(1)
proof (induction rule: reaches.induct)
  case (reaches_step p w p' w')
  note k = reaches_keeps [OF reaches_step.hyps(1) laws inv]
  then have "kernel_laws P (poll_fd p) K" "poll_fd p = poll_fd p0" using laws by simp_all
  then show ?case
    using iteration_keeps_side [of P p K w J, OF _ _ reaches_step.IH side _ _ reaches_step.hyps(2)] k ctl wait by simp
qed (use J in simp)

end

end
