(* ===== verification/Manager_Loop.thy ===== *)
theory Manager_Loop
  imports Manager_Invariant Pollster
begin

text \<open>
  \<^verbatim>\<open>IOSockChannelManager\<close> under the event loop: it meets the \<open>channel_manager\<close> contract of
  \<^verbatim>\<open>Pollster\<close> with the invariant of \<^verbatim>\<open>Manager_Invariant\<close>, for pipes and for ptys.
\<close>

section \<open>Start-up\<close>

definition mgr_startable ::
  "'w kernel_view \<Rightarrow> ('c \<Rightarrow> bool) \<Rightarrow> ('c \<Rightarrow> bool) \<Rightarrow> ('c, 'w) ChildStdio \<Rightarrow> 'c IOSockChannelManager \<Rightarrow> 'w \<Rightarrow> bool" where
  "mgr_startable K cinv started C m w \<longleftrightarrow>
     cinv (child m) \<and> started (child m) \<and> console m \<noteq> None \<and> client_socket m = None \<and>
     in_buffer m = new_buffer \<and> out_buffer m = new_buffer \<and> roles_distinct C m \<and>
     role_fds C m \<union> dom (kv_foreign K) \<subseteq> kv_opened K w \<and> dom (kv_foreign K) \<inter> role_fds C m = {}"

lemma mgr_inv_settled:
  assumes inv: "mgr_inv P K cinv C m s w" and st: "settled_as (plat_events P) K s s' w w'"
  shows "mgr_inv P K cinv C m s' w'"
proof -
  note co = mgr_coreD [OF mgr_invD(1) [OF inv]]
  note st = st [unfolded settled_as_def]
  have "mgr_core K cinv C m s' w'"
  proof (rule mgr_coreI)
    show "fixed_fds C m \<subseteq> processed s'" using st co(6) by (simp add: role_fds_def)
    show "event_data ev = fd_data fd" if "applied s' fd = Some ev" for fd ev
      using that st by (auto simp: event_new_def)
  qed (use st co in simp_all)
  then show ?thesis
    using mgr_invD(2-4) [OF inv] st
    by (simp add: mgr_inv_def wakeup_defs)
qed

lemma mgr_inv_syncable:
  assumes "mgr_inv P K cinv C m s w"
  shows "syncable K s w"
  unfolding syncable_def using mgr_coreD [OF mgr_invD(1) [OF assms]] by simp

lemma mgr_inv_world:
  assumes inv: "mgr_inv P K cinv C m s w" and w': "kv_opened K w' = kv_opened K w" "kv_interest K w' = kv_interest K w"
  shows "mgr_inv P K cinv C m s w'"
  using mgr_inv_in_buffer [OF inv mgr_coreD(1) [OF mgr_invD(1) [OF inv]] _ w'] by simp

context child_stdio
begin

lemma initialize_starts:
  assumes laws: "kernel_laws P ep K" and start: "mgr_startable K cinv started (C P) m w"
    and i: "kv_interest K w = kv_foreign K"
  shows "\<exists>s. initialize P (C P) m fd_set_new w = Some (m, s, w) \<and> syncable K s w \<and>
    (\<forall>s' w'. settled_as (plat_events P) K s s' w w' \<longrightarrow> mgr_inv P K cinv (C P) m s' w')"
proof -
  let ?E = "plat_events P"
  note st = start [unfolded mgr_startable_def] and E = kernel_lawsD(3) [OF laws]
  obtain con where con: "console m = Some con" using st by auto
  have rd: "roles_distinct (C P) m" and cl: "client_socket m = None" and
    start': "cinv (child m)" "started (child m)" using st by simp_all
  note rds = roles_distinctD [OF rd]
  obtain s1 where s1: "cs_initialize (C P) (child m) fd_set_new = Some s1" "reg_inv s1"
      "dom (requested s1) = child_fds (C P) (child m)"
      "\<And>fd. stdout_fd (C P) (child m) = Some fd \<or> stderr_fd (C P) (child m) = Some fd \<Longrightarrow> wants_read ?E (requested s1) fd"
      "processed s1 = {}" "applied s1 = Map.empty" "gone s1 = {}"
    using initialize_law [OF E start', of fd_set_new] by auto
  obtain s2 where s2: "register (server_socket m) (EPOLLIN ?E) s1 = Some s2" "reg_inv s2"
      "requested s2 = (requested s1)(server_socket m \<mapsto> EPOLLIN ?E)"
      "processed s2 = {}" "applied s2 = Map.empty" "gone s2 = {}"
    using register_fresh [OF s1(2), of "server_socket m" "EPOLLIN ?E"] s1(3,5-7) rds(3) by metis
  have "con \<notin> dom (requested s2)" using s2(3) s1(3) rds(1) [OF con] by simp
  then obtain s3 where s3: "register con (ev_empty ?E) s2 = Some s3" "reg_inv s3"
      "requested s3 = (requested s2)(con \<mapsto> ev_empty ?E)"
      "processed s3 = {}" "applied s3 = Map.empty" "gone s3 = {}"
    using register_fresh [OF s2(2), of con "ev_empty ?E"] s2(4-6) by metis
  have req: "dom (requested s3) = role_fds (C P) m"
    using s3(3) s2(3) s1(3) con cl by (auto simp: role_defs)
  have sync: "syncable K s3 w"
    using s3(2,5,6) i st by (simp add: syncable_def req)
  have src: "sources_polled ?E (C P) m s3"
    using s3(3) s2(3) s1(4) rds(1) [OF con] rds(3) cl events_lawsD [OF E]
    by (auto simp: sources_polled_def wants_after_add)
  have "mgr_inv P K cinv (C P) m s' w'" if settled: "settled_as ?E K s3 s' w w'" for s' w'
  proof -
    note t = settled [unfolded settled_as_def]
    have "mgr_core K cinv (C P) m s' w'"
    proof (rule mgr_coreI)
      show "fixed_fds (C P) m \<subseteq> processed s'" using t req by (simp add: role_fds_def)
      show "event_data ev = fd_data fd" if "applied s' fd = Some ev" for fd ev
        using that t by (auto simp: event_new_def)
    qed (use st t req in simp_all)
    then show ?thesis
      using st src t by (simp add: mgr_inv_def wakeup_defs)
  qed
  moreover have "initialize P (C P) m fd_set_new w = Some (m, s3, w)"
    using s1(1) s2(1) s3(1) con by (simp add: initialize_def)
  ultimately show ?thesis using sync by blast
qed

lemma iosock_channel_manager:
  "channel_manager (\<lambda>P. iosock_manager P (C P)) (\<lambda>P K. mgr_inv P K cinv (C P))
     (\<lambda>P K. mgr_startable K cinv started (C P))"
proof (unfold_locales, goal_cases)
  case (1 P ep K m s w fd r m' s' w')
  then show ?case using on_readable_inv by (simp add: iosock_manager_def)
next
  case (2 P ep K m s w fd r m' s' w')
  then show ?case using on_writable_inv by (simp add: iosock_manager_def)
next
  case (3 P ep K m s w fd r m' s' w')
  then show ?case using on_hangup_inv by (simp add: iosock_manager_def)
next
  case (7 P K m w w')
  then show ?case by (auto simp: mgr_startable_def)
next
  case (8 P ep K m w)
  then show ?case using initialize_starts by (simp add: iosock_manager_def) blast
qed (fact mgr_inv_syncable mgr_inv_settled mgr_inv_world)+

end

interpretation pipes_mgr: channel_manager "\<lambda>P. iosock_manager P (pipes_stdio P)"
  "\<lambda>P K. mgr_inv P K pipes_inv (pipes_stdio P)" "\<lambda>P K. mgr_startable K pipes_inv pipes_started (pipes_stdio P)"
  by (rule pipes.iosock_channel_manager)

interpretation pty_mgr: channel_manager "\<lambda>P. iosock_manager P (pty_stdio P)"
  "\<lambda>P K. mgr_inv P K (\<lambda>_. True) (pty_stdio P)" "\<lambda>P K. mgr_startable K (\<lambda>_. True) pty_started (pty_stdio P)"
  by (rule ptys.iosock_channel_manager)

end
