(* ===== verification/Manager_Progress.thy ===== *)
theory Manager_Progress
  imports Manager_Loop
begin

text \<open>
  When the handlers of \<^verbatim>\<open>IOSockChannelManager\<close> return. Under the invariant a handler can only panic
  for a client that epoll does not know yet (\<open>client_settled\<close> excludes it) and where the client's
  availability contradicts the event; everything else returns.
\<close>

definition client_settled :: "'c IOSockChannelManager \<Rightarrow> PolledFdSet \<Rightarrow> bool" where
  "client_settled m s \<longleftrightarrow> client_fds m \<subseteq> processed s"

lemma set_write_total:
  assumes "mgr_core K cinv C m s w" and "fd \<in> processed s"
  obtains s' where "modify fd (poll_for_write E v) s = Some s'"
  using fdset.set_write_defined [OF mgr_coreD(5) [OF assms(1)]] assms(2) by blast

lemma set_read_total:
  assumes "mgr_core K cinv C m s w" and "fd \<in> processed s"
  obtains s' where "modify fd (poll_for_read E v) s = Some s'"
  using fdset.set_read_defined [OF mgr_coreD(5) [OF assms(1)]] assms(2) by blast

lemma fixed_processed:
  assumes "mgr_core K cinv C m s w"
  shows "server_socket m \<in> processed s" "console m = Some fd \<Longrightarrow> fd \<in> processed s"
    "fd \<in> child_fds C (child m) \<Longrightarrow> fd \<in> processed s"
  using mgr_coreD(7) [OF assms] by (auto simp: fixed_fds_def)

lemma hangup_client_total:
  assumes core: "mgr_core K cinv C m s w" and cl: "client_socket m = Some c" and k: "stream c \<in> processed s"
  shows "\<exists>m' s' w'. hangup_client P c m s w = Some (Ok (), m', s', w')"
proof -
  note co = mgr_coreD [OF core]
  obtain s1 where s1: "unregister_closed (stream c) s = Some s1" "reg_inv s1" "processed s1 = processed s - {stream c}"
    using fdset.unreg_closed_ok [OF co(5) k] by blast
  have "\<exists>s2. modify out (poll_for_write (plat_events P) True) s1 = Some s2" if "console m = Some out" for out
    using fdset.set_write_defined [OF s1(2)] s1(3) fixed_processed(2) [OF core that]
      roles_distinctD(2) [OF co(4) cl] that by simp
  then show ?thesis
    using s1(1) writable_size_eq [OF co(2)]
    by (cases "console m") (auto simp: hangup_client_def split: bind_splits)
qed

lemma accept_client_total:
  assumes laws: "kernel_laws P ep K" and core: "mgr_core K cinv C m s w"
  shows "\<exists>r m' s' w'. accept_client P m s w = Some (r, m', s', w')"
proof -
  note co = mgr_coreD [OF core]
  obtain res w1 where a: "sys_accept P (server_socket m) w = (res, w1)" by fastforce
  show ?thesis
  proof (cases "client_socket m = None \<and> (\<exists>c. res = Ok c)")
    case False
    then show ?thesis using a by (cases res) (auto simp: accept_client_def)
  next
    case True
    then obtain c where c: "res = Ok c" "client_socket m = None" by blast
    have "c \<notin> dom (requested s)"
      using platform_lawsD(4) [OF kernel_lawsD(1) [OF laws] a [unfolded c(1)]] co(6,9) by blast
    then obtain s1 where s1: "register c (ev_set (plat_events P) (EPOLLIN (plat_events P)) (EPOLLOUT (plat_events P))
        (0 < length (contents (out_buffer m)))) s = Some s1" "reg_inv s1" "processed s1 = processed s"
      using register_fresh [OF co(5)] by metis
    have "\<exists>s2. modify f (poll_for_write (plat_events P) False) s1 = Some s2" if "console m = Some f" for f
      using fdset.set_write_defined [OF s1(2)] s1(3) fixed_processed(2) [OF core that] by simp
    then show ?thesis
      using a c s1(1) writable_size_eq [OF co(2)]
      by (cases "console m") (auto simp: accept_client_def Let_def split: bind_splits)
  qed
qed

lemma accept_client_fresh:
  assumes laws: "kernel_laws P ep K" and inv: "mgr_inv P K cinv C m s w"
    and a: "sys_accept P (server_socket m) w = (Ok c, w1)" and no: "client_socket m = None"
    and run: "accept_client P m s w = Some (r, m', s', w')"
  shows "r = Ok () \<and> m' = m\<lparr>client_socket := Some \<lparr>stream = c, availability = ReadWrite\<rparr>\<rparr> \<and> w' = w1 \<and>
    dom (requested s') = insert c (dom (requested s)) \<and>
    wants_read (plat_events P) (requested s') = (wants_read (plat_events P) (requested s))(c := True) \<and>
    wants_write (plat_events P) (requested s') = (\<lambda>fd. if fd = c then contents (out_buffer m) \<noteq> []
      else fd \<notin> set_option (console m) \<and> wants_write (plat_events P) (requested s) fd)"
proof -
  let ?E = "plat_events P" and ?m = "m\<lparr>client_socket := Some \<lparr>stream = c, availability = ReadWrite\<rparr>\<rparr>"
  let ?es = "ev_set ?E (EPOLLIN ?E) (EPOLLOUT ?E) (0 < length (contents (out_buffer m)))"
  note co = mgr_coreD [OF mgr_invD(1) [OF inv]] and E = kernel_lawsD(3) [OF laws]
  obtain s1 where s1: "register c ?es s = Some s1"
    using run a no co(2) by (auto simp: accept_client_def writable_size_eq split: bind_splits)
  note u = fdset.register_SomeD [OF co(5) s1]
  define es where "es = ?es"
  have es: "ev_contains ?E es (EPOLLIN ?E)" "ev_contains ?E es (EPOLLOUT ?E) \<longleftrightarrow> contents (out_buffer m) \<noteq> []"
    unfolding es_def using events_lawsD [OF E] by simp_all
  have req: "requested s1 = (requested s)(c \<mapsto> es)" using u by (simp only: es_def)
  have w1: "wants_read ?E (requested s1) = (wants_read ?E (requested s))(c := True)"
    "wants_write ?E (requested s1) = (wants_write ?E (requested s))(c := contents (out_buffer m) \<noteq> [])"
    by (simp_all add: fun_eq_iff req wants_after_add es)
  have cn: "console m \<noteq> Some c"
    using platform_lawsD(4) [OF kernel_lawsD(1) [OF laws] a] co(9) by (auto simp: role_defs)
  show ?thesis
  proof (cases "console m")
    case None
    then have "r = Ok ()" "m' = ?m" "s' = s1" "w' = w1"
      using run a no co(2) s1 by (auto simp: accept_client_def writable_size_eq)
    moreover have "dom (requested s1) = insert c (dom (requested s))" by (simp add: req)
    ultimately show ?thesis using w1 None by (simp add: fun_eq_iff)
  next
    case (Some f)
    obtain s2 where s2: "modify f (poll_for_write ?E False) s1 = Some s2"
      and res: "r = Ok ()" "m' = ?m" "s' = s2" "w' = w1"
      using run a no co(2) s1 Some by (auto simp: accept_client_def writable_size_eq split: bind_splits)
    have inv1: "reg_inv s1" using u by simp
    note v = fdset.set_write_SomeD [OF inv1 s2 E]
    have "dom (requested s2) = insert c (dom (requested s))" using v by (simp add: req)
    then show ?thesis using v w1 res Some cn by (auto simp: fun_eq_iff)
  qed
qed

lemma request_primary_total:
  assumes core: "mgr_core K cinv C m s w" and cl: "client_settled m s"
  shows "\<exists>q s'. request_primary_output_writable E m s = Some (q, s')"
proof (cases "primary_output m")
  case (Some fd)
  then have "fd \<in> processed s"
    using cl fixed_processed(2) [OF core]
    by (auto simp: primary_output_def client_settled_def client_fds_def split: option.splits)
  then obtain s' where "modify fd (poll_for_write E True) s = Some s'"
    by (rule set_write_total [OF core])
  then show ?thesis using Some by (auto simp: request_primary_eq)
qed (auto simp: request_primary_eq)

context child_stdio
begin

lemma on_hangup_total:
  assumes core: "mgr_core K cinv (C P) m s w" and cl: "client_settled m s"
  shows "\<exists>m' s' w'. on_hangup P (C P) fd m s w = Some (Ok (), m', s', w')"
proof (cases "client_stream m fd")
  case (Some c)
  then have "client_socket m = Some c" "stream c \<in> processed s"
    using cl by (auto simp: client_stream_Some client_settled_def client_fds_def)
  then show ?thesis
    using hangup_client_total [OF core] Some by (simp add: on_hangup_def)
next
  case None
  note co = mgr_coreD [OF core]
  have child: "\<exists>c' s' w'. cs_hangup (C P) fd (child m) s w = Some (c', s', w')" if "fd \<in> child_fds (C P) (child m)"
    using hangup_law [OF co(3,5) that fixed_processed(3) [OF core that], of w] by blast
  have con: "\<exists>s'. unregister fd s = Some s'" if "console m = Some fd"
    using fdset.unreg_ok [OF co(5) fixed_processed(2) [OF core that]] by blast
  show ?thesis
    using None child con by (cases "console m") (auto simp: on_hangup_def hangup_other_def)
qed

lemma read_child_total:
  assumes laws: "kernel_laws P ep K" and core: "mgr_core K cinv (C P) m s w" and cl: "client_settled m s"
    and copy: "copy (child m) (out_buffer m) w = Some (res, b, w1)" "filled (out_buffer m) res b" "io_on P F w w1"
  shows "\<exists>r m' s' w'. read_child P (C P) copy fd m s w = Some (r, m', s', w')"
proof -
  have core1: "mgr_core K cinv (C P) (m\<lparr>out_buffer := b\<rparr>) s w1"
    by (rule mgr_core_buffers(1) [OF core _ io_world [OF laws copy(3)]]) (use copy(2) in \<open>simp add: filled_def\<close>)
  have cl1: "client_settled (m\<lparr>out_buffer := b\<rparr>) s"
    using cl by (simp add: client_settled_def client_fds_def)
  show ?thesis
    using copy(1) on_hangup_total [OF core1 cl1, of fd] request_primary_total [OF core1 cl1, of "plat_events P"]
    by (cases res) (auto simp: read_child_def Let_def split: prod.splits)
qed

lemma read_client_total:
  assumes laws: "kernel_laws P ep K" and core: "mgr_core K cinv (C P) m s w" and cls: "client_settled m s"
    and cl: "client_socket m = Some c" "client_socket_readable m"
  shows "\<exists>r m' s' w'. read_client P (C P) (stream c) c m s w = Some (r, m', s', w')"
proof -
  note co = mgr_coreD [OF core]
  obtain res b w1 where copy: "channel_to_buffer (sys_read P (stream c)) (in_buffer m) w = Some (res, b, w1)"
      "filled (in_buffer m) res b" and io: "io_on P {stream c} w w1"
    using channel_to_buffer_fd [OF kernel_lawsD(1) [OF laws] co(1)] by blast
  have core1: "mgr_core K cinv (C P) (m\<lparr>in_buffer := b\<rparr>) s w1"
    by (rule mgr_core_buffers(2) [OF core _ io_world [OF laws io]]) (use copy(2) in \<open>simp add: filled_def\<close>)
  have cl1: "client_settled (m\<lparr>in_buffer := b\<rparr>) s"
    using cls by (simp add: client_settled_def client_fds_def)
  have "stream c \<in> processed s" using cls cl(1) by (simp add: client_settled_def client_fds_def)
  then obtain s1 where s1: "modify (stream c) (poll_for_read (plat_events P) False) s = Some s1"
    by (rule set_read_total [OF core])
  have s2: "\<exists>s2. modify i (poll_for_write (plat_events P) True) s = Some s2"
    if "stdin_fd (C P) (child m) = Some i" for i
    using set_write_total [OF core fixed_processed(3) [OF core]] that by (metis child_fdsI(1))
  show ?thesis
    using copy(1) cl on_hangup_total [OF core1 cl1, of "stream c"] s1 s2
    by (cases res) (auto simp: read_client_def Let_def split: prod.splits option.splits)
qed

lemma on_readable_total:
  assumes laws: "kernel_laws P ep K" and core: "mgr_core K cinv (C P) m s w" and cls: "client_settled m s"
    and av: "fd \<in> client_fds m \<Longrightarrow> client_socket_readable m"
  shows "\<exists>r m' s' w'. on_readable P (C P) fd m s w = Some (r, m', s', w')"
proof (cases "client_stream m fd")
  case (Some c)
  then have c: "client_socket m = Some c" "stream c = fd" "fd \<noteq> server_socket m"
    using roles_distinctD(2) [OF mgr_coreD(4) [OF core], of c] by (auto simp: client_stream_Some)
  then show ?thesis
    using read_client_total [OF laws core cls c(1)] av Some by (simp add: on_readable_def client_fds_def)
next
  case None
  note pl = kernel_lawsD(1) [OF laws] and b = mgr_coreD(2) [OF core]
  show ?thesis
    using None accept_client_total [OF laws core]
      read_stdout_law [OF pl b, of "child m" fd w] read_stderr_law [OF pl b, of "child m" fd w]
      read_child_total [OF laws core cls]
    by (simp add: on_readable_def) metis
qed

lemma write_client_total:
  assumes laws: "kernel_laws P ep K" and core: "mgr_core K cinv (C P) m s w" and cls: "client_settled m s"
    and cl: "client_socket m = Some c" "client_socket_writable m"
  shows "\<exists>r m' s' w'. write_client P (C P) (stream c) c m s w = Some (r, m', s', w')"
proof -
  obtain res b w1 where copy: "buffer_to_channel (out_buffer m) (fd_writer P (stream c)) w = Some (res, b, w1)"
      "drained (out_buffer m) res b" and io: "io_on P {stream c} w w1"
    using buffer_to_channel_fd [OF kernel_lawsD(1) [OF laws] mgr_coreD(2) [OF core]] by blast
  have core1: "mgr_core K cinv (C P) (m\<lparr>out_buffer := b\<rparr>) s w1"
    by (rule mgr_core_buffers(1) [OF core _ io_world [OF laws io]]) (use copy(2) in \<open>simp add: drained_def\<close>)
  have cl1: "client_settled (m\<lparr>out_buffer := b\<rparr>) s"
    using cls by (simp add: client_settled_def client_fds_def)
  have k: "stream c \<in> processed s" using cls cl(1) by (simp add: client_settled_def client_fds_def)
  obtain s1 s2 where "modify (stream c) (poll_for_read (plat_events P) False) s = Some s1"
    "modify (stream c) (poll_for_write (plat_events P) False) s = Some s2"
    using set_read_total [OF core k] set_write_total [OF core k] by metis
  then show ?thesis
    using copy(1) cl on_hangup_total [OF core1 cl1, of "stream c"]
    by (cases res) (auto simp: write_client_def Let_def split: prod.splits)
qed

lemma write_console_total:
  assumes laws: "kernel_laws P ep K" and core: "mgr_core K cinv (C P) m s w" and cls: "client_settled m s"
    and con: "console m = Some fd"
  shows "\<exists>r m' s' w'. write_console P (C P) fd m s w = Some (r, m', s', w')"
proof -
  obtain res b w1 where copy: "buffer_to_channel (out_buffer m) (fd_writer P fd) w = Some (res, b, w1)"
      "drained (out_buffer m) res b" and io: "io_on P {fd} w w1"
    using buffer_to_channel_fd [OF kernel_lawsD(1) [OF laws] mgr_coreD(2) [OF core]] by blast
  have core1: "mgr_core K cinv (C P) (m\<lparr>out_buffer := b\<rparr>) s w1"
    by (rule mgr_core_buffers(1) [OF core _ io_world [OF laws io]]) (use copy(2) in \<open>simp add: drained_def\<close>)
  have cl1: "client_settled (m\<lparr>out_buffer := b\<rparr>) s"
    using cls by (simp add: client_settled_def client_fds_def)
  obtain s1 where "modify fd (poll_for_write (plat_events P) False) s = Some s1"
    by (rule set_write_total [OF core fixed_processed(2) [OF core con]])
  then show ?thesis
    using copy(1) on_hangup_total [OF core1 cl1, of fd]
    by (cases res) (auto simp: write_console_def Let_def split: prod.splits)
qed

lemma write_child_total:
  assumes laws: "kernel_laws P ep K" and core: "mgr_core K cinv (C P) m s w" and cls: "client_settled m s"
    and i: "stdin_fd (C P) (child m) = Some fd"
  shows "\<exists>r m' s' w'. write_child P (C P) fd m s w = Some (r, m', s', w')"
proof -
  obtain res b w1 where copy: "write_stdin (C P) (child m) (in_buffer m) w = Some (res, b, w1)"
      "drained (in_buffer m) res b" and io: "io_on P {fd} w w1"
    using write_stdin_law [OF kernel_lawsD(1) [OF laws] mgr_coreD(1) [OF core] i] by blast
  have core1: "mgr_core K cinv (C P) (m\<lparr>in_buffer := b\<rparr>) s w1"
    by (rule mgr_core_buffers(2) [OF core _ io_world [OF laws io]]) (use copy(2) in \<open>simp add: drained_def\<close>)
  have cl1: "client_settled (m\<lparr>in_buffer := b\<rparr>) s"
    using cls by (simp add: client_settled_def client_fds_def)
  obtain s1 where "modify fd (poll_for_write (plat_events P) False) s = Some s1"
    by (rule set_write_total [OF core fixed_processed(3) [OF core child_fdsI(1) [OF i]]])
  then show ?thesis
    using copy(1) on_hangup_total [OF core1 cl1, of fd]
    by (cases res) (auto simp: write_child_def Let_def split: prod.splits)
qed

lemma on_writable_total:
  assumes laws: "kernel_laws P ep K" and core: "mgr_core K cinv (C P) m s w" and cls: "client_settled m s"
    and av: "fd \<in> client_fds m \<Longrightarrow> client_socket_writable m"
  shows "\<exists>r m' s' w'. on_writable P (C P) fd m s w = Some (r, m', s', w')"
proof (cases "client_stream m fd")
  case (Some c)
  then have c: "client_socket m = Some c" "stream c = fd" by (simp_all add: client_stream_Some)
  then show ?thesis
    using write_client_total [OF laws core cls c(1)] av Some by (simp add: on_writable_def client_fds_def)
next
  case None
  then show ?thesis
    using write_console_total [OF laws core cls] write_child_total [OF laws core cls] by (simp add: on_writable_def)
qed

end

end
