(* ===== verification/Signals.thy ===== *)
theory Signals
  imports IOSock_Prelude
begin

text \<open>
  \<^verbatim>\<open>src/src/signals.rs\<close>: the static \<^verbatim>\<open>CHILD_PID\<close>, the two C-level handlers and the functions that install
  them. The libc calls are a parameter; a function pointer stored in a \<^verbatim>\<open>sigaction\<close> is the handler's name.
\<close>

section \<open>libc and the process's statics\<close>

datatype signal_handler = SIG_DFL | Handler_terminate | Handler_alarm

record 's sigaction =
  sa_sigaction :: signal_handler
  sa_mask :: 's
  sa_flags :: c_int

record ('s, 'w) signal_api =
  SIGHUP :: c_int
  SIGINT :: c_int
  SIGTERM :: c_int
  SIGALRM :: c_int
  zeroed_sigset :: 's
  c_sigaddset :: "'s \<Rightarrow> c_int \<Rightarrow> 'w \<Rightarrow> (c_int \<times> 's) \<times> 'w"
  c_sigaction :: "c_int \<Rightarrow> 's sigaction \<Rightarrow> 'w \<Rightarrow> c_int \<times> 'w"
  c_kill :: "c_int \<Rightarrow> c_int \<Rightarrow> 'w \<Rightarrow> c_int \<times> 'w"
  c_alarm :: "u32 \<Rightarrow> 'w \<Rightarrow> u32 \<times> 'w"
  sig_os_error :: "'w \<Rightarrow> io_error"

record statics =
  CHILD_PID :: c_int

definition initial_statics :: statics where
  "initial_statics = \<lparr>CHILD_PID = 0\<rparr>"

section \<open>Handlers\<close>

text \<open>A handler resumes the interrupted program or ends the process with a status.\<close>

datatype 'w interruption = Resume 'w | Process_exit int 'w

definition on_terminate_signal :: "('s, 'w) signal_api \<Rightarrow> statics \<Rightarrow> 'w \<Rightarrow> 'w interruption" where
  "on_terminate_signal A st w = (case c_kill A (CHILD_PID st) (SIGTERM A) w of (_, w) \<Rightarrow> Resume w)"

definition on_exit_alarm :: "('s, 'w) signal_api \<Rightarrow> statics \<Rightarrow> 'w \<Rightarrow> 'w interruption" where
  "on_exit_alarm A st w = Process_exit 255 w"

text \<open>Delivery of a signal whose disposition is one of the two handlers.\<close>

definition deliver :: "('s, 'w) signal_api \<Rightarrow> signal_handler \<Rightarrow> statics \<Rightarrow> 'w \<Rightarrow> 'w interruption option" where
  "deliver A h st w =
     (case h of
        SIG_DFL \<Rightarrow> None
      | Handler_terminate \<Rightarrow> Some (on_terminate_signal A st w)
      | Handler_alarm \<Rightarrow> Some (on_exit_alarm A st w))"

section \<open>Installing\<close>

definition safe_sigaddset :: "('s, 'w) signal_api \<Rightarrow> 's \<Rightarrow> c_int \<Rightarrow> 'w \<Rightarrow> unit io_result \<times> 's \<times> 'w" where
  "safe_sigaddset A sigset signum w =
     (case c_sigaddset A sigset signum w of
        ((result, sigset), w) \<Rightarrow> if result = 0 then (Ok (), sigset, w) else (Err (sig_os_error A w), sigset, w))"

definition safe_sigaction :: "('s, 'w) signal_api \<Rightarrow> c_int \<Rightarrow> 's sigaction \<Rightarrow> 'w \<Rightarrow> unit io_result \<times> 'w" where
  "safe_sigaction A signum action w =
     (case c_sigaction A signum action w of
        (result, w) \<Rightarrow> if result = 0 then (Ok (), w) else (Err (sig_os_error A w), w))"

definition zeroed_action :: "('s, 'w) signal_api \<Rightarrow> 's sigaction" where
  "zeroed_action A = \<lparr>sa_sigaction = SIG_DFL, sa_mask = zeroed_sigset A, sa_flags = 0\<rparr>"

text \<open>Calls in sequence, left at the first error (the \<^verbatim>\<open>?\<close> operator): adding to the mask, then installing.\<close>

fun mask_signals :: "('s, 'w) signal_api \<Rightarrow> c_int list \<Rightarrow> 's sigaction \<Rightarrow> 'w \<Rightarrow> 's sigaction io_result \<times> 'w" where
  "mask_signals A [] action w = (Ok action, w)"
| "mask_signals A (s # ss) action w =
     (case safe_sigaddset A (sa_mask action) s w of
        (Err e, _, w) \<Rightarrow> (Err e, w)
      | (Ok _, sigset, w) \<Rightarrow> mask_signals A ss (action\<lparr>sa_mask := sigset\<rparr>) w)"

fun install :: "('s, 'w) signal_api \<Rightarrow> c_int list \<Rightarrow> 's sigaction \<Rightarrow> 'w \<Rightarrow> unit io_result \<times> 'w" where
  "install A [] action w = (Ok (), w)"
| "install A (s # ss) action w =
     (case safe_sigaction A s action w of
        (Err e, w) \<Rightarrow> (Err e, w)
      | (Ok _, w) \<Rightarrow> install A ss action w)"

definition kill_child_on_signal ::
  "('s, 'w) signal_api \<Rightarrow> c_int \<Rightarrow> statics \<Rightarrow> 'w \<Rightarrow> unit io_result \<times> statics \<times> 'w" where
  "kill_child_on_signal A child_pid st w =
     (let st = st\<lparr>CHILD_PID := child_pid\<rparr>;
          action = (zeroed_action A)\<lparr>sa_sigaction := Handler_terminate\<rparr> in
      case mask_signals A [SIGHUP A, SIGTERM A, SIGINT A] action w of
        (Err e, w) \<Rightarrow> (Err e, st, w)
      | (Ok action, w) \<Rightarrow>
          (case install A [SIGHUP A, SIGTERM A, SIGINT A] action w of (r, w) \<Rightarrow> (r, st, w)))"

definition exit_after_timeout :: "('s, 'w) signal_api \<Rightarrow> u32 \<Rightarrow> 'w \<Rightarrow> unit io_result \<times> 'w" where
  "exit_after_timeout A seconds w =
     (let action = (zeroed_action A)\<lparr>sa_sigaction := Handler_alarm\<rparr> in
      case mask_signals A [SIGALRM A] action w of
        (Err e, w) \<Rightarrow> (Err e, w)
      | (Ok action, w) \<Rightarrow>
          (case install A [SIGALRM A] action w of
             (Err e, w) \<Rightarrow> (Err e, w)
           | (Ok _, w) \<Rightarrow> (case c_alarm A seconds w of (_, w) \<Rightarrow> (Ok (), w))))"

section \<open>Laws\<close>

text \<open>What the theorems need of the calls: the set a mask denotes, the dispositions of the process and
  the pending alarm.\<close>

record ('s, 'w) signal_view =
  sv_members :: "'s \<Rightarrow> c_int set"
  sv_action :: "'w \<Rightarrow> c_int \<Rightarrow> 's sigaction"
  sv_alarm :: "'w \<Rightarrow> u32"

definition signal_laws :: "('s, 'w) signal_api \<Rightarrow> ('s, 'w) signal_view \<Rightarrow> bool" where
  "signal_laws A V \<longleftrightarrow>
     distinct [SIGHUP A, SIGTERM A, SIGINT A, SIGALRM A] \<and> sv_members V (zeroed_sigset A) = {} \<and>
     (\<forall>s n w r s' w'. c_sigaddset A s n w = ((r, s'), w') \<longrightarrow>
        sv_action V w' = sv_action V w \<and> sv_alarm V w' = sv_alarm V w \<and>
        (r = 0 \<longrightarrow> sv_members V s' = insert n (sv_members V s))) \<and>
     (\<forall>n a w r w'. c_sigaction A n a w = (r, w') \<longrightarrow> sv_alarm V w' = sv_alarm V w \<and>
        sv_action V w' = (if r = 0 then (sv_action V w)(n := a) else sv_action V w)) \<and>
     (\<forall>n w. sv_action V (snd (c_alarm A n w)) = sv_action V w \<and> sv_alarm V (snd (c_alarm A n w)) = n)"

lemma safe_sigaddset_law:
  assumes "signal_laws A V" and "safe_sigaddset A s n w = (r, s', w')"
  shows "sv_action V w' = sv_action V w \<and> sv_alarm V w' = sv_alarm V w \<and>
    (r = Ok () \<longrightarrow> sv_members V s' = insert n (sv_members V s))"
proof -
  obtain i where "c_sigaddset A s n w = ((i, s'), w')" "r = Ok () \<longrightarrow> i = 0"
    using assms(2) by (auto simp: safe_sigaddset_def split: prod.splits if_splits)
  then show ?thesis using assms(1) unfolding signal_laws_def by blast
qed

lemma safe_sigaction_law:
  assumes "signal_laws A V" and "safe_sigaction A n a w = (r, w')"
  shows "sv_alarm V w' = sv_alarm V w \<and>
    sv_action V w' = (case r of Ok _ \<Rightarrow> (sv_action V w)(n := a) | Err _ \<Rightarrow> sv_action V w)"
proof -
  obtain i where i: "c_sigaction A n a w = (i, w')" "i = 0 \<longleftrightarrow> r = Ok ()"
    using assms(2) by (auto simp: safe_sigaction_def split: prod.splits if_splits)
  then have "sv_alarm V w' = sv_alarm V w \<and> sv_action V w' = (if i = 0 then (sv_action V w)(n := a) else sv_action V w)"
    using assms(1) unfolding signal_laws_def by blast
  then show ?thesis using i(2) by (cases r) auto
qed

lemma mask_signals_law:
  assumes laws: "signal_laws A V"
  shows "mask_signals A ss action w = (r, w') \<Longrightarrow>
    sv_action V w' = sv_action V w \<and> sv_alarm V w' = sv_alarm V w \<and>
    (case r of
       Ok act \<Rightarrow> sa_sigaction act = sa_sigaction action \<and> sv_members V (sa_mask act) = set ss \<union> sv_members V (sa_mask action)
     | Err _ \<Rightarrow> True)"
proof (induction ss arbitrary: action w)
  case (Cons s ss)
  obtain r1 m w1 where 1: "safe_sigaddset A (sa_mask action) s w = (r1, m, w1)" by (metis surj_pair)
  note l = safe_sigaddset_law [OF laws 1]
  show ?case
  proof (cases r1)
    case (Ok u)
    then have "mask_signals A ss (action\<lparr>sa_mask := m\<rparr>) w1 = (r, w')" using Cons.prems 1 by simp
    note IH = Cons.IH [OF this]
    have "sv_members V m = insert s (sv_members V (sa_mask action))" "sv_action V w1 = sv_action V w"
      "sv_alarm V w1 = sv_alarm V w"
      using l Ok by simp_all
    with IH show ?thesis by (cases r) simp_all
  next
    case (Err e)
    then have "r = Err e" "w' = w1" using Cons.prems 1 by simp_all
    then show ?thesis using l by simp
  qed
qed auto

text \<open>After \<open>install\<close> the signals before the first failure have the action.\<close>

lemma install_law:
  assumes laws: "signal_laws A V"
  shows "install A ss a w = (r, w') \<Longrightarrow> sv_alarm V w' = sv_alarm V w \<and>
    (\<exists>k \<le> length ss. (r = Ok () \<longrightarrow> k = length ss) \<and> (\<forall>e. r = Err e \<longrightarrow> k < length ss) \<and>
      (\<forall>n. sv_action V w' n = (if n \<in> set (take k ss) then a else sv_action V w n)))"
proof (induction ss arbitrary: w)
  case (Cons s ss)
  obtain r1 w1 where 1: "safe_sigaction A s a w = (r1, w1)" by fastforce
  note l = safe_sigaction_law [OF laws 1]
  show ?case
  proof (cases r1)
    case (Ok u)
    then have "install A ss a w1 = (r, w')" using Cons.prems 1 by simp
    from Cons.IH [OF this] obtain k where k: "sv_alarm V w' = sv_alarm V w1" "k \<le> length ss"
      "r = Ok () \<longrightarrow> k = length ss" "\<forall>e. r = Err e \<longrightarrow> k < length ss"
      "\<And>n. sv_action V w' n = (if n \<in> set (take k ss) then a else sv_action V w1 n)" by blast
    have "sv_action V w' n = (if n \<in> set (take (Suc k) (s # ss)) then a else sv_action V w n)" for n
      using l Ok by (simp add: k(5))
    moreover have "sv_alarm V w' = sv_alarm V w" using l k(1) by simp
    ultimately show ?thesis
      using k(2-4) by (intro conjI exI [of _ "Suc k"]) (simp_all del: take_Suc_Cons)
  next
    case (Err e)
    then have "r = Err e" "w' = w1" using Cons.prems 1 by simp_all
    then show ?thesis using l Err by (intro conjI exI [of _ 0]) auto
  qed
qed auto

lemma kill_child_on_signal_Ok:
  assumes laws: "signal_laws A V" and run: "kill_child_on_signal A pid st w = (Ok (), st', w')"
  shows "CHILD_PID st' = pid"
    "n \<in> {SIGHUP A, SIGTERM A, SIGINT A} \<Longrightarrow> sa_sigaction (sv_action V w' n) = Handler_terminate"
    "n \<notin> {SIGHUP A, SIGTERM A, SIGINT A} \<Longrightarrow> sv_action V w' n = sv_action V w n"
proof -
  let ?ss = "[SIGHUP A, SIGTERM A, SIGINT A]" and ?a = "(zeroed_action A)\<lparr>sa_sigaction := Handler_terminate\<rparr>"
  obtain act w1 where m: "mask_signals A ?ss ?a w = (Ok act, w1)" and i: "install A ?ss act w1 = (Ok (), w')"
    and "st' = st\<lparr>CHILD_PID := pid\<rparr>"
    using run by (auto simp: kill_child_on_signal_def Let_def split: prod.splits io_result.splits)
  moreover from mask_signals_law [OF laws m] have "sa_sigaction act = Handler_terminate" "sv_action V w1 = sv_action V w"
    by simp_all
  moreover from install_law [OF laws i] have "sv_action V w' k = (if k \<in> set ?ss then act else sv_action V w1 k)" for k
    by auto
  ultimately show "CHILD_PID st' = pid"
    "n \<in> {SIGHUP A, SIGTERM A, SIGINT A} \<Longrightarrow> sa_sigaction (sv_action V w' n) = Handler_terminate"
    "n \<notin> {SIGHUP A, SIGTERM A, SIGINT A} \<Longrightarrow> sv_action V w' n = sv_action V w n"
    by simp_all
qed

section \<open>A concrete process\<close>

text \<open>A world that records the dispositions, the pending alarm, the signals sent and a budget of calls
  that succeed.\<close>

record signal_world =
  sw_action :: "c_int \<Rightarrow> c_int set sigaction"
  sw_alarm :: u32
  sw_sent :: "(c_int \<times> c_int) list"
  sw_budget :: nat

definition default_action :: "c_int set sigaction" where
  "default_action = \<lparr>sa_sigaction = SIG_DFL, sa_mask = {}, sa_flags = 0\<rparr>"

definition sw_api :: "(c_int set, signal_world) signal_api" where
  "sw_api =
     \<lparr>SIGHUP = 1, SIGINT = 2, SIGTERM = 15, SIGALRM = 14, zeroed_sigset = {},
      c_sigaddset = (\<lambda>s n w. ((0, insert n s), w)),
      c_sigaction = (\<lambda>n a w. if sw_budget w = 0 then (-1, w)
        else (0, w\<lparr>sw_action := (sw_action w)(n := a), sw_budget := sw_budget w - 1\<rparr>)),
      c_kill = (\<lambda>pid n w. (0, w\<lparr>sw_sent := (pid, n) # sw_sent w\<rparr>)),
      c_alarm = (\<lambda>n w. (sw_alarm w, w\<lparr>sw_alarm := n\<rparr>)), sig_os_error = (\<lambda>w. error_of_kind (OtherKind 22))\<rparr>"

definition sw_view :: "(c_int set, signal_world) signal_view" where
  "sw_view = \<lparr>sv_members = id, sv_action = sw_action, sv_alarm = sw_alarm\<rparr>"

definition fresh_signals :: signal_world where
  "fresh_signals = \<lparr>sw_action = (\<lambda>_. default_action), sw_alarm = 0, sw_sent = [], sw_budget = 2\<rparr>"

lemma sw_laws [simp]: "signal_laws sw_api sw_view"
  unfolding signal_laws_def by (intro conjI allI) (auto simp: sw_api_def sw_view_def split: if_splits)

section \<open>Properties\<close>

text \<open>C9. \<^verbatim>\<open>kill_child_on_signal\<close>. On success exactly SIGHUP, SIGTERM and SIGINT get a new action, which masks exactly
  those three and is the handler; whichever of them is delivered then sends SIGTERM to the given
  process and resumes. On an error a proper prefix of the three (in that order) got the action.
  Every other signal keeps its disposition, and \<^verbatim>\<open>CHILD_PID\<close> is set in any case.\<close>

theorem kill_child_on_signal_installs:
  assumes laws: "signal_laws A V" and run: "kill_child_on_signal A pid st w = (r, st', w')"
  shows "CHILD_PID st' = pid \<and>
    (\<exists>k a. sa_sigaction a = Handler_terminate \<and> (k = 0 \<or> sv_members V (sa_mask a) = {SIGHUP A, SIGTERM A, SIGINT A}) \<and>
       (r = Ok () \<longrightarrow> k = 3) \<and> (\<forall>e. r = Err e \<longrightarrow> k < 3) \<and>
       (\<forall>n. sv_action V w' n =
          (if n \<in> set (take k [SIGHUP A, SIGTERM A, SIGINT A]) then a else sv_action V w n))) \<and>
    (r = Ok () \<longrightarrow> (\<forall>n \<in> {SIGHUP A, SIGTERM A, SIGINT A}. \<forall>v.
       deliver A (sa_sigaction (sv_action V w' n)) st' v = Some (Resume (snd (c_kill A pid (SIGTERM A) v)))))"
proof -
  let ?ss = "[SIGHUP A, SIGTERM A, SIGINT A]" and ?a = "(zeroed_action A)\<lparr>sa_sigaction := Handler_terminate\<rparr>"
  have zero: "sv_members V (zeroed_sigset A) = {}" using laws by (simp add: signal_laws_def)
  obtain r1 w1 where m: "mask_signals A ?ss ?a w = (r1, w1)" by fastforce
  note l = mask_signals_law [OF laws m]
  have st': "st' = st\<lparr>CHILD_PID := pid\<rparr>"
    using run by (auto simp: kill_child_on_signal_def Let_def split: prod.splits io_result.splits)
  show ?thesis
  proof (cases r1)
    case (Err e)
    then have "r = Err e" "w' = w1" using run m by (simp_all add: kill_child_on_signal_def Let_def)
    then show ?thesis
      using l st' by (intro conjI exI [of _ 0] exI [of _ ?a]) simp_all
  next
    case (Ok act)
    then have i: "install A ?ss act w1 = (r, w')"
      using run m by (auto simp: kill_child_on_signal_def Let_def split: prod.splits)
    from install_law [OF laws i] obtain k where k: "r = Ok () \<longrightarrow> k = length ?ss" "\<forall>e. r = Err e \<longrightarrow> k < length ?ss"
      "\<And>n. sv_action V w' n = (if n \<in> set (take k ?ss) then act else sv_action V w1 n)" by blast
    have act: "sa_sigaction act = Handler_terminate" "sv_members V (sa_mask act) = {SIGHUP A, SIGTERM A, SIGINT A}"
      "sv_action V w1 = sv_action V w"
      using l Ok zero by (simp_all add: zeroed_action_def)
    have "sa_sigaction (sv_action V w' n) = Handler_terminate" if "r = Ok ()" "n \<in> {SIGHUP A, SIGTERM A, SIGINT A}" for n
      using k(1,3) that act(1) by auto
    moreover have "deliver A Handler_terminate st' v = Some (Resume (snd (c_kill A pid (SIGTERM A) v)))" for v
      by (simp add: deliver_def on_terminate_signal_def st' split: prod.split)
    moreover have "r = Ok () \<longrightarrow> k = 3" "\<forall>e. r = Err e \<longrightarrow> k < 3" using k(1,2) by (simp_all add: eval_nat_numeral)
    ultimately show ?thesis
      using k(3) act st' by (intro conjI exI [of _ k] exI [of _ act]) simp_all
  qed
qed

theorem kill_child_on_signal_installs_witness:
  "(\<exists>w'. kill_child_on_signal sw_api 42 initial_statics (fresh_signals\<lparr>sw_budget := 3\<rparr>) = (Ok (), \<lparr>CHILD_PID = 42\<rparr>, w') \<and>
     deliver sw_api (sa_sigaction (sw_action w' 2)) \<lparr>CHILD_PID = 42\<rparr> w' = Some (Resume (w'\<lparr>sw_sent := [(42, 15)]\<rparr>)))"
proof -
  have "\<exists>w'. kill_child_on_signal sw_api 42 initial_statics (fresh_signals\<lparr>sw_budget := 3\<rparr>) = (Ok (), \<lparr>CHILD_PID = 42\<rparr>, w') \<and>
      sw_sent w' = []"
    by (simp add: kill_child_on_signal_def safe_sigaddset_def safe_sigaction_def sw_api_def fresh_signals_def
        initial_statics_def Let_def)
  then obtain w' where run: "kill_child_on_signal sw_api 42 initial_statics (fresh_signals\<lparr>sw_budget := 3\<rparr>) =
      (Ok (), \<lparr>CHILD_PID = 42\<rparr>, w')" and sent: "sw_sent w' = []" by blast
  have "\<forall>n \<in> {SIGHUP sw_api, SIGTERM sw_api, SIGINT sw_api}. \<forall>v.
      deliver sw_api (sa_sigaction (sv_action sw_view w' n)) \<lparr>CHILD_PID = 42\<rparr> v =
        Some (Resume (snd (c_kill sw_api 42 (SIGTERM sw_api) v)))"
    using kill_child_on_signal_installs [OF sw_laws run] by simp
  then have "deliver sw_api (sa_sigaction (sv_action sw_view w' (SIGINT sw_api))) \<lparr>CHILD_PID = 42\<rparr> w' =
      Some (Resume (snd (c_kill sw_api 42 (SIGTERM sw_api) w')))" by simp
  then show ?thesis using run sent by (auto simp: sw_api_def sw_view_def)
qed

text \<open>C38. \<^verbatim>\<open>exit_after_timeout\<close>. On success SIGALRM, and no other signal, has the handler that ends the process with
  status 255, and an alarm is pending after the given number of seconds; on an error nothing changed.\<close>

theorem exit_after_timeout_arms:
  assumes laws: "signal_laws A V" and run: "exit_after_timeout A seconds w = (r, w')"
  shows "case r of
      Err e \<Rightarrow> sv_action V w' = sv_action V w \<and> sv_alarm V w' = sv_alarm V w
    | Ok _ \<Rightarrow> sv_alarm V w' = seconds \<and> (\<forall>n. n \<noteq> SIGALRM A \<longrightarrow> sv_action V w' n = sv_action V w n) \<and>
        (\<forall>st v. deliver A (sa_sigaction (sv_action V w' (SIGALRM A))) st v = Some (Process_exit 255 v))"
proof -
  let ?a = "(zeroed_action A)\<lparr>sa_sigaction := Handler_alarm\<rparr>"
  obtain r1 w1 where m: "mask_signals A [SIGALRM A] ?a w = (r1, w1)" by fastforce
  note l = mask_signals_law [OF laws m]
  show ?thesis
  proof (cases r1)
    case (Err e)
    then show ?thesis using run m l by (auto simp: exit_after_timeout_def Let_def)
  next
    case (Ok act)
    obtain r2 w2 where i: "safe_sigaction A (SIGALRM A) act w1 = (r2, w2)" by fastforce
    note li = safe_sigaction_law [OF laws i]
    have al: "sv_action V (snd (c_alarm A n v)) = sv_action V v" "sv_alarm V (snd (c_alarm A n v)) = n" for n v
      using laws by (simp_all add: signal_laws_def)
    have act: "sa_sigaction act = Handler_alarm" "sv_action V w1 = sv_action V w" "sv_alarm V w1 = sv_alarm V w"
      using l Ok by simp_all
    show ?thesis
    proof (cases r2)
      case (Err e)
      then show ?thesis using run m \<open>r1 = Ok act\<close> i li act by (auto simp: exit_after_timeout_def Let_def)
    next
      case (Ok u)
      then have "r = Ok ()" "w' = snd (c_alarm A seconds w2)"
        using run m \<open>r1 = Ok act\<close> i by (auto simp: exit_after_timeout_def Let_def split: prod.splits)
      then show ?thesis
        using li Ok act al by (simp add: deliver_def on_exit_alarm_def)
    qed
  qed
qed

theorem exit_after_timeout_arms_witness:
  "\<exists>w'. exit_after_timeout sw_api 30 fresh_signals = (Ok (), w') \<and> sw_alarm w' = 30 \<and>
     (\<forall>n. n \<noteq> 14 \<longrightarrow> sw_action w' n = default_action) \<and>
     deliver sw_api (sa_sigaction (sw_action w' 14)) initial_statics w' = Some (Process_exit 255 w')"
proof -
  have "\<exists>w'. exit_after_timeout sw_api 30 fresh_signals = (Ok (), w')"
    by (simp add: exit_after_timeout_def safe_sigaddset_def safe_sigaction_def sw_api_def fresh_signals_def Let_def)
  then obtain w' where run: "exit_after_timeout sw_api 30 fresh_signals = (Ok (), w')" by blast
  show ?thesis
    using exit_after_timeout_arms [OF sw_laws run] run
    by (auto simp: sw_view_def sw_api_def fresh_signals_def)
qed

end
