(* ===== verification/Reference_Kernel.thy ===== *)
theory Reference_Kernel
  imports Platform Signals
begin

unbundle bit_operations_syntax

text \<open>
  A concrete platform that satisfies the laws of \<^verbatim>\<open>Platform\<close>: in-memory streams, a table of open
  descriptors and one epoll instance, with the event bits of Linux. It shows that the hypotheses
  of the development can hold together, and its functions compute.
\<close>

section \<open>Event bits\<close>

definition linux_events :: events_api where
  "linux_events =
     \<lparr>EPOLLIN = 1, EPOLLOUT = 4, EPOLLERR = 8, EPOLLHUP = 16, ev_empty = 0,
      ev_set = (\<lambda>e f v. if v then e OR f else e AND NOT f), ev_contains = (\<lambda>e f. e AND f = f),
      from_bits_truncate = (\<lambda>e. e AND 0xF00023DF)\<rparr>"

lemma and_exp_eq_iff:
  assumes "n < LENGTH('a)"
  shows "(a :: 'a :: len word) AND 2 ^ n = 2 ^ n \<longleftrightarrow> bit a n"
proof
  assume "a AND 2 ^ n = 2 ^ n"
  then have "bit (a AND 2 ^ n) n = bit (2 ^ n :: 'a word) n" by simp
  then show "bit a n" using assms by (simp add: bit_and_iff bit_exp_iff)
next
  assume "bit a n"
  then show "a AND 2 ^ n = 2 ^ n" by (intro bit_word_eqI) (auto simp: bit_and_iff bit_exp_iff)
qed

lemma contains_bits:
  "(e :: u32) AND 1 = 1 \<longleftrightarrow> bit e 0" "e AND 4 = 4 \<longleftrightarrow> bit e 2" "e AND 8 = 8 \<longleftrightarrow> bit e 3" "e AND 16 = 16 \<longleftrightarrow> bit e 4"
  using and_exp_eq_iff [of 0 e] and_exp_eq_iff [of 2 e] and_exp_eq_iff [of 3 e] and_exp_eq_iff [of 4 e] by simp_all

lemma linux_events_laws [simp]: "events_laws linux_events"
  by (auto simp: events_laws_def ev_flags_def linux_events_def contains_bits bit_and_iff bit_or_iff bit_not_iff)

section \<open>World\<close>

record sim_world =
  sim_open :: "RawFd list"
  sim_interest :: "RawFd \<rightharpoonup> Event"
  sim_in :: "RawFd \<Rightarrow> u8 list"
  sim_out :: "RawFd \<Rightarrow> u8 list"
  sim_next :: "RawFd list"
  sim_batches :: "Event list list"
  sim_sig :: signal_world

text \<open>\<open>sim_next\<close> are the descriptors that the next accepted connections get, \<open>sim_batches\<close> what the
  next waits report, \<open>sim_sig\<close> the dispositions of signals and the signals sent.\<close>

definition sim_error :: io_error where
  "sim_error = error_of_kind (OtherKind 0)"

definition sim_platform :: "sim_world platform" where
  "sim_platform =
     \<lparr>plat_events = linux_events, EIO = 5,
      sys_read = (\<lambda>fd s w. let n = min (length s) (length (sim_in w fd))
        in ((Ok n, take n (sim_in w fd) @ drop n s), w\<lparr>sim_in := (sim_in w)(fd := drop n (sim_in w fd))\<rparr>)),
      sys_write = (\<lambda>fd s w. (Ok (length s), w\<lparr>sim_out := (sim_out w)(fd := sim_out w fd @ s)\<rparr>)),
      sys_flush = (\<lambda>fd w. (Ok (), w)),
      sys_accept = (\<lambda>fd w. case sim_next w of
          [] \<Rightarrow> (Err sim_error, w)
        | c # cs \<Rightarrow> if c \<in> set (sim_open w) then (Err sim_error, w)
            else (Ok c, w\<lparr>sim_open := c # sim_open w, sim_next := cs\<rparr>)),
      sys_close = (\<lambda>fd w. w\<lparr>sim_open := removeAll fd (sim_open w), sim_interest := (sim_interest w)(fd := None)\<rparr>),
      epoll_create = (\<lambda>flag w. case sim_next w of
          [] \<Rightarrow> (Err sim_error, w)
        | c # cs \<Rightarrow> (Ok c, w\<lparr>sim_open := c # sim_open w, sim_next := cs, sim_interest := Map.empty\<rparr>)),
      epoll_ctl = (\<lambda>ep op fd ev w. case op of
          EPOLL_CTL_ADD \<Rightarrow> if sim_interest w fd \<noteq> None then (Err sim_error, w)
            else (Ok (), w\<lparr>sim_interest := (sim_interest w)(fd \<mapsto> ev)\<rparr>)
        | EPOLL_CTL_MOD \<Rightarrow> if sim_interest w fd = None then (Err sim_error, w)
            else (Ok (), w\<lparr>sim_interest := (sim_interest w)(fd \<mapsto> ev)\<rparr>)
        | EPOLL_CTL_DEL \<Rightarrow> if sim_interest w fd = None then (Err sim_error, w)
            else (Ok (), w\<lparr>sim_interest := (sim_interest w)(fd := None)\<rparr>)),
      epoll_wait = (\<lambda>ep t evs w. case sim_batches w of
          [] \<Rightarrow> ((Err (error_of_kind Interrupted), evs), w)
        | b # bs \<Rightarrow> let n = min (length b) (length evs)
            in ((Ok n, take n b @ drop n evs), w\<lparr>sim_batches := bs\<rparr>))\<rparr>"

definition sim_view :: "(RawFd \<rightharpoonup> Event) \<Rightarrow> sim_world kernel_view" where
  "sim_view F = \<lparr>kv_opened = (\<lambda>w. set (sim_open w)), kv_interest = sim_interest, kv_foreign = F\<rparr>"

lemma sim_view_simps [simp]:
  "kv_opened (sim_view F) w = set (sim_open w)" "kv_interest (sim_view F) = sim_interest" "kv_foreign (sim_view F) = F"
  by (simp_all add: sim_view_def)

lemma sim_platform_events [simp]: "plat_events sim_platform = linux_events"
  by (simp add: sim_platform_def)

lemma sim_platform_laws: "platform_laws sim_platform (kv_opened (sim_view F))"
  unfolding platform_laws_def
  by (auto simp: sim_platform_def sim_view_def read_contract_def write_contract_def fd_writer_def Let_def
      split: list.splits if_splits ControlOptions.splits)

lemma sim_epoll_laws: "epoll_laws sim_platform ep (kv_interest (sim_view F))"
  unfolding epoll_laws_def
  by (auto simp: sim_platform_def sim_view_def Let_def split: list.splits if_splits ControlOptions.splits)

lemma sim_kernel_laws [simp]: "kernel_laws sim_platform ep (sim_view F)"
  unfolding kernel_laws_def by (intro conjI sim_platform_laws sim_epoll_laws)

section \<open>Evaluation\<close>

lemma linux_event_simps [simp]:
  "EPOLLIN linux_events = 1" "EPOLLOUT linux_events = 4" "EPOLLERR linux_events = 8" "EPOLLHUP linux_events = 16"
  "ev_empty linux_events = 0" "ev_set linux_events e f v = (if v then e OR f else e AND NOT f)"
  "ev_contains linux_events e f \<longleftrightarrow> e AND f = f" "from_bits_truncate linux_events e = e AND 0xF00023DF"
  by (simp_all add: linux_events_def)

lemma sim_call_simps [simp]:
  "sys_read sim_platform fd s w = (let n = min (length s) (length (sim_in w fd))
     in ((Ok n, take n (sim_in w fd) @ drop n s), w\<lparr>sim_in := (sim_in w)(fd := drop n (sim_in w fd))\<rparr>))"
  "sys_write sim_platform fd s w = (Ok (length s), w\<lparr>sim_out := (sim_out w)(fd := sim_out w fd @ s)\<rparr>)"
  "sys_flush sim_platform fd w = (Ok (), w)"
  "sys_accept sim_platform fd w = (case sim_next w of
      [] \<Rightarrow> (Err sim_error, w)
    | c # cs \<Rightarrow> if c \<in> set (sim_open w) then (Err sim_error, w)
        else (Ok c, w\<lparr>sim_open := c # sim_open w, sim_next := cs\<rparr>))"
  "sys_close sim_platform fd w =
     w\<lparr>sim_open := removeAll fd (sim_open w), sim_interest := (sim_interest w)(fd := None)\<rparr>"
  "epoll_create sim_platform b w = (case sim_next w of
      [] \<Rightarrow> (Err sim_error, w)
    | c # cs \<Rightarrow> (Ok c, w\<lparr>sim_open := c # sim_open w, sim_next := cs, sim_interest := Map.empty\<rparr>))"
  "epoll_ctl sim_platform ep EPOLL_CTL_ADD fd ev w = (if sim_interest w fd \<noteq> None then (Err sim_error, w)
     else (Ok (), w\<lparr>sim_interest := (sim_interest w)(fd \<mapsto> ev)\<rparr>))"
  "epoll_ctl sim_platform ep EPOLL_CTL_MOD fd ev w = (if sim_interest w fd = None then (Err sim_error, w)
     else (Ok (), w\<lparr>sim_interest := (sim_interest w)(fd \<mapsto> ev)\<rparr>))"
  "epoll_ctl sim_platform ep EPOLL_CTL_DEL fd ev w = (if sim_interest w fd = None then (Err sim_error, w)
     else (Ok (), w\<lparr>sim_interest := (sim_interest w)(fd := None)\<rparr>))"
  "epoll_wait sim_platform ep t evs w = (case sim_batches w of
      [] \<Rightarrow> ((Err (error_of_kind Interrupted), evs), w)
    | b # bs \<Rightarrow> let n = min (length b) (length evs)
        in ((Ok n, take n b @ drop n evs), w\<lparr>sim_batches := bs\<rparr>))"
  by (simp_all add: sim_platform_def cong: list.case_cong)

end
