(* ===== verification/Sample_Run.thy ===== *)
theory Sample_Run
  imports Manager_Progress Reference_Kernel
begin

text \<open>
  A concrete run on the reference kernel: the manager of \<^verbatim>\<open>run_stdio_pipes\<close> with the child's pipes at
  descriptors 3, 4 and 5, the listening socket at 6 and the close notification at 7. The pollster is
  created; before its first iteration the child has written two bytes to its stdout, and before the
  second one a client has connected. The states are computed from the model and used where a
  theorem is applied to an actual execution.
\<close>

definition sample_manager :: "ChildPipes IOSockChannelManager" where
  "sample_manager = manager_new (pipes_new 3 4 5) 6"

definition sample_world :: sim_world where
  "sample_world =
     \<lparr>sim_open = [0, 1, 2, 3, 4, 5, 6, 7], sim_interest = Map.empty, sim_in = (\<lambda>_. [])(4 := [104, 105]),
      sim_out = (\<lambda>_. []), sim_next = [8, 9],
      sim_batches = [[\<lparr>events = 1, event_data = 4\<rparr>], [\<lparr>events = 1, event_data = 6\<rparr>]],
      sim_sig = fresh_signals\<lparr>sw_budget := 3\<rparr>\<rparr>"

definition sample_view :: "sim_world kernel_view" where
  "sample_view = sim_view [7 \<mapsto> \<lparr>events = 1, event_data = 7\<rparr>]"

definition sample_fd_set :: PolledFdSet where
  "sample_fd_set =
     \<lparr>existing =
        [\<lparr>pfd_fd = 3, pfd_event = \<lparr>events = 0, event_data = 3\<rparr>, new_events = 0\<rparr>,
         \<lparr>pfd_fd = 4, pfd_event = \<lparr>events = 1, event_data = 4\<rparr>, new_events = 1\<rparr>,
         \<lparr>pfd_fd = 5, pfd_event = \<lparr>events = 1, event_data = 5\<rparr>, new_events = 1\<rparr>,
         \<lparr>pfd_fd = 6, pfd_event = \<lparr>events = 1, event_data = 6\<rparr>, new_events = 1\<rparr>,
         \<lparr>pfd_fd = 1, pfd_event = \<lparr>events = 0, event_data = 1\<rparr>, new_events = 0\<rparr>],
      new = [], removed = []\<rparr>"

definition sample_pollster :: "ChildPipes IOSockChannelManager Pollster" where
  "sample_pollster =
     \<lparr>poll_fd = 8, close_fd = 7, poll_events = replicate 5 \<lparr>events = 0, event_data = 0\<rparr>,
      fd_set = sample_fd_set, channel_mgr = sample_manager\<rparr>"

definition sample_interest :: "RawFd \<rightharpoonup> Event" where
  "sample_interest =
     [7 \<mapsto> \<lparr>events = 1, event_data = 7\<rparr>, 3 \<mapsto> \<lparr>events = 0, event_data = 3\<rparr>,
      4 \<mapsto> \<lparr>events = 1, event_data = 4\<rparr>, 5 \<mapsto> \<lparr>events = 1, event_data = 5\<rparr>,
      6 \<mapsto> \<lparr>events = 1, event_data = 6\<rparr>, 1 \<mapsto> \<lparr>events = 0, event_data = 1\<rparr>]"

definition sample_world1 :: sim_world where
  "sample_world1 = sample_world\<lparr>sim_open := [8, 0, 1, 2, 3, 4, 5, 6, 7], sim_interest := sample_interest, sim_next := [9]\<rparr>"

definition sample_buffer :: FlipBuffer where
  "sample_buffer = new_buffer\<lparr>write_page := 104 # 105 # replicate 32766 0, write_cursor := 2\<rparr>"

definition sample_fd_set2 :: PolledFdSet where
  "sample_fd_set2 =
     \<lparr>existing =
        [\<lparr>pfd_fd = 3, pfd_event = \<lparr>events = 0, event_data = 3\<rparr>, new_events = 0\<rparr>,
         \<lparr>pfd_fd = 4, pfd_event = \<lparr>events = 1, event_data = 4\<rparr>, new_events = 1\<rparr>,
         \<lparr>pfd_fd = 5, pfd_event = \<lparr>events = 1, event_data = 5\<rparr>, new_events = 1\<rparr>,
         \<lparr>pfd_fd = 6, pfd_event = \<lparr>events = 1, event_data = 6\<rparr>, new_events = 1\<rparr>,
         \<lparr>pfd_fd = 1, pfd_event = \<lparr>events = 4, event_data = 1\<rparr>, new_events = 4\<rparr>],
      new = [], removed = []\<rparr>"

definition sample_pollster2 :: "ChildPipes IOSockChannelManager Pollster" where
  "sample_pollster2 = sample_pollster\<lparr>
     poll_events := \<lparr>events = 1, event_data = 4\<rparr> # replicate 4 \<lparr>events = 0, event_data = 0\<rparr>,
     fd_set := sample_fd_set2, channel_mgr := sample_manager\<lparr>out_buffer := sample_buffer\<rparr>\<rparr>"

definition sample_world2 :: sim_world where
  "sample_world2 = sample_world1\<lparr>sim_interest := sample_interest(1 \<mapsto> \<lparr>events = 4, event_data = 1\<rparr>),
     sim_in := (\<lambda>_. []), sim_batches := [[\<lparr>events = 1, event_data = 6\<rparr>]]\<rparr>"

definition sample_client :: "ChildPipes IOSockChannelManager" where
  "sample_client = sample_manager\<lparr>client_socket := Some \<lparr>stream = 9, availability = ReadWrite\<rparr>, out_buffer := sample_buffer\<rparr>"

definition sample_fd_set3 :: PolledFdSet where
  "sample_fd_set3 = sample_fd_set\<lparr>existing := existing sample_fd_set @
     [\<lparr>pfd_fd = 9, pfd_event = \<lparr>events = 5, event_data = 9\<rparr>, new_events = 5\<rparr>]\<rparr>"

definition sample_pollster3 :: "ChildPipes IOSockChannelManager Pollster" where
  "sample_pollster3 = sample_pollster\<lparr>
     poll_events := \<lparr>events = 1, event_data = 6\<rparr> # replicate 4 \<lparr>events = 0, event_data = 0\<rparr>,
     fd_set := sample_fd_set3, channel_mgr := sample_client\<rparr>"

definition sample_world3 :: sim_world where
  "sample_world3 = sample_world2\<lparr>sim_open := 9 # sim_open sample_world1,
     sim_interest := sample_interest(9 \<mapsto> \<lparr>events = 5, event_data = 9\<rparr>), sim_next := [], sim_batches := []\<rparr>"

lemmas sample_manager_defs = sample_manager_def manager_new_def pipes_new_def stdout_raw_fd_def
lemmas sample_defs = sample_manager_defs sample_world_def sample_fd_set_def sample_pollster_def sample_interest_def
  sample_world1_def
lemmas manager_ops = iosock_manager_def pipes_ops pipes_initialize_def initialize_def

lemma sample_new:
  "pollster_new sim_platform (iosock_manager sim_platform (pipes_stdio sim_platform)) sample_manager 7 sample_world =
     Some (Ok sample_pollster, sample_world1)"
  by (simp add: manager_ops registry_ops loop_ops sample_defs Let_def POLLSTER_MAX_FDS_def)

lemma sample_read:
  assumes "sim_in w fd = [104, 105]"
  shows "channel_to_buffer (sys_read sim_platform fd) new_buffer w =
    Some (Ok (False, BecameNonEmpty), sample_buffer, w\<lparr>sim_in := (sim_in w)(fd := [])\<rparr>)"
  using assms
  by (simp add: channel_to_buffer_def read_or_drain_def read_from_def new_buffer_def heap_buffer_def
      BUFFER_CAPACITY_def slice_range_def Let_def usize_sub_def usize_add_def is_read_empty_def is_write_empty_def
      overwrite_def copy_outcome_def sample_buffer_def)

lemma sample_iteration:
  "run_iteration sim_platform (iosock_manager sim_platform (pipes_stdio sim_platform)) sample_pollster sample_world1 =
     Some (Continue, sample_pollster2, sample_world2)"
  by (simp add: manager_ops registry_ops loop_ops sample_defs Let_def on_readable_def client_stream_def
      read_child_def sample_read request_primary_output_writable_def sample_pollster2_def sample_fd_set2_def
      sample_world2_def fun_upd_idem)

lemma sample_size: "writable_size sample_buffer = Some 2"
  by (simp add: writable_size_def sample_buffer_def new_buffer_def usize_sub_def usize_add_def)

lemma sample_accept_iteration:
  "run_iteration sim_platform (iosock_manager sim_platform (pipes_stdio sim_platform)) sample_pollster2 sample_world2 =
     Some (Continue, sample_pollster3, sample_world3)"
  by (simp add: manager_ops registry_ops loop_ops sample_defs Let_def on_readable_def accept_client_def sample_size
      sample_pollster2_def sample_fd_set2_def sample_world2_def sample_client_def sample_fd_set3_def
      sample_pollster3_def sample_world3_def fun_upd_twist)

lemma sample_creates: "creates_epoll sim_platform sample_view sample_world"
  by (auto simp: creates_epoll_def sample_view_def sample_world_def)

lemma sample_foreign: "kv_foreign sample_view = [7 \<mapsto> event_new (EPOLLIN (plat_events sim_platform)) (fd_data 7)]"
  by (simp add: sample_view_def event_new_def fd_data_def)

lemma sample_startable:
  "mgr_startable sample_view pipes_inv pipes_started (pipes_stdio sim_platform) sample_manager sample_world"
  by (simp add: mgr_startable_def sample_defs sample_view_def pipes_inv_def pipes_started_def roles_distinct_def
      role_defs child_fds_def pipes_stdio_def)

lemma sample_laws [simp]: "kernel_laws sim_platform ep sample_view"
  by (simp add: sample_view_def)

lemma sample_inv: "mgr_inv sim_platform sample_view pipes_inv (pipes_stdio sim_platform) sample_manager sample_fd_set sample_world1"
  and sample_polled: "polled_as_requested linux_events sample_view sample_fd_set sample_world1"
  using pipes_mgr.new_establishes [OF sample_creates sample_startable sample_foreign] sample_new
  by (simp_all add: sample_pollster_def)

lemma sample_reaches:
  "reaches sim_platform (iosock_manager sim_platform (pipes_stdio sim_platform)) sample_pollster sample_world1
     sample_pollster2 sample_world2"
  by (rule reaches_step [OF reaches_refl sample_iteration])

lemma sample_inv2: "mgr_inv sim_platform sample_view pipes_inv (pipes_stdio sim_platform)
    (sample_manager\<lparr>out_buffer := sample_buffer\<rparr>) sample_fd_set2 sample_world2"
  using pipes_mgr.reaches_keeps [OF sample_reaches, of sample_view] sample_inv sample_polled
  by (simp add: sample_pollster_def sample_pollster2_def)

lemma sample_contents [simp]: "contents sample_buffer = [104, 105]"
  by (simp add: contents_def readable_part_def sample_buffer_def new_buffer_def)

lemma sample_inv3: "mgr_inv sim_platform sample_view pipes_inv (pipes_stdio sim_platform) sample_client sample_fd_set3 sample_world3"
  using pipes_mgr.reaches_keeps [OF reaches_step [OF sample_reaches sample_accept_iteration], of sample_view] sample_inv
    sample_polled
  by (simp add: sample_pollster_def sample_pollster3_def)

end
