(* ===== verification/Run_Properties.thy ===== *)
theory Run_Properties
  imports Sample_Run
begin

text \<open>
  Properties of the event loop that hold for every channel manager: how \<^verbatim>\<open>run\<close> relates to its
  iterations, when it ends and with what result, and what \<^verbatim>\<open>apply_poll_updates\<close> makes of the kernel's
  interest list.
\<close>

section \<open>Running and ending\<close>

lemma reaches_close_fd:
  assumes "reaches P cm p0 w0 p w"
  shows "close_fd p = close_fd p0 \<and> poll_fd p = poll_fd p0"
  using assms
proof (induction rule: reaches.induct)
  case (reaches_step p w p' w')
  have "close_fd p' = close_fd p \<and> poll_fd p' = poll_fd p"
    using reaches_step.hyps(2)
    by (auto simp: run_iteration_def apply_poll_updates_def Let_def
        split: prod.splits io_result.splits bind_splits bool.splits if_splits)
  then show ?case using reaches_step.IH by simp
qed simp

text \<open>C22. \<^verbatim>\<open>run\<close> returns \<^verbatim>\<open>Ok\<close> only because of the close notification: some wait it reached reported an
  event for the close descriptor.\<close>

theorem run_ok_only_after_close:
  assumes "run P cm p0 w0 = Some (Some (Ok (), p', w'))"
  shows "\<exists>p w n evs w1. reaches P cm p0 w0 p w \<and>
    epoll_wait P (poll_fd p0) (-1) (poll_events p) w = ((Ok n, evs), w1) \<and> close_reported (close_fd p0) n evs"
proof -
  from assms obtain p w where r: "reaches P cm p0 w0 p w" and it: "run_iteration P cm p w = Some (Return (Ok ()), p', w')"
    by (auto simp: run_iff_ends loop_ends_def)
  then show ?thesis using run_iteration_Ok [OF it] reaches_close_fd [OF r] by metis
qed

definition closing_world :: sim_world where
  "closing_world = sample_world1\<lparr>sim_batches := [[\<lparr>events = 1, event_data = 7\<rparr>, \<lparr>events = 1, event_data = 4\<rparr>]]\<rparr>"

definition closed_world :: sim_world where
  "closed_world = sample_world1\<lparr>sim_batches := [], sim_in := (\<lambda>_. [])\<rparr>"

definition closed_pollster :: "ChildPipes IOSockChannelManager Pollster" where
  "closed_pollster = sample_pollster\<lparr>
     poll_events := \<lparr>events = 1, event_data = 7\<rparr> # \<lparr>events = 1, event_data = 4\<rparr> #
       replicate 3 \<lparr>events = 0, event_data = 0\<rparr>,
     fd_set := sample_fd_set\<lparr>existing := butlast (existing sample_fd_set) @
       [\<lparr>pfd_fd = 1, pfd_event = \<lparr>events = 0, event_data = 1\<rparr>, new_events = 4\<rparr>]\<rparr>,
     channel_mgr := sample_manager\<lparr>out_buffer := sample_buffer\<rparr>\<rparr>"

lemma closing_iteration:
  "run_iteration sim_platform (iosock_manager sim_platform (pipes_stdio sim_platform)) sample_pollster closing_world =
     Some (Return (Ok ()), closed_pollster, closed_world)"
  by (simp add: manager_ops registry_ops loop_ops sample_defs Let_def on_readable_def client_stream_def
      read_child_def sample_read request_primary_output_writable_def closing_world_def closed_world_def
      closed_pollster_def fun_upd_idem)

lemma closing_run:
  "run sim_platform (iosock_manager sim_platform (pipes_stdio sim_platform)) sample_pollster closing_world =
     Some (Some (Ok (), closed_pollster, closed_world))"
  by (subst run.simps) (simp add: closing_iteration)

theorem run_ok_only_after_close_witness:
  "\<exists>p w n evs w1. reaches sim_platform (iosock_manager sim_platform (pipes_stdio sim_platform)) sample_pollster
      closing_world p w \<and>
    epoll_wait sim_platform 8 (-1) (poll_events p) w = ((Ok n, evs), w1) \<and> close_reported 7 n evs"
  using run_ok_only_after_close [OF closing_run] by (simp add: sample_pollster_def)

text \<open>The specification of a batch: all its events but the close notifications are dispatched in the order of the
  report, up to the first handler that fails.\<close>

fun dispatch_all ::
  "'w platform \<Rightarrow> ('m, 'w) ChannelManager \<Rightarrow> Event list \<Rightarrow> 'm \<Rightarrow> PolledFdSet \<Rightarrow> 'w \<Rightarrow>
     (unit io_result \<times> 'm \<times> PolledFdSet \<times> 'w) option" where
  "dispatch_all P cm [] m s w = Some (Ok (), m, s, w)"
| "dispatch_all P cm (ev # evs) m s w = do {
     (r, m, s, w) \<leftarrow> dispatch P cm (from_bits_truncate (plat_events P) (events ev)) (data_fd (event_data ev)) m s w;
     (case r of
        Err e \<Rightarrow> Some (Err e, m, s, w)
      | Ok _ \<Rightarrow> dispatch_all P cm evs m s w)
   }"

definition other_events :: "RawFd \<Rightarrow> Event list \<Rightarrow> Event list" where
  "other_events cfd evs = filter (\<lambda>ev. data_fd (event_data ev) \<noteq> cfd) evs"

lemma process_events_dispatch_all:
  "process_events P cm cfd (map Some evs) fin m s w =
     (case dispatch_all P cm (other_events cfd evs) m s w of
        None \<Rightarrow> None
      | Some (Err e, m, s, w) \<Rightarrow> Some (Err e, m, s, w)
      | Some (Ok _, m, s, w) \<Rightarrow> Some (Ok (fin \<or> (\<exists>ev \<in> set evs. data_fd (event_data ev) = cfd)), m, s, w))"
proof (induction evs arbitrary: fin m s w)
  case (Cons ev evs)
  then show ?case
    by (auto simp: other_events_def Let_def split: option.split io_result.split Option.bind_split)
qed (simp add: other_events_def)

lemma first_events_take: "n \<le> length evs \<Longrightarrow> first_events n evs = map Some (take n evs)"
  by (rule nth_equalityI) (auto simp: first_events_def)

text \<open>C6. The close notification ends the loop. When a wait that \<^verbatim>\<open>run\<close> reaches reports the close descriptor, anywhere
  in the batch, all other events of the batch, those before and those after the notification, are still dispatched in
  order, and \<^verbatim>\<open>run\<close> then ends: with \<^verbatim>\<open>Ok\<close> if every handler succeeded, with the error of the first handler that failed,
  or with the panic of one.\<close>

theorem run_returns_on_close:
  assumes "reaches P cm p0 w0 p w"
    and "epoll_wait P (poll_fd p) (-1) (poll_events p) w = ((Ok n, evs), w1)" and "n \<le> length evs"
    and "close_reported (close_fd p) n evs"
  shows "run P cm p0 w0 = Some
    (case dispatch_all P cm (other_events (close_fd p) (take n evs)) (channel_mgr p) (fd_set p) w1 of
       None \<Rightarrow> None
     | Some (r, m', s', w') \<Rightarrow> Some (r, p\<lparr>poll_events := evs, channel_mgr := m', fd_set := s'\<rparr>, w'))"
proof -
  have "\<exists>ev \<in> set (take n evs). data_fd (event_data ev) = close_fd p"
    using assms(4) by (simp add: close_reported_def)
  then have pe: "process_events P cm (close_fd p) (first_events n evs) False (channel_mgr p) (fd_set p) w1 =
     (case dispatch_all P cm (other_events (close_fd p) (take n evs)) (channel_mgr p) (fd_set p) w1 of
        None \<Rightarrow> None
      | Some (Err e, m, s, w) \<Rightarrow> Some (Err e, m, s, w)
      | Some (Ok _, m, s, w) \<Rightarrow> Some (Ok True, m, s, w))"
    by (simp add: first_events_take assms(3) process_events_dispatch_all cong: option.case_cong prod.case_cong io_result.case_cong)
  have "run P cm p w = Some
    (case dispatch_all P cm (other_events (close_fd p) (take n evs)) (channel_mgr p) (fd_set p) w1 of
       None \<Rightarrow> None
     | Some (r, m', s', w') \<Rightarrow> Some (r, p\<lparr>poll_events := evs, channel_mgr := m', fd_set := s'\<rparr>, w'))"
    using assms(2) pe
    by (subst run.simps)
      (auto simp: run_iteration_def wait_result_def Let_def split: option.split io_result.split)
  then show ?thesis using run_reaches [OF assms(1)] by simp
qed

theorem run_returns_on_close_witness:
  "run sim_platform (iosock_manager sim_platform (pipes_stdio sim_platform)) sample_pollster closing_world =
     Some (Some (Ok (), closed_pollster, closed_world)) \<and>
   contents (out_buffer (channel_mgr closed_pollster)) = [104, 105]"
proof -
  let ?cm = "iosock_manager sim_platform (pipes_stdio sim_platform)"
  let ?evs = "\<lparr>events = 1, event_data = 7\<rparr> # \<lparr>events = 1, event_data = 4\<rparr> # replicate 3 \<lparr>events = 0, event_data = 0\<rparr>"
  let ?w1 = "sample_world1\<lparr>sim_batches := []\<rparr>"
  have "epoll_wait sim_platform (poll_fd sample_pollster) (-1) (poll_events sample_pollster) closing_world = ((Ok 2, ?evs), ?w1)"
    by (simp add: closing_world_def sample_pollster_def)
  moreover have "close_reported (close_fd sample_pollster) 2 ?evs"
    by (simp add: close_reported_def sample_pollster_def data_fd_def)
  ultimately have "run sim_platform ?cm sample_pollster closing_world = Some
    (case dispatch_all sim_platform ?cm (other_events (close_fd sample_pollster) (take 2 ?evs)) (channel_mgr sample_pollster)
        (fd_set sample_pollster) ?w1 of
       None \<Rightarrow> None
     | Some (r, m', s', w') \<Rightarrow> Some (r, sample_pollster\<lparr>poll_events := ?evs, channel_mgr := m', fd_set := s'\<rparr>, w'))"
    by (intro run_returns_on_close [OF reaches_refl]) simp_all
  moreover have "other_events (close_fd sample_pollster) (take 2 ?evs) = [\<lparr>events = 1, event_data = 4\<rparr>]"
    by (simp add: other_events_def sample_pollster_def data_fd_def)
  moreover have "dispatch_all sim_platform ?cm [\<lparr>events = 1, event_data = 4\<rparr>] (channel_mgr sample_pollster)
      (fd_set sample_pollster) ?w1 = Some (Ok (), channel_mgr closed_pollster, fd_set closed_pollster, closed_world)"
    by (simp add: manager_ops registry_ops loop_ops sample_defs Let_def on_readable_def client_stream_def
        read_child_def sample_read request_primary_output_writable_def closed_world_def closed_pollster_def fun_upd_idem)
  ultimately show ?thesis
    by (simp add: closed_pollster_def sample_pollster_def)
qed

section \<open>Configuring epoll\<close>

text \<open>C21. A successful \<^verbatim>\<open>apply_poll_updates\<close> makes the kernel's interest list exactly what the channel
  manager asked for: each requested descriptor with its requested mask under its own tag, the
  entries that are not the manager's untouched, and nothing else; every descriptor is then known
  and no deletion is pending.\<close>

theorem apply_poll_updates_configures_epoll:
  assumes "kernel_laws P (poll_fd p) K" and "syncable K (fd_set p) w"
    and "apply_poll_updates P p w = (Ok (), p', w')"
  shows "kv_interest K w' =
      (\<lambda>fd. map_option (\<lambda>es. event_new es (fd_data fd)) (requested (fd_set p) fd)) ++ kv_foreign K \<and>
    polled_as_requested (plat_events P) K (fd_set p') w' \<and> dom (requested (fd_set p')) = dom (requested (fd_set p)) \<and>
    channel_mgr p' = channel_mgr p"
proof -
  note st = apply_poll_updates_settles [OF assms]
  have "channel_mgr p' = channel_mgr p" by (subst st [THEN conjunct1], simp)
  then show ?thesis
    using st settled_polled [OF assms(2) st [THEN conjunct2]] by (simp add: settled_as_def)
qed

definition hungup_pollster :: "ChildPipes IOSockChannelManager Pollster" where
  "hungup_pollster = sample_pollster\<lparr>channel_mgr := sample_manager\<lparr>console := None\<rparr>,
     fd_set := sample_fd_set\<lparr>existing := butlast (existing sample_fd_set), removed := [1]\<rparr>\<rparr>"

lemma hungup_inv:
  "mgr_inv sim_platform sample_view pipes_inv (pipes_stdio sim_platform) (channel_mgr hungup_pollster)
     (fd_set hungup_pollster) sample_world1"
proof -
  have "on_hangup sim_platform (pipes_stdio sim_platform) 1 sample_manager sample_fd_set sample_world1 =
     Some (Ok (), channel_mgr hungup_pollster, fd_set hungup_pollster, sample_world1)"
    by (simp add: hungup_pollster_def on_hangup_def client_stream_def hangup_other_def sample_manager_defs
        pipes_stdio_def unregister_def sample_fd_set_def remove_at_def)
  from pipes.on_hangup_inv [OF sample_laws sample_inv this] show ?thesis by simp
qed

theorem apply_poll_updates_configures_epoll_witness:
  "apply_poll_updates sim_platform hungup_pollster sample_world1 =
     (Ok (), hungup_pollster\<lparr>fd_set := sample_fd_set\<lparr>existing := butlast (existing sample_fd_set)\<rparr>\<rparr>,
      sample_world1\<lparr>sim_interest := sample_interest(1 := None)\<rparr>) \<and>
   polled_as_requested linux_events sample_view (sample_fd_set\<lparr>existing := butlast (existing sample_fd_set)\<rparr>)
     (sample_world1\<lparr>sim_interest := sample_interest(1 := None)\<rparr>)"
proof -
  have run: "apply_poll_updates sim_platform hungup_pollster sample_world1 =
     (Ok (), hungup_pollster\<lparr>fd_set := sample_fd_set\<lparr>existing := butlast (existing sample_fd_set)\<rparr>\<rparr>,
      sample_world1\<lparr>sim_interest := sample_interest(1 := None)\<rparr>)"
    by (simp add: apply_poll_updates_def apply_updates_def hungup_pollster_def sample_defs pfd_apply_updates_def
        delete_fd_def)
  then show ?thesis
    using apply_poll_updates_configures_epoll [OF sample_laws mgr_inv_syncable [OF hungup_inv] run] by simp
qed

end
