(* ===== verification/Hangup_Properties.thy ===== *)
theory Hangup_Properties
  imports Sample_Run
begin

text \<open>
  What a hangup does: of a channel of the child, of the client, and of the slave side of a pty (which
  Linux reports as an error of read).
\<close>

section \<open>A channel of the child\<close>

context child_stdio
begin

lemma hangup_child_effect:
  assumes core: "mgr_core K cinv (C P) m s w" and fd: "fd \<in> child_fds (C P) (child m)"
  shows "\<exists>c' s'. on_hangup P (C P) fd m s w = Some (Ok (), m\<lparr>child := c'\<rparr>, s', sys_close P fd w) \<and>
    stdin_fd (C P) c' = close_role fd (stdin_fd (C P) (child m)) \<and>
    stdout_fd (C P) c' = close_role fd (stdout_fd (C P) (child m)) \<and>
    stderr_fd (C P) c' = close_role fd (stderr_fd (C P) (child m)) \<and>
    requested s' = (requested s)(fd := None) \<and> gone s' = gone s"
proof -
  note co = mgr_coreD [OF core]
  have cl: "client_stream m fd = None"
    using roles_distinctD(2) [OF co(4)] fd by (auto simp: client_stream_None client_fds_def)
  obtain c' s' where h: "cs_hangup (C P) fd (child m) s w = Some (c', s', sys_close P fd w)"
    "unregister_closed fd s = Some s'" "stdin_fd (C P) c' = close_role fd (stdin_fd (C P) (child m))"
    "stdout_fd (C P) c' = close_role fd (stdout_fd (C P) (child m))"
    "stderr_fd (C P) c' = close_role fd (stderr_fd (C P) (child m))"
    using hangup_law [OF co(3,5) fd fixed_processed(3) [OF core fd]] by blast
  have "stdin_fd (C P) (child m) = Some fd \<or> stdout_fd (C P) (child m) = Some fd \<or> stderr_fd (C P) (child m) = Some fd"
    using fd by (auto simp: child_fds_def)
  then show ?thesis
    using h cl fdset.unreg_closed_SomeD [OF co(5) h(2)] by (auto simp: on_hangup_def hangup_other_def)
qed

end

text \<open>C14. A hangup of one of the child's descriptors closes it and clears it in every role it had (the master of
  a pty has two), withdraws its registration without leaving a deletion pending (the kernel drops a closed
  descriptor by itself), and changes no other registration, no buffer and no other channel.\<close>

theorem child_hangup_closes_channel:
  "(mgr_inv P K pipes_inv (pipes_stdio P) m s w \<and> fd \<in> child_fds (pipes_stdio P) (child m) \<longrightarrow>
      (\<exists>s'. on_hangup P (pipes_stdio P) fd m s w = Some (Ok (), m\<lparr>child :=
           \<lparr>pipe_stdin = close_role fd (pipe_stdin (child m)), pipe_stdout = close_role fd (pipe_stdout (child m)),
            pipe_stderr = close_role fd (pipe_stderr (child m))\<rparr>\<rparr>, s', sys_close P fd w) \<and>
         requested s' = (requested s)(fd := None) \<and> gone s' = gone s)) \<and>
   (mgr_inv P K (\<lambda>_. True) (pty_stdio P) n t w \<and> pty (child n) = Some fd \<longrightarrow>
      (\<exists>t'. on_hangup P (pty_stdio P) fd n t w = Some (Ok (), n\<lparr>child := \<lparr>pty = None\<rparr>\<rparr>, t', sys_close P fd w) \<and>
         requested t' = (requested t)(fd := None) \<and> gone t' = gone t))"
proof (intro conjI impI; elim conjE)
  assume inv: "mgr_inv P K pipes_inv (pipes_stdio P) m s w" and fd: "fd \<in> child_fds (pipes_stdio P) (child m)"
  show "\<exists>s'. on_hangup P (pipes_stdio P) fd m s w = Some (Ok (), m\<lparr>child :=
           \<lparr>pipe_stdin = close_role fd (pipe_stdin (child m)), pipe_stdout = close_role fd (pipe_stdout (child m)),
            pipe_stderr = close_role fd (pipe_stderr (child m))\<rparr>\<rparr>, s', sys_close P fd w) \<and>
         requested s' = (requested s)(fd := None) \<and> gone s' = gone s"
    using pipes.hangup_child_effect [OF mgr_invD(1) [OF inv] fd]
    by (auto simp: pipes_stdio_def intro: ChildPipes.equality)
next
  assume inv: "mgr_inv P K (\<lambda>_. True) (pty_stdio P) n t w" and p: "pty (child n) = Some fd"
  then have "fd \<in> child_fds (pty_stdio P) (child n)" by (simp add: child_fds_def pty_stdio_def)
  from ptys.hangup_child_effect [OF mgr_invD(1) [OF inv] this] p
  show "\<exists>t'. on_hangup P (pty_stdio P) fd n t w = Some (Ok (), n\<lparr>child := \<lparr>pty = None\<rparr>\<rparr>, t', sys_close P fd w) \<and>
         requested t' = (requested t)(fd := None) \<and> gone t' = gone t"
    by (auto simp: pty_stdio_def close_role_def intro: ChildPty.equality)
qed

theorem child_hangup_closes_channel_witness:
  "\<exists>s'. on_hangup sim_platform (pipes_stdio sim_platform) 4 sample_manager sample_fd_set sample_world1 =
     Some (Ok (), sample_manager\<lparr>child := \<lparr>pipe_stdin = Some 3, pipe_stdout = None, pipe_stderr = Some 5\<rparr>\<rparr>, s',
       sys_close sim_platform 4 sample_world1) \<and>
     requested s' = (requested sample_fd_set)(4 := None) \<and> gone s' = gone sample_fd_set"
proof -
  have "4 \<in> child_fds (pipes_stdio sim_platform) (child sample_manager)"
    by (simp add: child_fds_def pipes_stdio_def sample_manager_defs)
  with sample_inv have "\<exists>s'. on_hangup sim_platform (pipes_stdio sim_platform) 4 sample_manager sample_fd_set sample_world1 =
     Some (Ok (), sample_manager\<lparr>child :=
         \<lparr>pipe_stdin = close_role 4 (pipe_stdin (child sample_manager)),
          pipe_stdout = close_role 4 (pipe_stdout (child sample_manager)),
          pipe_stderr = close_role 4 (pipe_stderr (child sample_manager))\<rparr>\<rparr>, s', sys_close sim_platform 4 sample_world1) \<and>
     requested s' = (requested sample_fd_set)(4 := None) \<and> gone s' = gone sample_fd_set"
    by (intro child_hangup_closes_channel [THEN conjunct1, rule_format] conjI)
  then show ?thesis by (simp add: close_role_def sample_manager_defs)
qed

section \<open>The client\<close>

text \<open>C13. A hangup of the client closes its socket, forgets it and withdraws its registration without leaving a
  deletion pending. Buffered output of the child now belongs to the console, which is polled for
  writing from then on if anything is buffered; nothing else changes.\<close>

theorem client_hangup_falls_back_to_console:
  assumes laws: "kernel_laws P ep K" and inv: "mgr_inv P K cinv C m s w" and settled: "client_settled m s"
    and cl: "client_socket m = Some c"
  shows "\<exists>s'. on_hangup P C (stream c) m s w = Some (Ok (), m\<lparr>client_socket := None\<rparr>, s', sys_close P (stream c) w) \<and>
    gone s' = gone s \<and> dom (requested s') = dom (requested s) - {stream c} \<and>
    (\<forall>fd. fd \<noteq> stream c \<longrightarrow> wants_read (plat_events P) (requested s') fd = wants_read (plat_events P) (requested s) fd \<and>
       wants_write (plat_events P) (requested s') fd =
         (wants_write (plat_events P) (requested s) fd \<or> console m = Some fd \<and> contents (out_buffer m) \<noteq> []))"
proof -
  let ?E = "plat_events P"
  note co = mgr_coreD [OF mgr_invD(1) [OF inv]] and E = kernel_lawsD(3) [OF laws]
  have "stream c \<in> processed s" using settled cl by (auto simp: client_settled_def client_fds_def)
  then obtain s1 where s1: "unregister_closed (stream c) s = Some s1" "reg_inv s1"
    "requested s1 = (requested s)(stream c := None)" "processed s1 = processed s - {stream c}" "gone s1 = gone s"
    using fdset.unreg_closed_ok [OF co(5)] by blast
  have wants: "wants_read ?E (requested s1) fd = wants_read ?E (requested s) fd"
    "wants_write ?E (requested s1) fd = wants_write ?E (requested s) fd" if "fd \<noteq> stream c" for fd
    using that s1(3) by (simp_all add: wants_read_def wants_write_def wants_def)
  have size: "writable_size (out_buffer m) = Some (length (contents (out_buffer m)))"
    by (rule writable_size_eq [OF co(2)])
  have run: "on_hangup P C (stream c) m s w = hangup_client P c m s w"
    using cl by (simp add: on_hangup_def client_stream_def)
  show ?thesis
  proof (cases "console m = None \<or> contents (out_buffer m) = []")
    case True
    then have "hangup_client P c m s w = Some (Ok (), m\<lparr>client_socket := None\<rparr>, s1, sys_close P (stream c) w)"
      using s1(1) size by (auto simp: hangup_client_def Let_def split: option.splits)
    then show ?thesis using run s1 wants True by (intro exI [of _ s1]) auto
  next
    case False
    then obtain out where out: "console m = Some out" by auto
    then have "out \<in> processed s1"
      using s1(4) fixed_processed(2) [OF mgr_invD(1) [OF inv] out] roles_distinctD(2) [OF co(4) cl] by simp
    then obtain s2 where s2: "modify out (poll_for_write ?E True) s1 = Some s2"
      using fdset.set_write_defined [OF s1(2)] by blast
    note v = fdset.set_write_SomeD [OF s1(2) s2 E]
    have "hangup_client P c m s w = Some (Ok (), m\<lparr>client_socket := None\<rparr>, s2, sys_close P (stream c) w)"
      using s1(1) size s2 out False by (simp add: hangup_client_def Let_def)
    then show ?thesis using run s1 v wants out False by (intro exI [of _ s2]) auto
  qed
qed

theorem client_hangup_falls_back_to_console_witness:
  "\<exists>s'. on_hangup sim_platform (pipes_stdio sim_platform) 9 sample_client sample_fd_set3 sample_world3 =
     Some (Ok (), sample_client\<lparr>client_socket := None\<rparr>, s', sys_close sim_platform 9 sample_world3) \<and>
     wants_write linux_events (requested s') 1"
proof -
  have "client_settled sample_client sample_fd_set3"
    by (simp add: client_settled_def client_fds_def sample_client_def processed_def sample_fd_set3_def)
  moreover have "client_socket sample_client = Some \<lparr>stream = 9, availability = ReadWrite\<rparr>"
    "console sample_client = Some 1" "contents (out_buffer sample_client) \<noteq> []"
    by (simp_all add: sample_client_def sample_manager_defs)
  ultimately show ?thesis
    using client_hangup_falls_back_to_console [OF sample_laws sample_inv3, of "\<lparr>stream = 9, availability = ReadWrite\<rparr>"]
    by auto
qed

section \<open>The slave side of a pty\<close>











end
