(* ===== verification/Manager_Data.thy ===== *)
theory Manager_Data
  imports Manager_Invariant
begin

text \<open>
  What the handlers of \<^verbatim>\<open>IOSockChannelManager\<close> do to the bytes in flight: input only ever gets bytes
  appended by reads and removed from its front by writes, output likewise, except that the newest
  output may be discarded when nothing can take it.
\<close>

section \<open>Hanging up moves no bytes\<close>

lemma hangup_client_buffers:
  "hangup_client P c m s w = Some (r, m', s', w') \<Longrightarrow> in_buffer m' = in_buffer m \<and> out_buffer m' = out_buffer m"
  by (auto simp: hangup_client_def Let_def split: bind_splits)

lemma on_hangup_buffers:
  "on_hangup P C fd m s w = Some (r, m', s', w') \<Longrightarrow> in_buffer m' = in_buffer m \<and> out_buffer m' = out_buffer m"
  by (auto simp: on_hangup_def hangup_other_def dest: hangup_client_buffers
      split: option.splits if_splits bind_splits)

section \<open>Reading and writing\<close>

text \<open>\<open>bytes_in m m'\<close>: what a readable event may do. \<open>bytes_out m m'\<close>: what a writable event may do.\<close>

definition bytes_in :: "('c, 'w) ChildStdio \<Rightarrow> 'c IOSockChannelManager \<Rightarrow> 'c IOSockChannelManager \<Rightarrow> bool" where
  "bytes_in C m m' \<longleftrightarrow>
     prefix (contents (in_buffer m)) (contents (in_buffer m')) \<and>
     (\<exists>ys. prefix (contents (out_buffer m')) (contents (out_buffer m) @ ys)) \<and>
     (has_output_channel m \<and> stdin_fd C (child m) \<noteq> None \<longrightarrow>
        prefix (contents (out_buffer m)) (contents (out_buffer m')))"

definition bytes_out :: "'c IOSockChannelManager \<Rightarrow> 'c IOSockChannelManager \<Rightarrow> bool" where
  "bytes_out m m' \<longleftrightarrow>
     suffix (contents (in_buffer m')) (contents (in_buffer m)) \<and>
     suffix (contents (out_buffer m')) (contents (out_buffer m))"

lemma filled_prefix: "filled b res b' \<Longrightarrow> prefix (contents b) (contents b')"
  by (auto simp: filled_def prefix_def)

lemma drained_suffix: "drained b res b' \<Longrightarrow> suffix (contents b') (contents b)"
  by (auto simp: drained_def suffix_def)

lemma discard_prefix: "buf_inv b \<Longrightarrow> prefix (contents (snd (discard b))) (contents b)"
  by (simp only: discard_spec(2)) (simp add: contents_def)

lemma bytes_inI:
  assumes "in_buffer m' = in_buffer m" and "prefix (contents (out_buffer m)) (contents (out_buffer m'))"
  shows "bytes_in C m m'"
proof -
  obtain ys where "contents (out_buffer m') = contents (out_buffer m) @ ys" using assms(2) by (rule prefixE)
  then have "prefix (contents (out_buffer m')) (contents (out_buffer m) @ ys)" by simp
  then show ?thesis using assms unfolding bytes_in_def by auto
qed

lemma accept_client_buffers:
  assumes "buf_inv (out_buffer m)" and "accept_client P m s w = Some (r, m', s', w')"
  shows "in_buffer m' = in_buffer m \<and> out_buffer m' = out_buffer m"
  using assms
  by (auto simp: accept_client_def Let_def split: prod.splits io_result.splits if_splits option.splits bind_splits)

lemma has_output_primary: "has_output_channel m \<Longrightarrow> primary_output m \<noteq> None"
  by (auto simp: has_output_channel_def primary_output_def client_socket_writable_def split: option.splits)

lemma has_output_channel_buffer [simp]: "has_output_channel (m\<lparr>out_buffer := b\<rparr>) = has_output_channel m"
  by (simp add: has_output_channel_def client_socket_writable_def)

lemma read_child_bytes:
  assumes copy: "copy (child m) (out_buffer m) w = Some (res, b, w1)" "filled (out_buffer m) res b"
    and run: "read_child P C copy fd m s w = Some (r, m', s', w')"
  shows "bytes_in C m m'"
proof -
  let ?m = "m\<lparr>out_buffer := b\<rparr>"
  have b: "buf_inv b" "prefix (contents (out_buffer m)) (contents b)"
    using copy(2) filled_prefix by (auto simp: filled_def)
  have whole: "bytes_in C m x" if "in_buffer x = in_buffer m" "out_buffer x = b" for x
    using that b(2) by (simp add: bytes_inI)
  have part: "bytes_in C m (discard_output ?m)" if "\<not> has_output_channel m"
    using that discard_prefix [OF b(1)] b(2)
    by (auto simp: bytes_in_def discard_output_def) (metis prefixE)
  consider e where "res = Err e" | (close) ch where "res = Ok (True, ch)"
    | (more) "res = Ok (False, BecameNonEmpty)" | (same) ch where "res = Ok (False, ch)" "ch \<noteq> BecameNonEmpty"
    by (metis io_result.exhaust surj_pair)
  then show ?thesis
  proof cases
    case 1
    then show ?thesis using run copy(1) whole by (auto simp: read_child_def Let_def)
  next
    case close
    then have "on_hangup P C fd ?m s w1 = Some (r, m', s', w')"
      using run copy(1) by (simp add: read_child_def Let_def)
    then show ?thesis using on_hangup_buffers whole by fastforce
  next
    case more
    then obtain q s1 where q: "request_primary_output_writable (plat_events P) ?m s = Some (q, s1)"
      and m': "m' = (if \<not> q then discard_output ?m else ?m)"
      using run copy(1) by (auto simp: read_child_def Let_def split: bind_splits)
    have "\<not> has_output_channel m" if "\<not> q"
      using q that has_output_primary [of ?m] by (auto simp: request_primary_eq split: option.splits)
    then show ?thesis using m' whole part by simp
  next
    case same
    then have "m' = (if \<not> has_output_channel m then discard_output ?m else ?m)"
      using run copy(1) by (auto simp: read_child_def Let_def)
    then show ?thesis using whole part by simp
  qed
qed

lemma read_client_bytes:
  assumes buf: "buf_inv (out_buffer m)" and copy: "channel_to_buffer (sys_read P (stream c)) (in_buffer m) w = Some (res, b, w1)"
    "filled (in_buffer m) res b" and run: "read_client P C fd c m s w = Some (r, m', s', w')"
  shows "bytes_in C m m'"
proof -
  let ?m = "m\<lparr>in_buffer := b\<rparr>"
  have b: "prefix (contents (in_buffer m)) (contents b)" by (rule filled_prefix [OF copy(2)])
  have whole: "bytes_in C m x" if "in_buffer x = b" "out_buffer x = out_buffer m" for x
    using that b by (auto simp: bytes_in_def)
  have part: "bytes_in C m (discard_output ?m)" if "stdin_fd C (child m) = None"
    using that b discard_prefix [OF buf] by (auto simp: bytes_in_def discard_output_def intro: exI [of _ "[]"])
  have readable: "client_socket_readable m" using run by (simp add: read_client_def split: if_splits)
  note run = run [unfolded read_client_def, simplified copy(1) readable, simplified]
  consider e where "res = Err e" | (close) ch where "res = Ok (True, ch)"
    | (more) "res = Ok (False, BecameNonEmpty)" | (same) ch where "res = Ok (False, ch)" "ch \<noteq> BecameNonEmpty"
    by (metis io_result.exhaust surj_pair)
  then show ?thesis
  proof cases
    case 1
    then show ?thesis using run whole by (auto simp: Let_def)
  next
    case close
    then show ?thesis
      using run whole on_hangup_buffers [of P C fd ?m s w1 r m' s' w']
      by (auto simp: Let_def split: if_splits bind_splits)
  next
    case more
    then show ?thesis
      using run whole part by (auto simp: Let_def split: option.splits bind_splits)
  next
    case same
    then show ?thesis
      using run whole part by (auto simp: Let_def split: if_splits)
  qed
qed

lemma bytes_outI:
  assumes "drained (out_buffer m) res b" and "in_buffer m' = in_buffer m" "out_buffer m' = b"
  shows "bytes_out m m'"
  using assms drained_suffix by (auto simp: bytes_out_def)

lemma write_client_bytes:
  assumes copy: "buffer_to_channel (out_buffer m) (fd_writer P (stream c)) w = Some (res, b, w1)"
    "drained (out_buffer m) res b" and run: "write_client P C fd c m s w = Some (r, m', s', w')"
  shows "bytes_out m m'"
proof -
  have "in_buffer m' = in_buffer m \<and> out_buffer m' = b"
    using run copy(1) on_hangup_buffers [of P C fd "m\<lparr>out_buffer := b\<rparr>" s w1 r m' s' w']
    by (auto simp: write_client_def Let_def split: io_result.splits prod.splits if_splits bind_splits)
  then show ?thesis using bytes_outI [OF copy(2)] by blast
qed

lemma write_console_bytes:
  assumes copy: "buffer_to_channel (out_buffer m) (fd_writer P fd) w = Some (res, b, w1)"
    "drained (out_buffer m) res b" and run: "write_console P C fd m s w = Some (r, m', s', w')"
  shows "bytes_out m m'"
proof -
  have "in_buffer m' = in_buffer m \<and> out_buffer m' = b"
    using run copy(1) on_hangup_buffers [of P C fd "m\<lparr>out_buffer := b\<rparr>" s w1 r m' s' w']
    by (auto simp: write_console_def Let_def split: io_result.splits prod.splits if_splits bind_splits)
  then show ?thesis using bytes_outI [OF copy(2)] by blast
qed

lemma write_child_bytes:
  assumes copy: "write_stdin C (child m) (in_buffer m) w = Some (res, b, w1)"
    "drained (in_buffer m) res b" and run: "write_child P C fd m s w = Some (r, m', s', w')"
  shows "bytes_out m m'"
proof -
  have "in_buffer m' = b \<and> out_buffer m' = out_buffer m"
    using run copy(1) on_hangup_buffers [of P C fd "m\<lparr>in_buffer := b\<rparr>" s w1 r m' s' w']
    by (auto simp: write_child_def Let_def split: io_result.splits prod.splits if_splits bind_splits)
  then show ?thesis using drained_suffix [OF copy(2)] by (simp add: bytes_out_def)
qed

section \<open>The handlers\<close>

context child_stdio
begin

lemma on_readable_bytes:
  assumes pl: "platform_laws P opened" and buf: "buf_inv (in_buffer m)" "buf_inv (out_buffer m)"
    and run: "on_readable P (C P) fd m s w = Some (r, m', s', w')"
  shows "bytes_in (C P) m m'"
proof (cases "fd = server_socket m")
  case True
  then have "accept_client P m s w = Some (r, m', s', w')" using run by (simp add: on_readable_def)
  from accept_client_buffers [OF buf(2) this] show ?thesis by (intro bytes_inI) simp_all
next
  case False
  note run = run [unfolded on_readable_def, simplified False, simplified]
  show ?thesis
  proof (cases "client_stream m fd")
    case (Some c)
    obtain res b w1 where "channel_to_buffer (sys_read P (stream c)) (in_buffer m) w = Some (res, b, w1)"
        "filled (in_buffer m) res b"
      using channel_to_buffer_fd [OF pl buf(1)] by blast
    then show ?thesis using read_client_bytes [OF buf(2)] run Some by simp
  next
    case None
    have copied: "bytes_in (C P) m m'" if "read_child P (C P) copy fd m s w = Some (r, m', s', w')"
      "\<exists>res b w1. copy (child m) (out_buffer m) w = Some (res, b, w1) \<and> filled (out_buffer m) res b \<and> io_on P F w w1"
      for copy F
    proof -
      from that(2) obtain res b w1 where "copy (child m) (out_buffer m) w = Some (res, b, w1)"
        "filled (out_buffer m) res b" by blast
      then show ?thesis using that(1) by (rule read_child_bytes)
    qed
    show ?thesis
      using run None copied read_stdout_law [OF pl buf(2), of "child m" fd w]
        read_stderr_law [OF pl buf(2), of "child m" fd w]
      by (auto split: if_splits intro!: bytes_inI)
  qed
qed

lemma on_writable_bytes:
  assumes pl: "platform_laws P opened" and buf: "buf_inv (in_buffer m)" "buf_inv (out_buffer m)"
    and run: "on_writable P (C P) fd m s w = Some (r, m', s', w')"
  shows "bytes_out m m'"
proof (cases "client_stream m fd")
  case (Some c)
  then have "write_client P (C P) fd c m s w = Some (r, m', s', w')" using run by (simp add: on_writable_def)
  moreover obtain res b w1 where "buffer_to_channel (out_buffer m) (fd_writer P (stream c)) w = Some (res, b, w1)"
      "drained (out_buffer m) res b"
    using buffer_to_channel_fd [OF pl buf(2)] by blast
  ultimately show ?thesis by (intro write_client_bytes)
next
  case None
  note run = run [unfolded on_writable_def, simplified None, simplified]
  consider (con) "console m = Some fd" | (child) "console m \<noteq> Some fd" "stdin_fd (C P) (child m) = Some fd"
    | (none) "m' = m"
    using run by (auto split: if_splits)
  then show ?thesis
  proof cases
    case con
    obtain res b w1 where "buffer_to_channel (out_buffer m) (fd_writer P fd) w = Some (res, b, w1)"
        "drained (out_buffer m) res b"
      using buffer_to_channel_fd [OF pl buf(2)] by blast
    then show ?thesis using run con by (intro write_console_bytes) simp_all
  next
    case child
    obtain res b w1 where "write_stdin (C P) (child m) (in_buffer m) w = Some (res, b, w1)"
        "drained (in_buffer m) res b"
      using write_stdin_law [OF pl buf(1) child(2)] by blast
    then show ?thesis using run child by (intro write_child_bytes) simp_all
  next
    case none
    then show ?thesis by (simp add: bytes_out_def)
  qed
qed

end

end
