(* ===== verification/Known_Defects.thy ===== *)
theory Known_Defects
  imports Run_Properties Manager_Data Hangup_Properties
begin

text \<open>
  Behaviours of \<^verbatim>\<open>src/src/io.rs\<close> that contradict its comments, stated as theorems about the model so
  that a change of the code that repairs one shows up here.
\<close>

section \<open>Standard error\<close>

text \<open>C32. \<^verbatim>\<open>ChildPipes::read_stderr\<close> reads the child's stdout: it does what \<^verbatim>\<open>read_stdout\<close> does. Once the stdout
  pipe is closed a readable stderr is therefore never read: the event makes no call, the pipe stays open and registered,
  so that it is reported again and again. While there is an output channel nothing changes at all; without one, each such
  event cuts off the newest output that was buffered.\<close>

theorem stderr_is_not_read:
  assumes "pipe_stdout (child m) = None" and "pipe_stderr (child m) = Some fd"
    and "fd \<noteq> server_socket m" and "client_stream m fd = None"
  shows "read_stderr (pipes_stdio P) = read_stdout (pipes_stdio P) \<and>
    on_readable P (pipes_stdio P) fd m s w = Some (Ok (), if has_output_channel m then m else discard_output m, s, w)"
proof -
  have "read_stderr (pipes_stdio P) = read_stdout (pipes_stdio P)"
    by (simp add: fun_eq_iff pipes_ops)
  moreover have "m\<lparr>out_buffer := out_buffer m\<rparr> = m" by simp
  ultimately show ?thesis
    using assms by (simp add: on_readable_def read_child_def pipes_ops)
qed

theorem stderr_is_not_read_witness:
  "on_readable sim_platform (pipes_stdio sim_platform) 5 (sample_manager\<lparr>child := \<lparr>pipe_stdin = Some 3, pipe_stdout = None,
      pipe_stderr = Some 5\<rparr>\<rparr>) sample_fd_set sample_world1 =
     Some (Ok (), sample_manager\<lparr>child := \<lparr>pipe_stdin = Some 3, pipe_stdout = None, pipe_stderr = Some 5\<rparr>\<rparr>,
       sample_fd_set, sample_world1)"
  using stderr_is_not_read [of "sample_manager\<lparr>child := \<lparr>pipe_stdin = Some 3, pipe_stdout = None,
      pipe_stderr = Some 5\<rparr>\<rparr>" 5 sim_platform sample_fd_set sample_world1]
  by (simp add: sample_manager_defs client_stream_def has_output_channel_def)

section \<open>A client that stops reading\<close>

text \<open>C33. When a client that is open in both directions no longer accepts output, \<^verbatim>\<open>on_writable\<close> marks it
  read-only but clears the read polling flag instead of the write one. The client is then polled
  for writing and not for reading, and the next writable event panics.\<close>

theorem half_closed_client_panics:
  assumes laws: "kernel_laws P ep K" and inv: "mgr_inv P K cinv C m s w" and settled: "client_settled m s"
    and cl: "client_socket m = Some c" "availability c = ReadWrite" and out: "contents (out_buffer m) \<noteq> []"
    and copy: "buffer_to_channel (out_buffer m) (fd_writer P (stream c)) w = Some (Ok (True, ch), b, w1)"
  shows "\<exists>m' s'. on_writable P C (stream c) m s w = Some (Ok (), m', s', w1) \<and>
    client_socket m' = Some (c\<lparr>availability := ReadOnly\<rparr>) \<and>
    wants_write (plat_events P) (requested s') (stream c) \<and> \<not> wants_read (plat_events P) (requested s') (stream c) \<and>
    on_writable P C (stream c) m' s' w1 = None"
proof -
  let ?E = "plat_events P"
  let ?m = "m\<lparr>out_buffer := b, client_socket := Some (c\<lparr>availability := ReadOnly\<rparr>)\<rparr>"
  note core = mgr_invD(1) [OF inv]
  have "stream c \<in> processed s" using settled cl(1) by (simp add: client_settled_def client_fds_def)
  then obtain s1 where s1: "modify (stream c) (poll_for_read ?E False) s = Some s1"
    by (rule set_read_total [OF core])
  note v = fdset.set_read_SomeD [OF mgr_coreD(5) [OF core] s1 kernel_lawsD(3) [OF laws]]
  have "wants_write ?E (requested s) (stream c)"
    using mgr_invD(2) [OF inv] out cl(1) by (simp add: output_wakeup_def primary_output_def)
  moreover have "on_writable P C (stream c) m s w = Some (Ok (), ?m, s1, w1)"
    using cl copy s1
    by (simp add: on_writable_def client_stream_def write_client_def client_socket_writable_def Let_def)
  moreover have "on_writable P C (stream c) ?m s1 w1 = None"
    by (simp add: on_writable_def client_stream_def write_client_def client_socket_writable_def)
  ultimately show ?thesis using v by (intro exI [of _ ?m] exI [of _ s1]) simp
qed

text \<open>The reference kernel with every write failing like one to a peer that shut down reading.\<close>

definition broken_platform :: "sim_world platform" where
  "broken_platform = sim_platform\<lparr>sys_write := \<lambda>fd s w. (Err (error_of_kind BrokenPipe), w)\<rparr>"

lemma broken_laws: "kernel_laws broken_platform ep sample_view"
  unfolding kernel_laws_def platform_laws_def epoll_laws_def
  by (auto simp: broken_platform_def sample_view_def sim_platform_def sim_view_def read_contract_def
      write_contract_def fd_writer_def Let_def split: list.splits if_splits ControlOptions.splits)

theorem half_closed_client_panics_witness:
  "\<exists>m' s'. on_writable broken_platform (pipes_stdio sim_platform) 9 sample_client sample_fd_set3 sample_world3 =
      Some (Ok (), m', s', sample_world3) \<and>
    on_writable broken_platform (pipes_stdio sim_platform) 9 m' s' sample_world3 = None"
proof -
  have "mgr_inv broken_platform sample_view pipes_inv (pipes_stdio sim_platform) sample_client sample_fd_set3 sample_world3"
    using sample_inv3 by (simp add: mgr_inv_def broken_platform_def)
  moreover have "client_settled sample_client sample_fd_set3"
    by (simp add: client_settled_def client_fds_def sample_client_def processed_def sample_fd_set3_def)
  moreover have "buffer_to_channel (out_buffer sample_client) (fd_writer broken_platform 9) sample_world3 =
      Some (Ok (True, NoChange), flip_buffers sample_buffer, sample_world3)"
    by (simp add: sample_client_def buffer_to_channel_def write_to_def sample_buffer_def new_buffer_def heap_buffer_def
        flip_buffers_def fd_writer_def broken_platform_def usize_sub_def slice_range_def copy_outcome_def Let_def)
  ultimately show ?thesis
    using half_closed_client_panics [OF broken_laws, of pipes_inv "pipes_stdio sim_platform" sample_client sample_fd_set3
        sample_world3 "\<lparr>stream = 9, availability = ReadWrite\<rparr>" NoChange "flip_buffers sample_buffer" sample_world3]
    by (auto simp: sample_client_def)
qed

section \<open>A client and output in one batch\<close>

text \<open>C34. When a connection is accepted and the child's first output is read in the same batch of events,
  the read asks for writability of a client that epoll does not know yet, which panics.\<close>

theorem accept_then_output_panics:
  assumes inv: "mgr_inv P K pipes_inv (pipes_stdio P) m s w"
    and cl: "client_socket m = Some c" "stream c \<notin> processed s" and out: "pipe_stdout (child m) = Some fd"
    and copy: "channel_to_buffer (sys_read P fd) (out_buffer m) w = Some (Ok (False, BecameNonEmpty), b, w1)"
  shows "on_readable P (pipes_stdio P) fd m s w = None"
proof -
  note co = mgr_coreD [OF mgr_invD(1) [OF inv]]
  have fd: "fd \<in> child_fds (pipes_stdio P) (child m)" using out by (simp add: child_fds_def pipes_stdio_def)
  have "fd \<noteq> server_socket m" "client_stream m fd = None"
    using roles_distinctD(2,3) [OF co(4)] fd cl(1) by (auto simp: client_stream_None client_fds_def)
  moreover have "modify (stream c) (poll_for_write (plat_events P) True) s = None"
    by (rule fdset.set_write_panic [OF cl(2)])
  ultimately show ?thesis
    using out copy cl(1)
    by (simp add: on_readable_def read_child_def pipes_ops request_primary_output_writable_def Let_def)
qed

definition race_world :: sim_world where
  "race_world = sample_world1\<lparr>sim_batches := [[\<lparr>events = 1, event_data = 6\<rparr>, \<lparr>events = 1, event_data = 4\<rparr>]]\<rparr>"

theorem accept_then_output_panics_witness:
  "run_iteration sim_platform (iosock_manager sim_platform (pipes_stdio sim_platform)) sample_pollster race_world = None"
proof -
  let ?m = "sample_manager\<lparr>client_socket := Some \<lparr>stream = 9, availability = ReadWrite\<rparr>\<rparr>"
  let ?s = "sample_fd_set\<lparr>new := [(9, 1)]\<rparr>"
  let ?w = "race_world\<lparr>sim_open := 9 # sim_open sample_world1, sim_next := [], sim_batches := []\<rparr>"
  have inv: "mgr_inv sim_platform sample_view pipes_inv (pipes_stdio sim_platform) sample_manager sample_fd_set
      (race_world\<lparr>sim_batches := []\<rparr>)"
    by (rule mgr_inv_world [OF sample_inv]) (simp_all add: race_world_def sample_view_def)
  have acc: "on_readable sim_platform (pipes_stdio sim_platform) 6 sample_manager sample_fd_set (race_world\<lparr>sim_batches := []\<rparr>) =
      Some (Ok (), ?m, ?s, ?w)"
    by (simp add: on_readable_def accept_client_def writable_size_eq sample_defs race_world_def registry_ops Let_def)
  have "on_readable sim_platform (pipes_stdio sim_platform) 4 ?m ?s ?w = None"
    by (rule accept_then_output_panics [OF pipes.on_readable_inv [OF sample_laws inv acc],
          where c = "\<lparr>stream = 9, availability = ReadWrite\<rparr>" and b = sample_buffer])
      (simp_all add: sample_defs race_world_def processed_def sample_read)
  then show ?thesis
    using acc
    by (simp add: loop_ops iosock_manager_def Let_def sample_pollster_def) (simp add: race_world_def sample_world1_def Let_def loop_ops)
qed

section \<open>Discarding\<close>

text \<open>C35. When the child's stdin is closed and a client sends data, the code discards the newest child
  \<^emph>\<open>output\<close>, while the input nobody will read stays buffered.\<close>

theorem client_input_discards_output:
  assumes "client_socket m = Some c" and "client_socket_readable m" and "stream c \<noteq> server_socket m"
    and "stdin_fd C (child m) = None" and "buf_inv (out_buffer m)"
    and "channel_to_buffer (sys_read P (stream c)) (in_buffer m) w = Some (Ok (False, ch), b, w1)"
  shows "on_readable P C (stream c) m s w =
      Some (Ok (), m\<lparr>in_buffer := b, out_buffer := snd (discard (out_buffer m))\<rparr>, s, w1) \<and>
    contents (snd (discard (out_buffer m))) = readable_part (out_buffer m)"
  using assms discard_spec(2)
  by (auto simp: on_readable_def client_stream_def read_client_def discard_output_def Let_def)

theorem client_input_discards_output_witness:
  "contents (out_buffer sample_client) = [104, 105] \<and>
   (\<exists>m'. on_readable sim_platform (pipes_stdio sim_platform) 9
       (sample_client\<lparr>child := \<lparr>pipe_stdin = None, pipe_stdout = Some 4, pipe_stderr = Some 5\<rparr>\<rparr>) sample_fd_set3
       (sample_world3\<lparr>sim_in := (\<lambda>_. [])(9 := [104, 105])\<rparr>) = Some (Ok (), m', sample_fd_set3, sample_world3) \<and>
     contents (in_buffer m') = [104, 105] \<and> contents (out_buffer m') = [])"
proof -
  let ?m = "sample_client\<lparr>child := \<lparr>pipe_stdin = None, pipe_stdout = Some 4, pipe_stderr = Some 5\<rparr>\<rparr>"
  let ?w = "sample_world3\<lparr>sim_in := (\<lambda>_. [])(9 := [104, 105])\<rparr>"
  have "channel_to_buffer (sys_read sim_platform 9) new_buffer ?w =
      Some (Ok (False, BecameNonEmpty), sample_buffer, sample_world3)"
    by (subst sample_read) (simp_all add: sample_world3_def sample_world2_def fun_upd_idem)
  moreover have "readable_part sample_buffer = []" by (simp add: readable_part_def sample_buffer_def new_buffer_def)
  moreover have "buf_inv sample_buffer" using mgr_coreD(2) [OF mgr_invD(1) [OF sample_inv3]] by (simp add: sample_client_def)
  ultimately show ?thesis
    using client_input_discards_output [of ?m "\<lparr>stream = 9, availability = ReadWrite\<rparr>" "pipes_stdio sim_platform"
        sim_platform ?w BecameNonEmpty sample_buffer sample_world3 sample_fd_set3]
    by (simp add: sample_client_def sample_manager_defs client_socket_readable_def pipes_stdio_def)
qed

section \<open>Polling for nothing\<close>

text \<open>C36. When the child's stdin takes the last buffered input after the client has gone, \<^verbatim>\<open>on_writable\<close> leaves it
  polled for writing. Every later wait reports it and every such event changes nothing at all, so the loop
  spins until a client connects and sends data.\<close>

theorem drained_stdin_stays_polled:
  assumes inv: "buf_inv (in_buffer m)" and W: "write_contract (fd_writer P fd)"
    and fd: "pipe_stdin (child m) = Some fd" "client_stream m fd = None" "console m \<noteq> Some fd"
    and gone: "\<not> client_socket_readable m"
    and copy: "buffer_to_channel (in_buffer m) (fd_writer P fd) w = Some (Ok (False, BecameEmpty), b, w1)"
  shows "on_writable P (pipes_stdio P) fd m s w = Some (Ok (), m\<lparr>in_buffer := b\<rparr>, s, w1) \<and> contents b = [] \<and>
    (\<forall>v. on_writable P (pipes_stdio P) fd (m\<lparr>in_buffer := b\<rparr>) s v = Some (Ok (), m\<lparr>in_buffer := b\<rparr>, s, v))"
proof -
  obtain res b' w' where t: "buffer_to_channel (in_buffer m) (fd_writer P fd) w = Some (res, b', w')"
    "drained (in_buffer m) res b'"
    using buffer_to_channel_total [OF inv W, of w] by blast
  then have b: "buf_inv b" "contents b = []" using copy by (auto simp: drained_def)
  have "buffer_to_channel b (fd_writer P fd) v = Some (Ok (False, NoChange), b, v)" for v
    by (simp add: buffer_to_channel_def write_to_empty [OF b] copy_outcome_def)
  then have "on_writable P (pipes_stdio P) fd (m\<lparr>in_buffer := b\<rparr>) s v = Some (Ok (), m\<lparr>in_buffer := b\<rparr>, s, v)" for v
    using fd by (simp add: on_writable_def client_stream_def write_child_def pipes_ops Let_def)
  moreover have "on_writable P (pipes_stdio P) fd m s w = Some (Ok (), m\<lparr>in_buffer := b\<rparr>, s, w1)"
    using fd copy gone by (simp add: on_writable_def write_child_def pipes_ops Let_def)
  ultimately show ?thesis using b(2) by blast
qed

theorem drained_stdin_stays_polled_witness:
  "\<exists>b. contents b = [] \<and> (\<forall>v. on_writable sim_platform (pipes_stdio sim_platform) 3 (sample_manager\<lparr>in_buffer := b\<rparr>)
     sample_fd_set v = Some (Ok (), sample_manager\<lparr>in_buffer := b\<rparr>, sample_fd_set, v))"
proof -
  let ?m = "sample_manager\<lparr>in_buffer := sample_buffer\<rparr>"
  have inv: "buf_inv sample_buffer" using mgr_coreD(2) [OF mgr_invD(1) [OF sample_inv2]] by simp
  have copy: "\<exists>b w1. buffer_to_channel sample_buffer (fd_writer sim_platform 3) sample_world1 =
      Some (Ok (False, BecameEmpty), b, w1)"
    by (simp add: buffer_to_channel_def write_to_def sample_buffer_def new_buffer_def heap_buffer_def flip_buffers_def
        fd_writer_def usize_sub_def usize_add_def slice_range_def copy_outcome_def is_read_empty_def is_write_empty_def
        Let_def)
  then obtain b w1 where "buffer_to_channel (in_buffer ?m) (fd_writer sim_platform 3) sample_world1 =
      Some (Ok (False, BecameEmpty), b, w1)" by auto
  from drained_stdin_stays_polled [OF _ _ _ _ _ _ this, of sample_fd_set] inv
  have "contents b = [] \<and> (\<forall>v. on_writable sim_platform (pipes_stdio sim_platform) 3 (?m\<lparr>in_buffer := b\<rparr>)
     sample_fd_set v = Some (Ok (), ?m\<lparr>in_buffer := b\<rparr>, sample_fd_set, v))"
    using platform_lawsD(3) [OF kernel_lawsD(1) [OF sample_laws]]
    by (simp add: sample_manager_defs client_stream_def client_socket_readable_def)
  then show ?thesis by auto
qed

section \<open>Output left in a pipe\<close>

lemma read_child_copied:
  assumes "read_child P C copy fd m s w = Some (Ok (), m', s', w')" and "console m \<noteq> None"
    and "copy (child m) (out_buffer m) w = Some (Ok (False, ch), b, w1)"
  shows "m' = m\<lparr>out_buffer := b\<rparr> \<and> w' = w1"
  using assms
  by (auto simp: read_child_def request_primary_output_writable_def has_output_channel_def Let_def
      split: if_splits bind_splits option.splits)

text \<open>C37. The last output of a child can be lost. When the kernel reports that the child's stdout is readable and
  was hung up in one event, the loop makes one read and then closes the pipe: what that read did not take
  is gone, although there may be room for it.\<close>

theorem hangup_drops_unread_output:
  assumes laws: "kernel_laws P ep K" and inv: "mgr_inv P K pipes_inv (pipes_stdio P) m s w"
    and out: "pipe_stdout (child m) = Some fd" and con: "console m \<noteq> None"
    and acts: "ev_contains (plat_events P) actions (EPOLLIN (plat_events P))"
      "\<not> ev_contains (plat_events P) actions (EPOLLOUT (plat_events P))"
      "ev_contains (plat_events P) actions (EPOLLHUP (plat_events P))"
    and copy: "channel_to_buffer (sys_read P fd) (out_buffer m) w = Some (Ok (False, ch), b, w1)"
    and run: "on_readable P (pipes_stdio P) fd m s w = Some (Ok (), m1, s1, w1')"
  shows "\<exists>c' s'. dispatch P (iosock_manager P (pipes_stdio P)) actions fd m s w =
      Some (Ok (), m\<lparr>out_buffer := b, child := c'\<rparr>, s', sys_close P fd w1) \<and>
    pipe_stdout c' = None \<and> requested s' fd = None"
proof -
  note co = mgr_coreD [OF mgr_invD(1) [OF inv]]
  have fd: "fd \<in> child_fds (pipes_stdio P) (child m)" using out by (simp add: child_fds_def pipes_stdio_def)
  have role: "fd \<noteq> server_socket m" "client_stream m fd = None"
    using roles_distinctD(2,3) [OF co(4)] fd by (auto simp: client_stream_None client_fds_def)
  then have "read_child P (pipes_stdio P) (read_stdout (pipes_stdio P)) fd m s w = Some (Ok (), m1, s1, w1')"
    using run out by (simp add: on_readable_def pipes_stdio_def)
  then have m1: "m1 = m\<lparr>out_buffer := b\<rparr>" "w1' = w1"
    using read_child_copied [of P "pipes_stdio P" "read_stdout (pipes_stdio P)" fd m s w m1 s1 w1' ch b w1] con copy out
    by (simp_all add: pipes_ops)
  have inv1: "mgr_inv P K pipes_inv (pipes_stdio P) m1 s1 w1'"
    using pipes.on_readable_inv [OF laws inv run] by simp
  have "fd \<in> child_fds (pipes_stdio P) (child m1)" using fd m1 by simp
  from pipes.hangup_child_effect [OF mgr_invD(1) [OF inv1] this] obtain c' s' where
    h: "on_hangup P (pipes_stdio P) fd m1 s1 w1' = Some (Ok (), m1\<lparr>child := c'\<rparr>, s', sys_close P fd w1')"
      "stdout_fd (pipes_stdio P) c' = close_role fd (stdout_fd (pipes_stdio P) (child m1))"
      "requested s' = (requested s1)(fd := None)"
    by blast
  have "dispatch P (iosock_manager P (pipes_stdio P)) actions fd m s w =
      Some (Ok (), m1\<lparr>child := c'\<rparr>, s', sys_close P fd w1')"
    using acts run h(1) by (simp add: dispatch_def and_then_def call_if_def iosock_manager_def Let_def)
  then show ?thesis
    using h(2,3) m1 out by (intro exI [of _ c'] exI [of _ s']) (simp add: pipes_stdio_def close_role_def)
qed

text \<open>The reference kernel with reads of at most two bytes, and a third byte in the child's pipe.\<close>

definition short_platform :: "sim_world platform" where
  "short_platform = sim_platform\<lparr>sys_read := \<lambda>fd s w. let n = min 2 (min (length s) (length (sim_in w fd)))
     in ((Ok n, take n (sim_in w fd) @ drop n s), w\<lparr>sim_in := (sim_in w)(fd := drop n (sim_in w fd))\<rparr>)\<rparr>"

lemma short_laws: "kernel_laws short_platform ep sample_view"
  unfolding kernel_laws_def platform_laws_def epoll_laws_def
  by (auto simp: short_platform_def sample_view_def sim_platform_def sim_view_def read_contract_def
      write_contract_def fd_writer_def Let_def split: list.splits if_splits ControlOptions.splits)

theorem hangup_drops_unread_output_witness:
  "\<exists>c' s' w'. dispatch short_platform (iosock_manager short_platform (pipes_stdio short_platform)) 17 4 sample_manager
      sample_fd_set (sample_world1\<lparr>sim_in := (\<lambda>_. [])(4 := [104, 105, 106])\<rparr>) =
      Some (Ok (), sample_manager\<lparr>out_buffer := sample_buffer, child := c'\<rparr>, s', w') \<and>
    pipe_stdout c' = None \<and> sim_in w' 4 = [106]"
proof -
  let ?w = "sample_world1\<lparr>sim_in := (\<lambda>_. [])(4 := [104, 105, 106])\<rparr>"
  let ?v = "sample_world1\<lparr>sim_in := (\<lambda>_. [])(4 := [106])\<rparr>"
  have events: "plat_events short_platform = linux_events" by (simp add: short_platform_def)
  have inv: "mgr_inv short_platform sample_view pipes_inv (pipes_stdio short_platform) sample_manager sample_fd_set ?w"
  proof -
    have "mgr_inv sim_platform sample_view pipes_inv (pipes_stdio sim_platform) sample_manager sample_fd_set ?w"
      by (rule mgr_inv_world [OF sample_inv]) (simp_all add: sample_view_def)
    then show ?thesis
      by (simp add: mgr_inv_def wakeup_defs mgr_core_def registry_ok_def kernel_ok_def roles_distinct_def role_defs
          child_fds_def pipes_stdio_def events)
  qed
  have copy: "channel_to_buffer (sys_read short_platform 4) (out_buffer sample_manager) ?w =
      Some (Ok (False, BecameNonEmpty), sample_buffer, ?v)"
    by (simp add: channel_to_buffer_def read_or_drain_def read_from_def new_buffer_def heap_buffer_def short_platform_def
        BUFFER_CAPACITY_def slice_range_def Let_def usize_sub_def usize_add_def is_read_empty_def is_write_empty_def
        overwrite_def copy_outcome_def sample_buffer_def sample_manager_defs)
  have "\<exists>s1. on_readable short_platform (pipes_stdio short_platform) 4 sample_manager sample_fd_set ?w =
      Some (Ok (), sample_manager\<lparr>out_buffer := sample_buffer\<rparr>, s1, ?v)"
    using copy
    by (simp add: on_readable_def client_stream_def read_child_def pipes_ops request_primary_output_writable_def
        sample_manager_defs sample_fd_set_def modify_def poll_for_write_def Let_def)
  then obtain s1 where run: "on_readable short_platform (pipes_stdio short_platform) 4 sample_manager sample_fd_set ?w =
      Some (Ok (), sample_manager\<lparr>out_buffer := sample_buffer\<rparr>, s1, ?v)" by blast
  have "pipe_stdout (child sample_manager) = Some 4" "console sample_manager \<noteq> None"
    by (simp_all add: sample_manager_defs)
  from hangup_drops_unread_output [OF short_laws inv this _ _ _ copy run, of 17]
  show ?thesis by (auto simp: events) (auto simp: short_platform_def)
qed

end
