(* ===== verification/Pty.thy ===== *)
theory Pty
  imports Platform
begin

unbundle bit_operations_syntax

text \<open>
  The rest of \<^verbatim>\<open>src/src/pty.rs\<close>: the wrappers around libc calls, \<^verbatim>\<open>retry_interrupted\<close>, and \<^verbatim>\<open>Pty\<close>, which
  opens a pseudo-terminal, configures it and runs a child process under it. The libc functions and
  constants are a parameter (\<open>libc\<close>); an \<^verbatim>\<open>OwnedFd\<close> that goes out of scope is closed explicitly.
\<close>

section \<open>libc\<close>

record winsize =
  ws_row :: u16
  ws_col :: u16
  ws_xpixel :: u16
  ws_ypixel :: u16

record termios =
  c_iflag :: u32
  c_oflag :: u32
  c_cflag :: u32
  c_lflag :: u32
  c_line :: u8
  c_cc :: "u8 list"
  c_ispeed :: u32
  c_ospeed :: u32

text \<open>\<^verbatim>\<open>ptsname\<close> returns a null pointer or a pointer to memory, given here as the bytes from there on.\<close>

record 'w libc =
  O_RDWR :: c_int
  O_NOCTTY :: c_int
  TCSANOW :: c_int
  ONLCR :: u32
  NCCS :: nat
  c_open :: "u8 list \<Rightarrow> c_int \<Rightarrow> 'w \<Rightarrow> c_int \<times> 'w"
  c_posix_openpt :: "c_int \<Rightarrow> 'w \<Rightarrow> c_int \<times> 'w"
  c_grantpt :: "RawFd \<Rightarrow> 'w \<Rightarrow> c_int \<times> 'w"
  c_unlockpt :: "RawFd \<Rightarrow> 'w \<Rightarrow> c_int \<times> 'w"
  c_ptsname :: "RawFd \<Rightarrow> 'w \<Rightarrow> u8 list option \<times> 'w"
  c_strlen :: "u8 list \<Rightarrow> nat"
  c_dup2 :: "RawFd \<Rightarrow> RawFd \<Rightarrow> 'w \<Rightarrow> c_int \<times> 'w"
  c_ioctl_winsz :: "RawFd \<Rightarrow> winsize \<Rightarrow> 'w \<Rightarrow> c_int \<times> 'w"
  c_tcgetattr :: "RawFd \<Rightarrow> termios \<Rightarrow> 'w \<Rightarrow> (c_int \<times> termios) \<times> 'w"
  c_tcsetattr :: "RawFd \<Rightarrow> c_int \<Rightarrow> termios \<Rightarrow> 'w \<Rightarrow> c_int \<times> 'w"
  c_setsid :: "'w \<Rightarrow> c_int \<times> 'w"
  c_close :: "RawFd \<Rightarrow> 'w \<Rightarrow> 'w"
  last_os_error :: "'w \<Rightarrow> io_error"

section \<open>Safe wrappers\<close>

text \<open>The test that every wrapper makes of a libc result.\<close>

definition cvt :: "'w libc \<Rightarrow> c_int \<times> 'w \<Rightarrow> unit io_result \<times> 'w" where
  "cvt L rw = (case rw of (result, w) \<Rightarrow> if result = -1 then (Err (last_os_error L w), w) else (Ok (), w))"

definition cvt_fd :: "'w libc \<Rightarrow> c_int \<times> 'w \<Rightarrow> RawFd io_result \<times> 'w" where
  "cvt_fd L rw = (case rw of (fd, w) \<Rightarrow> if fd = -1 then (Err (last_os_error L w), w) else (Ok fd, w))"

definition safe_open :: "'w libc \<Rightarrow> u8 list \<Rightarrow> c_int \<Rightarrow> 'w \<Rightarrow> RawFd io_result \<times> 'w" where
  "safe_open L path flags w = cvt_fd L (c_open L path flags w)"

definition safe_openpt :: "'w libc \<Rightarrow> 'w \<Rightarrow> RawFd io_result \<times> 'w" where
  "safe_openpt L w = cvt_fd L (c_posix_openpt L (O_RDWR L OR O_NOCTTY L) w)"

definition safe_grantpt :: "'w libc \<Rightarrow> RawFd \<Rightarrow> 'w \<Rightarrow> unit io_result \<times> 'w" where
  "safe_grantpt L fd w = cvt L (c_grantpt L fd w)"

definition safe_unlockpt :: "'w libc \<Rightarrow> RawFd \<Rightarrow> 'w \<Rightarrow> unit io_result \<times> 'w" where
  "safe_unlockpt L fd w = cvt L (c_unlockpt L fd w)"

text \<open>\<^verbatim>\<open>CString::new\<close> refuses a NUL among the bytes it is given.\<close>

definition cstring_new :: "u8 list \<Rightarrow> u8 list io_result" where
  "cstring_new bs = (if 0 \<in> set bs then Err (error_of_kind InvalidData) else Ok bs)"

definition safe_ptsname :: "'w libc \<Rightarrow> RawFd \<Rightarrow> 'w \<Rightarrow> u8 list io_result \<times> 'w" where
  "safe_ptsname L fd w =
     (case c_ptsname L fd w of
        (None, w) \<Rightarrow> (Err (last_os_error L w), w)
      | (Some shared_name, w) \<Rightarrow>
          (let name_slice = take (c_strlen L shared_name) shared_name in (cstring_new name_slice, w)))"

definition safe_dup2 :: "'w libc \<Rightarrow> RawFd \<Rightarrow> RawFd \<Rightarrow> 'w \<Rightarrow> unit io_result \<times> 'w" where
  "safe_dup2 L src dest w = cvt L (c_dup2 L src dest w)"

definition safe_set_tty_size :: "'w libc \<Rightarrow> RawFd \<Rightarrow> winsize \<Rightarrow> 'w \<Rightarrow> unit io_result \<times> 'w" where
  "safe_set_tty_size L tty ws w = cvt L (c_ioctl_winsz L tty ws w)"

definition zeroed_termios :: "'w libc \<Rightarrow> termios" where
  "zeroed_termios L =
     \<lparr>c_iflag = 0, c_oflag = 0, c_cflag = 0, c_lflag = 0, c_line = 0, c_cc = replicate (NCCS L) 0,
      c_ispeed = 0, c_ospeed = 0\<rparr>"

definition safe_tcgetattr :: "'w libc \<Rightarrow> RawFd \<Rightarrow> 'w \<Rightarrow> termios io_result \<times> 'w" where
  "safe_tcgetattr L tty w =
     (case c_tcgetattr L tty (zeroed_termios L) w of
        ((result, out), w) \<Rightarrow> if result = -1 then (Err (last_os_error L w), w) else (Ok out, w))"

definition safe_tcsetattr :: "'w libc \<Rightarrow> RawFd \<Rightarrow> termios \<Rightarrow> 'w \<Rightarrow> unit io_result \<times> 'w" where
  "safe_tcsetattr L tty t w = cvt L (c_tcsetattr L tty (TCSANOW L) t w)"

section \<open>Retrying\<close>

text \<open>\<open>None\<close> is a call that is interrupted forever.\<close>

partial_function (option) retry_interrupted ::
  "('w \<Rightarrow> 'a io_result \<times> 'w) \<Rightarrow> 'w \<Rightarrow> ('a io_result \<times> 'w) option" where
  "retry_interrupted func w =
     (case func w of
        (Ok val, w') \<Rightarrow> Some (Ok val, w')
      | (Err err, w') \<Rightarrow>
          (if kind err \<noteq> Interrupted then Some (Err err, w') else retry_interrupted func w'))"

section \<open>Pty\<close>

definition DEFAULT_PTY_ROWS :: u16 where
  "DEFAULT_PTY_ROWS = 64"

definition DEFAULT_PTY_COLS :: u16 where
  "DEFAULT_PTY_COLS = 256"

record Pty =
  master :: RawFd
  pty_winsize :: winsize

definition pty_open :: "'w libc \<Rightarrow> 'w \<Rightarrow> Pty io_result \<times> 'w" where
  "pty_open L w =
     (let ws = \<lparr>ws_row = DEFAULT_PTY_ROWS, ws_col = DEFAULT_PTY_COLS, ws_xpixel = 0, ws_ypixel = 0\<rparr> in
      case safe_openpt L w of
        (Err e, w) \<Rightarrow> (Err e, w)
      | (Ok fd, w) \<Rightarrow>
          (case safe_grantpt L fd w of
             (Err e, w) \<Rightarrow> (Err e, c_close L fd w)
           | (Ok _, w) \<Rightarrow>
               (case safe_unlockpt L fd w of
                  (Err e, w) \<Rightarrow> (Err e, c_close L fd w)
                | (Ok _, w) \<Rightarrow> (Ok \<lparr>master = fd, pty_winsize = ws\<rparr>, w))))"

definition set_columns :: "u16 \<Rightarrow> Pty \<Rightarrow> Pty" where
  "set_columns columns p = p\<lparr>pty_winsize := (pty_winsize p)\<lparr>ws_col := columns\<rparr>\<rparr>"

definition set_rows :: "u16 \<Rightarrow> Pty \<Rightarrow> Pty" where
  "set_rows rows p = p\<lparr>pty_winsize := (pty_winsize p)\<lparr>ws_row := rows\<rparr>\<rparr>"

text \<open>The parts of \<^verbatim>\<open>std::process\<close> in use. A command carries the closure that the child runs between
  \<^verbatim>\<open>fork\<close> and \<^verbatim>\<open>exec\<close>, on the child's own view of the world.\<close>

datatype Stdio = Inherit | Null | Piped

type_synonym 'w closure = "'w \<Rightarrow> (unit io_result \<times> 'w) option"

record 'w Command =
  program :: string
  prog_args :: "string list"
  cmd_stdin :: Stdio
  cmd_stdout :: Stdio
  cmd_stderr :: Stdio
  pre_exec :: "'w closure option"

record Child =
  child_id :: u32
  child_stdin :: "RawFd option"
  child_stdout :: "RawFd option"
  child_stderr :: "RawFd option"

text \<open>Three \<^verbatim>\<open>dup2\<close> calls in a row; leaving the closure drops \<^verbatim>\<open>slave_fd\<close>, which closes it.\<close>

definition dup_stdio :: "'w libc \<Rightarrow> RawFd \<Rightarrow> 'w closure" where
  "dup_stdio L slave_fd w = do {
     (r, w) \<leftarrow> retry_interrupted (safe_dup2 L slave_fd 0) w;
     (case r of
        Err e \<Rightarrow> Some (Err e, c_close L slave_fd w)
      | Ok _ \<Rightarrow> do {
          (r, w) \<leftarrow> retry_interrupted (safe_dup2 L slave_fd 1) w;
          (case r of
             Err e \<Rightarrow> Some (Err e, c_close L slave_fd w)
           | Ok _ \<Rightarrow> do {
               (r, w) \<leftarrow> retry_interrupted (safe_dup2 L slave_fd 2) w;
               Some (r, c_close L slave_fd w)
             })
        })
   }"

definition enter_pty :: "'w libc \<Rightarrow> u8 list \<Rightarrow> 'w closure" where
  "enter_pty L slave_fname w =
     (case c_setsid L w of
        (r, w) \<Rightarrow>
          if r = -1 then Some (Err (last_os_error L w), w)
          else do {
            (r, w) \<leftarrow> retry_interrupted (safe_open L slave_fname (O_RDWR L)) w;
            (case r of
               Err e \<Rightarrow> Some (Err e, w)
             | Ok slave_fd \<Rightarrow> dup_stdio L slave_fd w)
          })"

definition clear_onlcr :: "'w libc \<Rightarrow> RawFd \<Rightarrow> 'w \<Rightarrow> unit io_result \<times> 'w" where
  "clear_onlcr L fd w =
     (case safe_tcgetattr L fd w of
        (Err e, w) \<Rightarrow> (Err e, w)
      | (Ok t, w) \<Rightarrow> safe_tcsetattr L fd (t\<lparr>c_oflag := c_oflag t AND NOT (ONLCR L)\<rparr>) w)"

definition pty_spawn ::
  "'w libc \<Rightarrow> ('w Command \<Rightarrow> 'w \<Rightarrow> Child io_result \<times> 'w) \<Rightarrow> Pty \<Rightarrow> 'w Command \<Rightarrow> 'w \<Rightarrow>
     (Child \<times> RawFd) io_result \<times> 'w" where
  "pty_spawn L spawn p command w =
     (case safe_set_tty_size L (master p) (pty_winsize p) w of
        (Err e, w) \<Rightarrow> (Err e, c_close L (master p) w)
      | (Ok _, w) \<Rightarrow>
          (case clear_onlcr L (master p) w of
             (Err e, w) \<Rightarrow> (Err e, c_close L (master p) w)
           | (Ok _, w) \<Rightarrow>
               (let command = command\<lparr>cmd_stdin := Null, cmd_stdout := Null, cmd_stderr := Null\<rparr> in
                case safe_ptsname L (master p) w of
                  (Err e, w) \<Rightarrow> (Err e, c_close L (master p) w)
                | (Ok slave_fname, w) \<Rightarrow>
                    (let command = command\<lparr>pre_exec := Some (enter_pty L slave_fname)\<rparr> in
                     case spawn command w of
                       (Err e, w) \<Rightarrow> (Err e, c_close L (master p) w)
                     | (Ok ch, w) \<Rightarrow> (Ok (ch, master p), w)))))"

section \<open>What the calls do\<close>

text \<open>The part of the operating system's state that the theorems speak about: the device behind each open
  descriptor of the process, whether the process leads a session, its controlling terminal, and
  size and attributes of the terminals.\<close>

record 'w tty_view =
  tv_fds :: "'w \<Rightarrow> RawFd \<rightharpoonup> u8 list"
  tv_leader :: "'w \<Rightarrow> bool"
  tv_ctty :: "'w \<Rightarrow> u8 list option"
  tv_winsize :: "'w \<Rightarrow> RawFd \<Rightarrow> winsize"
  tv_termios :: "'w \<Rightarrow> RawFd \<Rightarrow> termios"
  tv_is_tty :: "u8 list \<Rightarrow> bool"

text \<open>The documented behaviour of the calls, in two groups: those that work on the descriptor table and
  the session, and those that configure a terminal. A \<^verbatim>\<open>tcsetattr\<close> that asks for one change and
  reports success has made it.\<close>

definition fd_table_laws :: "'w libc \<Rightarrow> 'w tty_view \<Rightarrow> bool" where
  "fd_table_laws L V \<longleftrightarrow>
     (\<forall>path flags w r w'. c_open L path flags w = (r, w') \<longrightarrow> tv_leader V w' = tv_leader V w \<and>
        (if r = -1 then tv_fds V w' = tv_fds V w \<and> tv_ctty V w' = tv_ctty V w
         else tv_fds V w r = None \<and> tv_fds V w' = (tv_fds V w)(r \<mapsto> path) \<and>
           tv_ctty V w' = (if tv_leader V w \<and> tv_ctty V w = None \<and> tv_is_tty V path \<and> flags AND O_NOCTTY L = 0
                           then Some path else tv_ctty V w))) \<and>
     (\<forall>src dest w r w'. c_dup2 L src dest w = (r, w') \<longrightarrow>
        tv_leader V w' = tv_leader V w \<and> tv_ctty V w' = tv_ctty V w \<and>
        tv_fds V w' = (if r = -1 then tv_fds V w else (tv_fds V w)(dest := tv_fds V w src))) \<and>
     (\<forall>w r w'. c_setsid L w = (r, w') \<longrightarrow> tv_fds V w' = tv_fds V w \<and>
        (if r = -1 then tv_leader V w' = tv_leader V w \<and> tv_ctty V w' = tv_ctty V w
         else tv_leader V w' \<and> tv_ctty V w' = None)) \<and>
     (\<forall>fd w. tv_fds V (c_close L fd w) = (tv_fds V w)(fd := None) \<and>
        tv_leader V (c_close L fd w) = tv_leader V w \<and> tv_ctty V (c_close L fd w) = tv_ctty V w) \<and>
     (\<forall>flags w r w'. c_posix_openpt L flags w = (r, w') \<longrightarrow>
        (if r = -1 then tv_fds V w' = tv_fds V w
         else tv_fds V w r = None \<and> (\<exists>dev. tv_fds V w' = (tv_fds V w)(r \<mapsto> dev)))) \<and>
     O_RDWR L AND O_NOCTTY L = 0"

definition terminal_laws :: "'w libc \<Rightarrow> 'w tty_view \<Rightarrow> bool" where
  "terminal_laws L V \<longleftrightarrow>
     (\<forall>fd w. tv_fds V (snd (c_grantpt L fd w)) = tv_fds V w) \<and>
     (\<forall>fd w. tv_fds V (snd (c_unlockpt L fd w)) = tv_fds V w) \<and>
     (\<forall>fd w. tv_fds V (snd (c_ptsname L fd w)) = tv_fds V w \<and> tv_winsize V (snd (c_ptsname L fd w)) = tv_winsize V w \<and>
        tv_termios V (snd (c_ptsname L fd w)) = tv_termios V w) \<and>
     (\<forall>fd ws w r w'. c_ioctl_winsz L fd ws w = (r, w') \<longrightarrow> tv_fds V w' = tv_fds V w \<and>
        tv_termios V w' = tv_termios V w \<and> (r \<noteq> -1 \<longrightarrow> tv_winsize V w' fd = ws)) \<and>
     (\<forall>fd t0 w r t w'. c_tcgetattr L fd t0 w = ((r, t), w') \<longrightarrow> tv_fds V w' = tv_fds V w \<and>
        tv_winsize V w' = tv_winsize V w \<and> tv_termios V w' = tv_termios V w \<and> (r \<noteq> -1 \<longrightarrow> t = tv_termios V w fd)) \<and>
     (\<forall>fd act t w r w'. c_tcsetattr L fd act t w = (r, w') \<longrightarrow> tv_fds V w' = tv_fds V w \<and>
        tv_winsize V w' = tv_winsize V w \<and>
        (r \<noteq> -1 \<and> act = TCSANOW L \<and>
           t = (tv_termios V w fd)\<lparr>c_oflag := c_oflag (tv_termios V w fd) AND NOT (ONLCR L)\<rparr> \<longrightarrow>
         tv_termios V w' fd = t))"

text \<open>The process that runs \<^verbatim>\<open>spawn\<close> without pipes keeps its descriptors and terminals.\<close>

definition spawn_laws :: "('w Command \<Rightarrow> 'w \<Rightarrow> Child io_result \<times> 'w) \<Rightarrow> 'w tty_view \<Rightarrow> bool" where
  "spawn_laws spawn V \<longleftrightarrow>
     (\<forall>c w. cmd_stdin c \<noteq> Piped \<and> cmd_stdout c \<noteq> Piped \<and> cmd_stderr c \<noteq> Piped \<longrightarrow>
        tv_fds V (snd (spawn c w)) = tv_fds V w \<and> tv_winsize V (snd (spawn c w)) = tv_winsize V w \<and>
        tv_termios V (snd (spawn c w)) = tv_termios V w)"

end
