(* ===== verification/Pty_Properties.thy ===== *)
theory Pty_Properties
  imports Pty
begin

unbundle bit_operations_syntax

text \<open>
  Properties of \<^verbatim>\<open>Pty\<close> and of the libc wrappers: retrying ends with the first attempt that is not interrupted,
  a child that enters a pty has it as its stdio and controlling terminal, and no error path leaves
  a descriptor open.
\<close>

section \<open>A concrete terminal layer\<close>

text \<open>It satisfies the laws of \<^verbatim>\<open>Pty\<close>; the first \<open>tw_eintr\<close> calls of \<^verbatim>\<open>open\<close> and \<^verbatim>\<open>dup2\<close> are interrupted.\<close>

record tty_world =
  tw_fds :: "RawFd \<rightharpoonup> u8 list"
  tw_leader :: bool
  tw_ctty :: "u8 list option"
  tw_winsize :: "RawFd \<Rightarrow> winsize"
  tw_termios :: "RawFd \<Rightarrow> termios"
  tw_next :: RawFd
  tw_eintr :: nat
  tw_errno :: io_error

definition tw_fail :: "ErrorKind \<Rightarrow> tty_world \<Rightarrow> c_int \<times> tty_world" where
  "tw_fail k w = (-1, w\<lparr>tw_errno := error_of_kind k\<rparr>)"

definition tw_open :: "u8 list \<Rightarrow> c_int \<Rightarrow> tty_world \<Rightarrow> c_int \<times> tty_world" where
  "tw_open path flags w =
     (if tw_eintr w > 0 then tw_fail Interrupted (w\<lparr>tw_eintr := tw_eintr w - 1\<rparr>)
      else if tw_next w = -1 \<or> tw_fds w (tw_next w) \<noteq> None then tw_fail (OtherKind 24) w
      else (tw_next w, w\<lparr>tw_fds := (tw_fds w)(tw_next w \<mapsto> path), tw_next := tw_next w + 1,
         tw_ctty := if tw_leader w \<and> tw_ctty w = None \<and> flags AND 0x100 = 0 then Some path else tw_ctty w\<rparr>))"

definition tw_dup2 :: "RawFd \<Rightarrow> RawFd \<Rightarrow> tty_world \<Rightarrow> c_int \<times> tty_world" where
  "tw_dup2 src dest w =
     (if tw_eintr w > 0 then tw_fail Interrupted (w\<lparr>tw_eintr := tw_eintr w - 1\<rparr>)
      else if tw_fds w src = None \<or> dest = -1 then tw_fail (OtherKind 9) w
      else (dest, w\<lparr>tw_fds := (tw_fds w)(dest := tw_fds w src)\<rparr>))"

definition tw_openpt :: "c_int \<Rightarrow> tty_world \<Rightarrow> c_int \<times> tty_world" where
  "tw_openpt flags w =
     (if tw_next w = -1 \<or> tw_fds w (tw_next w) \<noteq> None then tw_fail (OtherKind 24) w
      else (tw_next w, w\<lparr>tw_fds := (tw_fds w)(tw_next w \<mapsto> [112]), tw_next := tw_next w + 1\<rparr>))"

definition if_open :: "RawFd \<Rightarrow> tty_world \<Rightarrow> tty_world \<Rightarrow> c_int \<times> tty_world" where
  "if_open fd w' w = (if tw_fds w fd = None then tw_fail (OtherKind 9) w else (0, w'))"

definition tw_libc :: "tty_world libc" where
  "tw_libc =
     \<lparr>O_RDWR = 2, O_NOCTTY = 0x100, TCSANOW = 0, ONLCR = 4, NCCS = 32,
      c_open = tw_open, c_posix_openpt = tw_openpt,
      c_grantpt = (\<lambda>fd w. if_open fd w w), c_unlockpt = (\<lambda>fd w. if_open fd w w),
      c_ptsname = (\<lambda>fd w. if tw_fds w fd = None then (None, snd (tw_fail (OtherKind 9) w)) else (Some [116, 0, 7], w)),
      c_strlen = (\<lambda>mem. length (takeWhile (\<lambda>b. b \<noteq> 0) mem)), c_dup2 = tw_dup2,
      c_ioctl_winsz = (\<lambda>fd ws w. if_open fd (w\<lparr>tw_winsize := (tw_winsize w)(fd := ws)\<rparr>) w),
      c_tcgetattr = (\<lambda>fd t0 w. case if_open fd w w of (r, w') \<Rightarrow> ((r, if r = -1 then t0 else tw_termios w fd), w')),
      c_tcsetattr = (\<lambda>fd act t w. if_open fd (w\<lparr>tw_termios := (tw_termios w)(fd := t)\<rparr>) w),
      c_setsid = (\<lambda>w. if tw_leader w then tw_fail (OtherKind 1) w else (7, w\<lparr>tw_leader := True, tw_ctty := None\<rparr>)),
      c_close = (\<lambda>fd w. w\<lparr>tw_fds := (tw_fds w)(fd := None)\<rparr>),
      last_os_error = tw_errno\<rparr>"

definition tw_view :: "tty_world tty_view" where
  "tw_view = \<lparr>tv_fds = tw_fds, tv_leader = tw_leader, tv_ctty = tw_ctty, tv_winsize = tw_winsize,
     tv_termios = tw_termios, tv_is_tty = (\<lambda>_. True)\<rparr>"

lemmas tw_ops = tw_libc_def tw_view_def tw_open_def tw_dup2_def tw_openpt_def tw_fail_def if_open_def

lemma tw_fd_table_laws [simp]: "fd_table_laws tw_libc tw_view"
  unfolding fd_table_laws_def by (intro conjI allI) (auto simp: tw_ops split: if_splits)

lemma tw_terminal_laws [simp]: "terminal_laws tw_libc tw_view"
  unfolding terminal_laws_def by (intro conjI allI) (auto simp: tw_ops split: if_splits)

section \<open>Retrying\<close>

text \<open>The world before the \<open>n\<close>-th further attempt, and whether that attempt is interrupted.\<close>

definition attempt_world :: "('w \<Rightarrow> 'a io_result \<times> 'w) \<Rightarrow> nat \<Rightarrow> 'w \<Rightarrow> 'w" where
  "attempt_world f n w = ((\<lambda>w. snd (f w)) ^^ n) w"

definition interrupted :: "'a io_result \<Rightarrow> bool" where
  "interrupted r = (case r of Ok _ \<Rightarrow> False | Err e \<Rightarrow> kind e = Interrupted)"

definition first_uninterrupted :: "('w \<Rightarrow> 'a io_result \<times> 'w) \<Rightarrow> nat \<Rightarrow> 'w \<Rightarrow> bool" where
  "first_uninterrupted f n w \<longleftrightarrow> (\<forall>i < n. interrupted (fst (f (attempt_world f i w)))) \<and>
     \<not> interrupted (fst (f (attempt_world f n w)))"

lemma retry_step:
  "retry_interrupted f w = (case f w of (r, w') \<Rightarrow> if interrupted r then retry_interrupted f w' else Some (r, w'))"
  by (subst retry_interrupted.simps) (auto simp: interrupted_def split: prod.splits io_result.splits)

lemma attempt_world_simps [simp]:
  "attempt_world f 0 w = w" "attempt_world f (Suc n) w = attempt_world f n (snd (f w))"
  by (simp_all add: attempt_world_def funpow_Suc_right del: funpow.simps(2))

lemma first_uninterrupted_Suc:
  "first_uninterrupted f (Suc n) w \<longleftrightarrow> interrupted (fst (f w)) \<and> first_uninterrupted f n (snd (f w))"
  by (auto simp: first_uninterrupted_def less_Suc_eq_0_disj)

lemma retry_if:
  "first_uninterrupted f n w \<Longrightarrow> retry_interrupted f w = Some (f (attempt_world f n w))"
proof (induction n arbitrary: w)
  case 0
  then show ?case by (subst retry_step) (auto simp: first_uninterrupted_def split: prod.splits)
next
  case (Suc n)
  then show ?case by (subst retry_step) (auto simp: first_uninterrupted_Suc split: prod.splits)
qed

lemma retry_only_if:
  assumes "retry_interrupted f w = Some res"
  shows "\<exists>n. first_uninterrupted f n w \<and> f (attempt_world f n w) = res"
proof -
  let ?Q = "\<lambda>f w res. \<exists>n. first_uninterrupted f n w \<and> f (attempt_world f n w) = res"
  show "?Q f w res"
  proof (rule retry_interrupted.raw_induct [where P = ?Q, OF _ assms])
    fix g f w res
    assume IH: "\<And>f w res. g f w = Some res \<Longrightarrow> ?Q f w res"
      and eq: "(case f w of
          (Ok val, w') \<Rightarrow> Some (Ok val, w')
        | (Err err, w') \<Rightarrow> if kind err \<noteq> Interrupted then Some (Err err, w') else g f w') = Some res"
    show "?Q f w res"
    proof (cases "interrupted (fst (f w))")
      case True
      then have "g f (snd (f w)) = Some res"
        using eq by (auto simp: interrupted_def split: prod.splits io_result.splits)
      from IH [OF this] obtain n where "first_uninterrupted f n (snd (f w))" "f (attempt_world f n (snd (f w))) = res"
        by auto
      then show ?thesis using True by (auto simp: first_uninterrupted_Suc intro!: exI [of _ "Suc n"])
    next
      case False
      then have "f w = res"
        using eq by (auto simp: interrupted_def split: prod.splits io_result.splits if_splits)
      then show ?thesis using False by (auto simp: first_uninterrupted_def intro!: exI [of _ 0])
    qed
  qed
qed

text \<open>C20. \<^verbatim>\<open>retry_interrupted\<close> returns exactly when some attempt is not interrupted, and then with what the first such
  attempt returned; otherwise it runs forever.\<close>

theorem retry_interrupted_result:
  "retry_interrupted f w = Some res \<longleftrightarrow> (\<exists>n. first_uninterrupted f n w \<and> f (attempt_world f n w) = res)"
  using retry_if retry_only_if by metis

text \<open>What an attempt that fails leaves alone is still there at the attempt that counts.\<close>

lemma retry_result:
  assumes "retry_interrupted f w = Some (r, w')" and "Q w"
    and "\<And>v e v'. Q v \<Longrightarrow> f v = (Err e, v') \<Longrightarrow> Q v'"
  obtains v where "Q v" "f v = (r, w')"
proof -
  from retry_only_if [OF assms(1)] obtain n where n: "first_uninterrupted f n w" "f (attempt_world f n w) = (r, w')"
    by blast
  have "first_uninterrupted f n w \<Longrightarrow> Q w \<Longrightarrow> Q (attempt_world f n w)" for n w
  proof (induction n arbitrary: w)
    case (Suc n)
    then have "Q (snd (f w))"
      using assms(3) by (cases "f w") (auto simp: first_uninterrupted_Suc interrupted_def split: io_result.splits)
    then show ?case using Suc by (simp add: first_uninterrupted_Suc)
  qed simp
  then show ?thesis using that n assms(2) by blast
qed

section \<open>The name of the slave\<close>

lemma safe_ptsname_eq:
  assumes "\<And>mem. c_strlen L mem = length (takeWhile (\<lambda>b. b \<noteq> 0) mem)"
  shows "safe_ptsname L fd w =
     (case c_ptsname L fd w of
        (None, w') \<Rightarrow> (Err (last_os_error L w'), w')
      | (Some mem, w') \<Rightarrow> (Ok (takeWhile (\<lambda>b. b \<noteq> 0) mem), w'))"
proof -
  have "take (c_strlen L mem) mem = takeWhile (\<lambda>b. b \<noteq> 0) mem" for mem
    by (metis assms takeWhile_eq_take)
  moreover have "0 \<notin> set (takeWhile (\<lambda>b. b \<noteq> 0) mem)" for mem :: "u8 list"
    by (auto dest: set_takeWhileD)
  ultimately show ?thesis
    by (auto simp: safe_ptsname_def cstring_new_def Let_def split: prod.splits option.splits)
qed

text \<open>\<^verbatim>\<open>safe_ptsname\<close> copies the C string that \<^verbatim>\<open>ptsname\<close> returned up to its terminator; the \<^verbatim>\<open>InvalidData\<close>
  error for an embedded NUL cannot happen, and the only error is the one of \<^verbatim>\<open>ptsname\<close>.\<close>

theorem safe_ptsname_copies:
  assumes "\<And>mem. c_strlen L mem = length (takeWhile (\<lambda>b. b \<noteq> 0) mem)"
  shows "safe_ptsname L fd w =
     (case c_ptsname L fd w of
        (None, w') \<Rightarrow> (Err (last_os_error L w'), w')
      | (Some mem, w') \<Rightarrow> (Ok (takeWhile (\<lambda>b. b \<noteq> 0) mem), w'))"
  by (rule safe_ptsname_eq [OF assms])

section \<open>Entering the pty\<close>

definition same_session :: "'w tty_view \<Rightarrow> 'w \<Rightarrow> 'w \<Rightarrow> bool" where
  "same_session V w w' \<longleftrightarrow> tv_fds V w' = tv_fds V w \<and> tv_leader V w' = tv_leader V w \<and> tv_ctty V w' = tv_ctty V w"

lemma safe_open_retried:
  assumes laws: "fd_table_laws L V" and run: "retry_interrupted (safe_open L path flags) w = Some (r, w')"
  shows "tv_leader V w' = tv_leader V w \<and>
    (case r of
       Err e \<Rightarrow> tv_fds V w' = tv_fds V w
     | Ok fd \<Rightarrow> tv_fds V w fd = None \<and> tv_fds V w' = (tv_fds V w)(fd \<mapsto> path) \<and>
         tv_ctty V w' = (if tv_leader V w \<and> tv_ctty V w = None \<and> tv_is_tty V path \<and> flags AND O_NOCTTY L = 0
                         then Some path else tv_ctty V w))"
proof -
  have law: "tv_leader V v' = tv_leader V v \<and>
        (if fd = -1 then tv_fds V v' = tv_fds V v \<and> tv_ctty V v' = tv_ctty V v
         else tv_fds V v fd = None \<and> tv_fds V v' = (tv_fds V v)(fd \<mapsto> path) \<and>
           tv_ctty V v' = (if tv_leader V v \<and> tv_ctty V v = None \<and> tv_is_tty V path \<and> flags AND O_NOCTTY L = 0
                           then Some path else tv_ctty V v))" if "c_open L path flags v = (fd, v')" for v fd v'
    using laws that unfolding fd_table_laws_def by blast
  obtain v where "same_session V w v" "safe_open L path flags v = (r, w')"
  proof (rule retry_result [OF run, of "same_session V w"])
    show "same_session V w w" by (simp add: same_session_def)
    show "same_session V w v'" if "same_session V w v" "safe_open L path flags v = (Err e, v')" for v e v'
      using that law [of v] by (auto simp: same_session_def safe_open_def cvt_fd_def split: prod.splits if_splits)
  qed
  then show ?thesis
    using law [of v] by (auto simp: same_session_def safe_open_def cvt_fd_def split: prod.splits if_splits)
qed

lemma safe_dup2_retried:
  assumes laws: "fd_table_laws L V" and run: "retry_interrupted (safe_dup2 L src dest) w = Some (r, w')"
  shows "tv_leader V w' = tv_leader V w \<and> tv_ctty V w' = tv_ctty V w \<and>
    tv_fds V w' = (case r of Err e \<Rightarrow> tv_fds V w | Ok _ \<Rightarrow> (tv_fds V w)(dest := tv_fds V w src))"
proof -
  have law: "tv_leader V v' = tv_leader V v \<and> tv_ctty V v' = tv_ctty V v \<and>
      tv_fds V v' = (if i = -1 then tv_fds V v else (tv_fds V v)(dest := tv_fds V v src))"
    if "c_dup2 L src dest v = (i, v')" for v i v'
    using laws that unfolding fd_table_laws_def by blast
  obtain v where "same_session V w v" "safe_dup2 L src dest v = (r, w')"
  proof (rule retry_result [OF run, of "same_session V w"])
    show "same_session V w w" by (simp add: same_session_def)
    show "same_session V w v'" if "same_session V w v" "safe_dup2 L src dest v = (Err e, v')" for v e v'
      using that law [of v] by (auto simp: same_session_def safe_dup2_def cvt_def split: prod.splits if_splits)
  qed
  then show ?thesis
    using law [of v] by (auto simp: same_session_def safe_dup2_def cvt_def split: prod.splits if_splits)
qed

text \<open>A call that is not interrupted forever.\<close>

definition ends_interruption :: "('w \<Rightarrow> 'a io_result \<times> 'w) \<Rightarrow> bool" where
  "ends_interruption f \<longleftrightarrow> (\<forall>w. \<exists>n. \<not> interrupted (fst (f (attempt_world f n w))))"

lemma retry_total:
  assumes "ends_interruption f"
  obtains r w' where "retry_interrupted f w = Some (r, w')"
proof -
  let ?p = "\<lambda>n. \<not> interrupted (fst (f (attempt_world f n w)))"
  have "first_uninterrupted f (LEAST n. ?p n) w"
    unfolding first_uninterrupted_def
    using assms LeastI_ex [of ?p] not_less_Least [of _ ?p] by (auto simp: ends_interruption_def)
  from retry_if [OF this] show ?thesis using that by (metis surj_pair)
qed

lemma dup_stdio_result:
  assumes laws: "fd_table_laws L V" and dup: "\<And>d. ends_interruption (safe_dup2 L slave_fd d)"
    and fd: "slave_fd \<notin> {0, 1, 2}" "tv_fds V w slave_fd = Some dev"
  shows "\<exists>r w'. dup_stdio L slave_fd w = Some (r, w') \<and> tv_leader V w' = tv_leader V w \<and> tv_ctty V w' = tv_ctty V w \<and>
    (case r of
       Ok _ \<Rightarrow> tv_fds V w' = (tv_fds V w)(0 \<mapsto> dev, 1 \<mapsto> dev, 2 \<mapsto> dev, slave_fd := None)
     | Err e \<Rightarrow> \<forall>fd. fd \<notin> {0, 1, 2} \<longrightarrow> tv_fds V w' fd = ((tv_fds V w)(slave_fd := None)) fd)"
proof -
  have close: "tv_fds V (c_close L f v) = (tv_fds V v)(f := None)" "tv_leader V (c_close L f v) = tv_leader V v"
    "tv_ctty V (c_close L f v) = tv_ctty V v" for f v
    using laws unfolding fd_table_laws_def by simp_all
  obtain r0 w0 where 0: "retry_interrupted (safe_dup2 L slave_fd 0) w = Some (r0, w0)" by (rule retry_total [OF dup])
  obtain r1 w1 where 1: "retry_interrupted (safe_dup2 L slave_fd 1) w0 = Some (r1, w1)" by (rule retry_total [OF dup])
  obtain r2 w2 where 2: "retry_interrupted (safe_dup2 L slave_fd 2) w1 = Some (r2, w2)" by (rule retry_total [OF dup])
  note d = safe_dup2_retried [OF laws 0] safe_dup2_retried [OF laws 1] safe_dup2_retried [OF laws 2]
  consider e where "r0 = Err e" | e where "r0 = Ok ()" "r1 = Err e" | "r0 = Ok ()" "r1 = Ok ()"
    by (metis io_result.exhaust old.unit.exhaust)
  then show ?thesis
  proof cases
    case 1
    then show ?thesis using 0 d(1) by (simp add: dup_stdio_def close)
  next
    case 2
    then show ?thesis using 0 1 d(1,2) fd by (auto simp: dup_stdio_def close)
  next
    case 3
    then show ?thesis using 0 1 2 d fd by (cases r2) (auto simp: dup_stdio_def close)
  qed
qed

text \<open>C8. What the child does between \<^verbatim>\<open>fork\<close> and \<^verbatim>\<open>exec\<close> of \<^verbatim>\<open>Pty::spawn\<close>. If \<^verbatim>\<open>open\<close> and \<^verbatim>\<open>dup2\<close> are not interrupted
  forever it returns. On success the child leads a session whose controlling terminal is the slave,
  descriptors 0, 1 and 2 are the slave, and no other descriptor differs from before: the one the
  slave was opened on is closed. On an error no descriptor other than 0, 1, 2 differs either.\<close>

theorem enter_pty_binds_stdio:
  assumes "fd_table_laws L V" and "tv_is_tty V slave" and "{0, 1, 2} \<subseteq> dom (tv_fds V w)"
    and "ends_interruption (safe_open L slave (O_RDWR L))" and "\<And>fd d. ends_interruption (safe_dup2 L fd d)"
  shows "\<exists>r w'. enter_pty L slave w = Some (r, w') \<and>
    (case r of
       Ok _ \<Rightarrow> tv_leader V w' \<and> tv_ctty V w' = Some slave \<and>
         tv_fds V w' = (tv_fds V w)(0 \<mapsto> slave, 1 \<mapsto> slave, 2 \<mapsto> slave)
     | Err e \<Rightarrow> \<forall>fd. fd \<notin> {0, 1, 2} \<longrightarrow> tv_fds V w' fd = tv_fds V w fd)"
proof -
  obtain i w1 where sid: "c_setsid L w = (i, w1)" by fastforce
  have law: "tv_fds V w1 = tv_fds V w" "i \<noteq> -1 \<Longrightarrow> tv_leader V w1 \<and> tv_ctty V w1 = None" "O_RDWR L AND O_NOCTTY L = 0"
    using assms(1) sid unfolding fd_table_laws_def by metis+
  obtain r w2 where op: "retry_interrupted (safe_open L slave (O_RDWR L)) w1 = Some (r, w2)"
    by (rule retry_total [OF assms(4)])
  note o = safe_open_retried [OF assms(1) op]
  show ?thesis
  proof (cases "i = -1")
    case True
    then show ?thesis using sid law(1) by (simp add: enter_pty_def)
  next
    case i: False
    show ?thesis
    proof (cases r)
      case (Err e)
      then show ?thesis using i sid op o law(1) by (simp add: enter_pty_def)
    next
      case (Ok fd)
      have fresh: "tv_fds V w fd = None" "tv_fds V w2 = (tv_fds V w)(fd \<mapsto> slave)" "tv_leader V w2"
        "tv_ctty V w2 = Some slave"
        using o law i assms(2) Ok by auto
      then have "fd \<notin> {0, 1, 2}" "tv_fds V w2 fd = Some slave" using assms(3) by auto
      from dup_stdio_result [OF assms(1) assms(5) this] obtain r' w' where
        dup: "dup_stdio L fd w2 = Some (r', w')" "tv_leader V w' = tv_leader V w2" "tv_ctty V w' = tv_ctty V w2"
          "case r' of
             Ok _ \<Rightarrow> tv_fds V w' = (tv_fds V w2)(0 \<mapsto> slave, 1 \<mapsto> slave, 2 \<mapsto> slave, fd := None)
           | Err e \<Rightarrow> \<forall>f. f \<notin> {0, 1, 2} \<longrightarrow> tv_fds V w' f = ((tv_fds V w2)(fd := None)) f"
        by blast
      have "enter_pty L slave w = Some (r', w')"
        using i sid op Ok dup(1) by (simp add: enter_pty_def)
      then show ?thesis
        using dup fresh \<open>fd \<notin> {0, 1, 2}\<close> by (cases r') (auto simp: fun_eq_iff)
    qed
  qed
qed

lemma tw_interruption_ends:
  assumes "\<And>w. tw_eintr w = 0 \<Longrightarrow> \<not> interrupted (fst (f w))"
    and "\<And>w. tw_eintr w > 0 \<Longrightarrow> tw_eintr (snd (f w)) = tw_eintr w - 1"
  shows "ends_interruption f"
proof -
  have "tw_eintr (attempt_world f n w) = 0" if "tw_eintr w = n" for n w
    using that
  proof (induction n arbitrary: w)
    case (Suc n)
    then show ?case using assms(2) [of w] by simp
  qed simp
  then show ?thesis unfolding ends_interruption_def using assms(1) by blast
qed

definition forked_world :: tty_world where
  "forked_world =
     \<lparr>tw_fds = [0 \<mapsto> [110], 1 \<mapsto> [110], 2 \<mapsto> [110], 3 \<mapsto> [112]], tw_leader = False, tw_ctty = Some [99],
      tw_winsize = (\<lambda>_. \<lparr>ws_row = 0, ws_col = 0, ws_xpixel = 0, ws_ypixel = 0\<rparr>),
      tw_termios = (\<lambda>_. (zeroed_termios tw_libc)\<lparr>c_oflag := 5\<rparr>), tw_next = 4, tw_eintr = 3, tw_errno = error_of_kind (OtherKind 0)\<rparr>"

theorem safe_ptsname_copies_witness:
  "fst (safe_ptsname (tw_libc\<lparr>c_ptsname := \<lambda>fd w. (Some [116, 116, 0, 7], w)\<rparr>) 3 forked_world) = Ok [116, 116]"
proof -
  let ?L = "tw_libc\<lparr>c_ptsname := \<lambda>fd w. (Some [116, 116, 0, 7], w)\<rparr>"
  have "\<And>mem. c_strlen ?L mem = length (takeWhile (\<lambda>b. b \<noteq> 0) mem)" by (simp add: tw_libc_def)
  from safe_ptsname_copies [OF this] show ?thesis by simp
qed

lemma retry_eval:
  "f w = (r, w') \<Longrightarrow> \<not> interrupted r \<Longrightarrow> retry_interrupted f w = Some (r, w')"
  "f w = (r, w') \<Longrightarrow> interrupted r \<Longrightarrow> retry_interrupted f w = retry_interrupted f w'"
  by (subst retry_step, simp)+

theorem enter_pty_binds_stdio_witness:
  "\<exists>w'. enter_pty tw_libc [116] forked_world = Some (Ok (), w') \<and> tw_leader w' \<and> tw_ctty w' = Some [116] \<and>
     tw_fds w' = [3 \<mapsto> [112], 0 \<mapsto> [116], 1 \<mapsto> [116], 2 \<mapsto> [116]]"
proof -
  have ends: "ends_interruption (safe_open tw_libc [116] (O_RDWR tw_libc))" "ends_interruption (safe_dup2 tw_libc fd d)" for fd d
    by (rule tw_interruption_ends;
        auto simp: safe_open_def safe_dup2_def cvt_def cvt_fd_def interrupted_def tw_ops split: if_splits)+
  have ok: "\<exists>w'. enter_pty tw_libc [116] forked_world = Some (Ok (), w')"
    by (simp add: enter_pty_def dup_stdio_def retry_eval safe_open_def safe_dup2_def cvt_def cvt_fd_def interrupted_def
        tw_ops forked_world_def)
  have "tv_is_tty tw_view [116]" "{0, 1, 2} \<subseteq> dom (tv_fds tw_view forked_world)"
    by (simp_all add: tw_view_def forked_world_def)
  from enter_pty_binds_stdio [OF tw_fd_table_laws this ends] ok
  show ?thesis by (auto simp: tw_view_def forked_world_def)
qed

section \<open>Opening and spawning\<close>

lemma terminal_lawsD:
  assumes "terminal_laws L V"
  shows "c_grantpt L fd w = (r, w') \<Longrightarrow> tv_fds V w' = tv_fds V w"
    "c_unlockpt L fd w = (r, w') \<Longrightarrow> tv_fds V w' = tv_fds V w"
    "c_ptsname L fd w = (n, w') \<Longrightarrow>
       tv_fds V w' = tv_fds V w \<and> tv_winsize V w' = tv_winsize V w \<and> tv_termios V w' = tv_termios V w"
  using assms unfolding terminal_laws_def by (metis snd_conv)+

lemma pty_open_result:
  assumes "fd_table_laws L V" and "terminal_laws L V" and "pty_open L w = (r, w')"
  shows "case r of
      Err e \<Rightarrow> tv_fds V w' = tv_fds V w
    | Ok p \<Rightarrow> tv_fds V w (master p) = None \<and> (\<exists>dev. tv_fds V w' = (tv_fds V w)(master p \<mapsto> dev)) \<and>
        ws_row (pty_winsize p) = 64 \<and> ws_col (pty_winsize p) = 256"
proof -
  obtain i w1 where op: "c_posix_openpt L (O_RDWR L OR O_NOCTTY L) w = (i, w1)" by fastforce
  obtain g w2 where gr: "c_grantpt L i w1 = (g, w2)" by fastforce
  obtain u w3 where un: "c_unlockpt L i w2 = (u, w3)" by fastforce
  have o: "if i = -1 then tv_fds V w1 = tv_fds V w
       else tv_fds V w i = None \<and> (\<exists>dev. tv_fds V w1 = (tv_fds V w)(i \<mapsto> dev))"
    and close: "tv_fds V (c_close L f v) = (tv_fds V v)(f := None)" for f v
    using assms(1) op unfolding fd_table_laws_def by blast+
  note keep = terminal_lawsD(1) [OF assms(2) gr] terminal_lawsD(2) [OF assms(2) un]
  have undo: "(tv_fds V w)(i := None) = tv_fds V w" if "i \<noteq> -1" using o that by (simp add: fun_upd_idem)
  show ?thesis
    using assms(3) op gr un o keep undo
    by (auto simp: pty_open_def safe_openpt_def safe_grantpt_def safe_unlockpt_def cvt_def cvt_fd_def Let_def close
        DEFAULT_PTY_ROWS_def DEFAULT_PTY_COLS_def split: if_splits)
qed

text \<open>C19. \<^verbatim>\<open>Pty::open\<close> either succeeds with a fresh master descriptor, the only new one, and a window of 64 rows
  and 256 columns, or fails and leaves the descriptor table as it was: a master whose
  \<^verbatim>\<open>grantpt\<close> or \<^verbatim>\<open>unlockpt\<close> fails is closed.\<close>

theorem pty_open_leaks_nothing:
  assumes "fd_table_laws L V" and "terminal_laws L V" and "pty_open L w = (r, w')"
  shows "case r of
      Err e \<Rightarrow> tv_fds V w' = tv_fds V w
    | Ok p \<Rightarrow> tv_fds V w (master p) = None \<and> (\<exists>dev. tv_fds V w' = (tv_fds V w)(master p \<mapsto> dev)) \<and>
        ws_row (pty_winsize p) = 64 \<and> ws_col (pty_winsize p) = 256"
  using assms by (rule pty_open_result)

definition shell_world :: tty_world where
  "shell_world = forked_world\<lparr>tw_fds := [0 \<mapsto> [99], 1 \<mapsto> [99], 2 \<mapsto> [99]], tw_next := 3, tw_eintr := 0\<rparr>"

lemma shell_open:
  "pty_open tw_libc shell_world =
     (Ok \<lparr>master = 3, pty_winsize = \<lparr>ws_row = 64, ws_col = 256, ws_xpixel = 0, ws_ypixel = 0\<rparr>\<rparr>,
      shell_world\<lparr>tw_fds := [0 \<mapsto> [99], 1 \<mapsto> [99], 2 \<mapsto> [99], 3 \<mapsto> [112]], tw_next := 4\<rparr>)"
  by (simp add: pty_open_def safe_openpt_def safe_grantpt_def safe_unlockpt_def cvt_def cvt_fd_def tw_ops
      shell_world_def forked_world_def DEFAULT_PTY_ROWS_def DEFAULT_PTY_COLS_def)

theorem pty_open_leaks_nothing_witness:
  "tw_fds shell_world 3 = None \<and> (\<exists>dev. tw_fds (snd (pty_open tw_libc shell_world)) = (tw_fds shell_world)(3 \<mapsto> dev))"
  using pty_open_leaks_nothing [OF tw_fd_table_laws tw_terminal_laws shell_open]
  by (simp add: shell_open tw_view_def)

lemma safe_set_tty_size_law:
  assumes "terminal_laws L V" and "safe_set_tty_size L fd ws w = (r, w')"
  shows "tv_fds V w' = tv_fds V w \<and> (r = Ok () \<longrightarrow> tv_winsize V w' fd = ws)"
proof -
  obtain i where "c_ioctl_winsz L fd ws w = (i, w')" "i = -1 \<longrightarrow> r \<noteq> Ok ()"
    using assms(2) by (auto simp: safe_set_tty_size_def cvt_def split: prod.splits if_splits)
  then show ?thesis using assms(1) unfolding terminal_laws_def by blast
qed

lemma clear_onlcr_law:
  assumes "terminal_laws L V" and "clear_onlcr L fd w = (r, w')"
  shows "tv_fds V w' = tv_fds V w \<and> tv_winsize V w' = tv_winsize V w \<and>
    (r = Ok () \<longrightarrow> c_oflag (tv_termios V w' fd) AND ONLCR L = 0)"
proof -
  obtain i t w1 where get: "c_tcgetattr L fd (zeroed_termios L) w = ((i, t), w1)" by (metis surj_pair)
  then have g: "tv_fds V w1 = tv_fds V w \<and> tv_winsize V w1 = tv_winsize V w \<and> tv_termios V w1 = tv_termios V w \<and>
      (i \<noteq> -1 \<longrightarrow> t = tv_termios V w fd)"
    using assms(1) unfolding terminal_laws_def by blast
  let ?t = "t\<lparr>c_oflag := c_oflag t AND NOT (ONLCR L)\<rparr>"
  obtain k w2 where set: "c_tcsetattr L fd (TCSANOW L) ?t w1 = (k, w2)" by fastforce
  then have "tv_fds V w2 = tv_fds V w1 \<and> tv_winsize V w2 = tv_winsize V w1 \<and>
      (k \<noteq> -1 \<and> ?t = (tv_termios V w1 fd)\<lparr>c_oflag := c_oflag (tv_termios V w1 fd) AND NOT (ONLCR L)\<rparr> \<longrightarrow>
       tv_termios V w2 fd = ?t)"
    using assms(1) unfolding terminal_laws_def by blast
  moreover have "(c_oflag t AND NOT (ONLCR L)) AND ONLCR L = 0"
    by (rule bit_word_eqI) (auto simp: bit_and_iff bit_not_iff)
  ultimately show ?thesis
    using assms(2) get set g
    by (auto simp: clear_onlcr_def safe_tcgetattr_def safe_tcsetattr_def cvt_def split: if_splits)
qed

text \<open>The child process was started, without stdio of its own, to enter the pty whose master is \<open>fd\<close>.\<close>

definition started_under ::
  "'w libc \<Rightarrow> ('w Command \<Rightarrow> 'w \<Rightarrow> Child io_result \<times> 'w) \<Rightarrow> 'w Command \<Rightarrow> RawFd \<Rightarrow> Child \<Rightarrow> 'w \<Rightarrow> bool" where
  "started_under L spawn command fd ch w' \<longleftrightarrow> (\<exists>slave v0 v. safe_ptsname L fd v0 = (Ok slave, v) \<and>
     spawn (command\<lparr>cmd_stdin := Null, cmd_stdout := Null, cmd_stderr := Null,
       pre_exec := Some (enter_pty L slave)\<rparr>) v = (Ok ch, w'))"

lemma pty_spawn_result:
  assumes "fd_table_laws L V" and "terminal_laws L V" and "spawn_laws spawn V"
    and "pty_spawn L spawn p command w = (r, w')"
  shows "case r of
      Err e \<Rightarrow> tv_fds V w' = (tv_fds V w)(master p := None)
    | Ok (ch, fd) \<Rightarrow> fd = master p \<and> tv_fds V w' = tv_fds V w \<and> tv_winsize V w' fd = pty_winsize p \<and>
        c_oflag (tv_termios V w' fd) AND ONLCR L = 0 \<and>
        started_under L spawn command fd ch w'"
proof -
  let ?m = "master p"
  have close: "tv_fds V (c_close L f v) = (tv_fds V v)(f := None)" for f v
    using assms(1) unfolding fd_table_laws_def by blast
  obtain r1 w1 where 1: "safe_set_tty_size L ?m (pty_winsize p) w = (r1, w1)" by fastforce
  note l1 = safe_set_tty_size_law [OF assms(2) 1]
  obtain r2 w2 where 2: "clear_onlcr L ?m w1 = (r2, w2)" by fastforce
  note l2 = clear_onlcr_law [OF assms(2) 2]
  obtain r3 w3 where 3: "safe_ptsname L ?m w2 = (r3, w3)" by fastforce
  have l3: "tv_fds V w3 = tv_fds V w2 \<and> tv_winsize V w3 = tv_winsize V w2 \<and> tv_termios V w3 = tv_termios V w2"
    using 3 terminal_lawsD(3) [OF assms(2), of ?m w2] by (auto simp: safe_ptsname_def Let_def split: prod.splits option.splits)
  consider e where "r1 = Err e" | e where "r1 = Ok ()" "r2 = Err e" | e where "r1 = Ok ()" "r2 = Ok ()" "r3 = Err e"
    | slave where "r1 = Ok ()" "r2 = Ok ()" "r3 = Ok slave"
    by (metis io_result.exhaust old.unit.exhaust)
  then show ?thesis
  proof cases
    case (4 slave)
    let ?c = "command\<lparr>cmd_stdin := Null, cmd_stdout := Null, cmd_stderr := Null, pre_exec := Some (enter_pty L slave)\<rparr>"
    obtain r4 w4 where sp: "spawn ?c w3 = (r4, w4)" by fastforce
    have l4: "tv_fds V w4 = tv_fds V w3 \<and> tv_winsize V w4 = tv_winsize V w3 \<and> tv_termios V w4 = tv_termios V w3"
      using assms(3) [unfolded spawn_laws_def, rule_format, of ?c w3] sp by simp
    have started: "started_under L spawn command ?m ch w4" if "r4 = Ok ch" for ch
      unfolding started_under_def using 3 4 sp that by blast
    show ?thesis
      using assms(4) 1 2 3 4 l1 l2 l3 l4 sp started
      by (cases r4) (auto simp: pty_spawn_def Let_def close)
  qed (use assms(4) 1 2 3 l1 l2 l3 in \<open>auto simp: pty_spawn_def Let_def close\<close>)
qed

text \<open>C18. \<^verbatim>\<open>Pty::spawn\<close> consumes the pty. On an error (of any step) the master is closed and no other
  descriptor differs. On success the master is returned open, no descriptor differs, the terminal
  has the configured window size and no longer maps LF to CRLF, and the child was started with its
  stdio on \<^verbatim>\<open>/dev/null\<close> and told to enter the pty under the slave's name.\<close>

theorem pty_spawn_configures_or_closes:
  assumes "fd_table_laws L V" and "terminal_laws L V" and "spawn_laws spawn V"
    and "pty_spawn L spawn p command w = (r, w')"
  shows "case r of
      Err e \<Rightarrow> tv_fds V w' = (tv_fds V w)(master p := None)
    | Ok (ch, fd) \<Rightarrow> fd = master p \<and> tv_fds V w' = tv_fds V w \<and> tv_winsize V w' fd = pty_winsize p \<and>
        c_oflag (tv_termios V w' fd) AND ONLCR L = 0 \<and>
        started_under L spawn command fd ch w'"
  using assms by (rule pty_spawn_result)

definition tw_spawn :: "tty_world Command \<Rightarrow> tty_world \<Rightarrow> Child io_result \<times> tty_world" where
  "tw_spawn c w = (Ok \<lparr>child_id = 42, child_stdin = None, child_stdout = None, child_stderr = None\<rparr>, w)"

theorem pty_spawn_configures_or_closes_witness:
  "\<exists>ch w'. pty_spawn tw_libc tw_spawn
      (set_rows 24 \<lparr>master = 3, pty_winsize = \<lparr>ws_row = 64, ws_col = 256, ws_xpixel = 0, ws_ypixel = 0\<rparr>\<rparr>)
      \<lparr>program = ''c'', prog_args = [], cmd_stdin = Inherit, cmd_stdout = Inherit, cmd_stderr = Inherit, pre_exec = None\<rparr>
      forked_world = (Ok (ch, 3), w') \<and>
    tw_fds w' = tw_fds forked_world \<and> ws_row (tw_winsize w' 3) = 24 \<and> ws_col (tw_winsize w' 3) = 256 \<and>
    c_oflag (tw_termios w' 3) AND 4 = 0"
proof -
  have laws: "spawn_laws tw_spawn tw_view" by (simp add: spawn_laws_def tw_spawn_def)
  let ?p = "set_rows 24 \<lparr>master = 3, pty_winsize = \<lparr>ws_row = 64, ws_col = 256, ws_xpixel = 0, ws_ypixel = 0\<rparr>\<rparr>"
  let ?c = "\<lparr>program = ''c'', prog_args = [], cmd_stdin = Inherit, cmd_stdout = Inherit, cmd_stderr = Inherit, pre_exec = None\<rparr>"
  have "\<exists>ch w'. pty_spawn tw_libc tw_spawn ?p ?c forked_world = (Ok (ch, 3), w')"
    by (simp add: pty_spawn_def safe_set_tty_size_def clear_onlcr_def safe_tcgetattr_def safe_tcsetattr_def cvt_def
        safe_ptsname_def cstring_new_def tw_ops tw_spawn_def forked_world_def set_rows_def Let_def)
  then obtain ch w' where run: "pty_spawn tw_libc tw_spawn ?p ?c forked_world = (Ok (ch, 3), w')" by blast
  show ?thesis
    using pty_spawn_configures_or_closes [OF tw_fd_table_laws tw_terminal_laws laws run] run
    by (auto simp: tw_view_def set_rows_def tw_libc_def)
qed

end
