(* ===== verification/Main_Program.thy ===== *)
theory Main_Program
  imports Pty Signals IOSock_Manager Pollster
begin

text \<open>
  \<^verbatim>\<open>src/src/main.rs\<close> and \<^verbatim>\<open>die\<close> of \<^verbatim>\<open>src/src/lib.rs\<close>: the arguments, the start-up of the child and of the worker,
  and the two threads of the running program as an interleaving of their steps. The calls of \<^verbatim>\<open>std\<close>
  that reach the operating system are a parameter (\<open>process_api\<close>).
\<close>

section \<open>Ending the process\<close>

text \<open>What \<^verbatim>\<open>eprintln!\<close> is given: a text, or a text followed by an error.\<close>

datatype message = Text string | Text_error string io_error

record 'w process_api =
  unix_bind :: "string \<Rightarrow> 'w \<Rightarrow> RawFd io_result \<times> 'w"
  os_pipe :: "'w \<Rightarrow> (RawFd \<times> RawFd) io_result \<times> 'w"
  spawn_command :: "'w Command \<Rightarrow> 'w \<Rightarrow> Child io_result \<times> 'w"
  wait_child :: "Child \<Rightarrow> 'w \<Rightarrow> int option io_result \<times> 'w"
  remove_path :: "string \<Rightarrow> 'w \<Rightarrow> unit io_result \<times> 'w"
  eprintln :: "message \<Rightarrow> 'w \<Rightarrow> 'w"

text \<open>A piece of \<^verbatim>\<open>main\<close> goes on with a value or has ended the process with a status.\<close>

datatype 'a flow = Running 'a | Exits int

definition flow_bind :: "'a flow \<times> 'w \<Rightarrow> ('a \<Rightarrow> 'w \<Rightarrow> 'b flow \<times> 'w) \<Rightarrow> 'b flow \<times> 'w" where
  "flow_bind x k = (case x of (Running a, w) \<Rightarrow> k a w | (Exits c, w) \<Rightarrow> (Exits c, w))"

definition die :: "'w process_api \<Rightarrow> message \<Rightarrow> 'w \<Rightarrow> int \<times> 'w" where
  "die S msg w = (let w = eprintln S msg w in (255, w))"

definition exits_by :: "int \<times> 'w \<Rightarrow> 'a flow \<times> 'w" where
  "exits_by cw = (Exits (fst cw), snd cw)"

text \<open>\<^verbatim>\<open>unwrap_or_else(|err| die(..))\<close> on a result, \<^verbatim>\<open>unwrap_or_else(|| die(..))\<close> on an option.\<close>

definition ok_or_die :: "'w process_api \<Rightarrow> string \<Rightarrow> 'a io_result \<times> 'w \<Rightarrow> 'a flow \<times> 'w" where
  "ok_or_die S text rw =
     (case rw of (Ok v, w) \<Rightarrow> (Running v, w) | (Err e, w) \<Rightarrow> exits_by (die S (Text_error text e) w))"

definition some_or_die :: "'w process_api \<Rightarrow> string \<Rightarrow> 'a option \<Rightarrow> 'w \<Rightarrow> 'a flow \<times> 'w" where
  "some_or_die S text opt w =
     (case opt of Some v \<Rightarrow> (Running v, w) | None \<Rightarrow> exits_by (die S (Text text) w))"

definition usage :: "'w process_api \<Rightarrow> 'w \<Rightarrow> 'a flow \<times> 'w" where
  "usage S w = exits_by (die S (Text ''Usage: iosock [-p|--pty] SOCKET_PATH PROGRAM ARGS...'') w)"

section \<open>Starting the child and the manager\<close>

datatype worker_manager =
    With_pipes "ChildPipes IOSockChannelManager"
  | With_pty "ChildPty IOSockChannelManager"

definition run_stdio_pipes ::
  "'w process_api \<Rightarrow> 'w Command \<Rightarrow> RawFd \<Rightarrow> 'w \<Rightarrow> (Child \<times> worker_manager) flow \<times> 'w" where
  "run_stdio_pipes S command listener w =
     (let command = command\<lparr>cmd_stdin := Piped, cmd_stdout := Piped, cmd_stderr := Piped\<rparr> in
      flow_bind (ok_or_die S ''Could not start process: '' (spawn_command S command w)) (\<lambda>ch w.
      flow_bind (some_or_die S ''No stdin pipe for child'' (child_stdin ch) w) (\<lambda>i w.
      flow_bind (some_or_die S ''No stdout pipe for child'' (child_stdout ch) w) (\<lambda>out w.
      flow_bind (some_or_die S ''No stderr pipe for child'' (child_stderr ch) w) (\<lambda>err w.
        (Running (ch\<lparr>child_stdin := None, child_stdout := None, child_stderr := None\<rparr>,
           With_pipes (manager_new (pipes_new i out err) listener)), w))))))"

definition run_stdio_pty ::
  "'w process_api \<Rightarrow> 'w libc \<Rightarrow> 'w Command \<Rightarrow> RawFd \<Rightarrow> 'w \<Rightarrow> (Child \<times> worker_manager) flow \<times> 'w" where
  "run_stdio_pty S L command listener w =
     flow_bind (ok_or_die S ''Could not start pty: '' (pty_open L w)) (\<lambda>pt w.
     flow_bind (ok_or_die S ''Could not start process: '' (pty_spawn L (spawn_command S) pt command w)) (\<lambda>(ch, pty_master) w.
       (Running (ch, With_pty (manager_new (child_pty_new pty_master) listener)), w)))"

text \<open>\<^verbatim>\<open>args()\<close> without the program name: an optional flag, the socket's path, the command line. \<open>None\<close> is
  where \<^verbatim>\<open>main\<close> calls \<^verbatim>\<open>usage\<close>.\<close>

definition parse_args :: "string list \<Rightarrow> (bool \<times> string \<times> string list) option" where
  "parse_args args =
     (case drop 1 args of
        [] \<Rightarrow> None
      | a # rest \<Rightarrow> do {
          (use_pty, sock_path, command_line) \<leftarrow>
            (if a = ''-p'' \<or> a = ''--pty''
             then (case rest of [] \<Rightarrow> None | path # rest \<Rightarrow> Some (True, path, rest))
             else Some (False, a, rest));
          if command_line = [] then None else Some (use_pty, sock_path, command_line)
        })"

record 'm launched =
  sock_path :: string
  the_child :: Child
  closer_read :: RawFd
  closer_write :: RawFd
  worker_mgr :: 'm

definition main_start :: "'w process_api \<Rightarrow> 'w libc \<Rightarrow> string list \<Rightarrow> 'w \<Rightarrow> worker_manager launched flow \<times> 'w" where
  "main_start S L args w =
     (case parse_args args of
        None \<Rightarrow> usage S w
      | Some (use_pty, path, command_line) \<Rightarrow>
          flow_bind (ok_or_die S ''Could not create socket: '' (unix_bind S path w)) (\<lambda>listener w.
          flow_bind (ok_or_die S ''Could not create notification pipe: '' (os_pipe S w)) (\<lambda>(rd, wr) w.
            let proc = \<lparr>program = hd command_line, prog_args = tl command_line, cmd_stdin = Inherit,
                        cmd_stdout = Inherit, cmd_stderr = Inherit, pre_exec = None\<rparr> in
            flow_bind (if use_pty then run_stdio_pty S L proc listener w else run_stdio_pipes S proc listener w)
              (\<lambda>(ch, m) w. (Running \<lparr>sock_path = path, the_child = ch, closer_read = rd, closer_write = wr,
                 worker_mgr = m\<rparr>, w)))))"

section \<open>The worker thread\<close>

text \<open>The body of the closure given to \<^verbatim>\<open>spawn\<close>, the same for pipes and for a pty: \<open>None\<close> is a loop that never ends, \<open>Some None\<close> a panic.\<close>

definition worker_job ::
  "'w process_api \<Rightarrow> 'w platform \<Rightarrow> ('m, 'w) ChannelManager \<Rightarrow> RawFd \<Rightarrow> 'm \<Rightarrow> 'w \<Rightarrow> (unit io_result \<times> 'w) option option" where
  "worker_job S P cm cfd m w =
     (case pollster_new P cm m cfd w of
        None \<Rightarrow> Some None
      | Some (Err err, w) \<Rightarrow>
          Some (Some (Err err, eprintln S (Text_error ''IO thread could not create pollster: '' err) w))
      | Some (Ok p, w) \<Rightarrow>
          (case run P cm p w of
             None \<Rightarrow> None
           | Some None \<Rightarrow> Some None
           | Some (Some (Err err, _, w)) \<Rightarrow> Some (Some (Err err, eprintln S (Text_error ''IO thread died: '' err) w))
           | Some (Some (Ok u, _, w)) \<Rightarrow> Some (Some (Ok u, w))))"

definition pipes_worker ::
  "'w process_api \<Rightarrow> 'w platform \<Rightarrow> RawFd \<Rightarrow> ChildPipes IOSockChannelManager \<Rightarrow> 'w \<Rightarrow> (unit io_result \<times> 'w) option option" where
  "pipes_worker S P cfd m w = worker_job S P (iosock_manager P (pipes_stdio P)) cfd m w"

definition pty_worker ::
  "'w process_api \<Rightarrow> 'w platform \<Rightarrow> RawFd \<Rightarrow> ChildPty IOSockChannelManager \<Rightarrow> 'w \<Rightarrow> (unit io_result \<times> 'w) option option" where
  "pty_worker S P cfd m w = worker_job S P (iosock_manager P (pty_stdio P)) cfd m w"

text \<open>The same closure in steps that other threads can come between.\<close>

datatype 'm worker = Starting 'm | Polling "'m Pollster" | Finished "unit io_result" | Panicked

definition worker_step ::
  "'w process_api \<Rightarrow> 'w platform \<Rightarrow> ('m, 'w) ChannelManager \<Rightarrow> RawFd \<Rightarrow> 'm worker \<Rightarrow> 'w \<Rightarrow> ('m worker \<times> 'w) option" where
  "worker_step S P cm cfd wk w =
     (case wk of
        Starting m \<Rightarrow> Some
          (case pollster_new P cm m cfd w of
             None \<Rightarrow> (Panicked, w)
           | Some (Err err, w) \<Rightarrow>
               (Finished (Err err), eprintln S (Text_error ''IO thread could not create pollster: '' err) w)
           | Some (Ok p, w) \<Rightarrow> (Polling p, w))
      | Polling p \<Rightarrow> Some
          (case run_iteration P cm p w of
             None \<Rightarrow> (Panicked, w)
           | Some (Continue, p, w) \<Rightarrow> (Polling p, w)
           | Some (Return (Ok u), p, w) \<Rightarrow> (Finished (Ok u), w)
           | Some (Return (Err err), p, w) \<Rightarrow> (Finished (Err err), eprintln S (Text_error ''IO thread died: '' err) w))
      | Finished r \<Rightarrow> None
      | Panicked \<Rightarrow> None)"

section \<open>The main thread\<close>

text \<open>Where \<^verbatim>\<open>main\<close> is after the worker was spawned. \<open>Aborted\<close> is a process that a panic ended, \<open>Killed\<close> one that a
  signal ended.\<close>

datatype main_pc =
    Binding
  | Waiting
  | Notifying "int option io_result"
  | Joining "int option io_result"
  | Unlinking "int option io_result"
  | Exited int
  | Aborted
  | Killed c_int

definition exit_status :: "int option \<Rightarrow> int" where
  "exit_status code = (case code of Some c \<Rightarrow> c | None \<Rightarrow> 254)"

text \<open>One step of \<^verbatim>\<open>main\<close>; \<open>None\<close> where it is blocked.\<close>

definition main_step ::
  "'w process_api \<Rightarrow> 'w platform \<Rightarrow> ('s, 'w) signal_api \<Rightarrow> 'm launched \<Rightarrow> 'k worker \<Rightarrow> main_pc \<Rightarrow> statics \<Rightarrow> 'w \<Rightarrow>
     (main_pc \<times> statics \<times> 'w) option" where
  "main_step S P A l wk pc st w =
     (let dies = (\<lambda>msg st w. case die S msg w of (c, w) \<Rightarrow> Some (Exited c, st, w)) in
      case pc of
        Binding \<Rightarrow>
          (case kill_child_on_signal A (child_id (the_child l)) st w of
             (Ok _, st, w) \<Rightarrow> Some (Waiting, st, w)
           | (Err err, st, w) \<Rightarrow> dies (Text_error ''Could not bind signal handler: '' err) st w)
      | Waiting \<Rightarrow> (case wait_child S (the_child l) w of (r, w) \<Rightarrow> Some (Notifying r, st, w))
      | Notifying r \<Rightarrow>
          (case write_all (fd_writer P (closer_write l)) [1] w of
             None \<Rightarrow> None
           | Some (Ok _, w) \<Rightarrow> Some (Joining r, st, w)
           | Some (Err err, w) \<Rightarrow>
               Some (Joining r, st, eprintln S (Text_error ''Could not notify writer about child death: '' err) w))
      | Joining r \<Rightarrow>
          (case wk of
             Finished (Ok _) \<Rightarrow> Some (Unlinking r, st, w)
           | Finished (Err err) \<Rightarrow> dies (Text_error ''Worker thread died: '' err) st w
           | Panicked \<Rightarrow> dies (Text ''Worker thread panicked'') st w
           | Starting _ \<Rightarrow> None
           | Polling _ \<Rightarrow> None)
      | Unlinking r \<Rightarrow>
          (case remove_path S (sock_path l) w of
             (Err err, w) \<Rightarrow> dies (Text_error ''Could not remove socket: '' err) st w
           | (Ok _, w) \<Rightarrow>
               (case r of
                  Ok status \<Rightarrow> Some (Exited (exit_status status), st, w)
                | Err err \<Rightarrow> Some (Exited 255, st, eprintln S (Text_error ''Failed to wait for child: '' err) w)))
      | Exited _ \<Rightarrow> None
      | Aborted \<Rightarrow> None
      | Killed _ \<Rightarrow> None)"

section \<open>Both threads\<close>

record ('m, 'w) process =
  p_main :: main_pc
  p_worker :: "'m worker"
  p_statics :: statics
  p_world :: 'w

definition process_ended :: "main_pc \<Rightarrow> bool" where
  "process_ended pc \<longleftrightarrow> (case pc of Exited _ \<Rightarrow> True | Aborted \<Rightarrow> True | Killed _ \<Rightarrow> True | _ \<Rightarrow> False)"

definition launch :: "'m launched \<Rightarrow> 'w \<Rightarrow> ('m, 'w) process" where
  "launch l w = \<lparr>p_main = Binding, p_worker = Starting (worker_mgr l), p_statics = initial_statics, p_world = w\<rparr>"

text \<open>What the arrival of signal \<open>n\<close> does to the process, by the disposition that the signal has then: the handler runs
  on either thread, which resumes or ends the process, or the default action of the signal ends the process.\<close>

definition signal_effect ::
  "('s, 'w) signal_api \<Rightarrow> ('s, 'w) signal_view \<Rightarrow> c_int \<Rightarrow> ('m, 'w) process \<Rightarrow> ('m, 'w) process" where
  "signal_effect A V n p =
     (case deliver A (sa_sigaction (sv_action V (p_world p) n)) (p_statics p) (p_world p) of
        None \<Rightarrow> p\<lparr>p_main := Killed n\<rparr>
      | Some (Resume w) \<Rightarrow> p\<lparr>p_world := w\<rparr>
      | Some (Process_exit c w) \<Rightarrow> p\<lparr>p_main := Exited c, p_world := w\<rparr>)"

text \<open>The process as a labelled transition system. A step is one of a thread, or the arrival at any time of one of the
  signals that \<^verbatim>\<open>signals.rs\<close> is about, whose default actions all end the process. \<open>V\<close> says which disposition a
  signal has. \<open>aborts\<close> is the release profile's \<^verbatim>\<open>panic = "abort"\<close>; without it a panic ends the worker only.\<close>

datatype mover = Main_thread | Worker_thread | is_signal: Signal c_int

inductive process_step ::
  "'w process_api \<Rightarrow> 'w platform \<Rightarrow> ('s, 'w) signal_api \<Rightarrow> ('s, 'w) signal_view \<Rightarrow> ('m, 'w) ChannelManager \<Rightarrow>
     'm launched \<Rightarrow> bool \<Rightarrow> mover \<Rightarrow> ('m, 'w) process \<Rightarrow> ('m, 'w) process \<Rightarrow> bool"
  for S P A V cm l aborts where
  main_moves: "main_step S P A l (p_worker p) (p_main p) (p_statics p) (p_world p) = Some (pc, st, w) \<Longrightarrow>
    process_step S P A V cm l aborts Main_thread p (p\<lparr>p_main := pc, p_statics := st, p_world := w\<rparr>)"
| worker_moves: "\<not> process_ended (p_main p) \<Longrightarrow>
    worker_step S P cm (closer_read l) (p_worker p) (p_world p) = Some (wk, w) \<Longrightarrow>
    process_step S P A V cm l aborts Worker_thread p
      (p\<lparr>p_main := if wk = Panicked \<and> aborts then Aborted else p_main p, p_worker := wk, p_world := w\<rparr>)"
| signal_arrives: "\<not> process_ended (p_main p) \<Longrightarrow> n \<in> {SIGHUP A, SIGINT A, SIGTERM A, SIGALRM A} \<Longrightarrow>
    process_step S P A V cm l aborts (Signal n) p (signal_effect A V n p)"

inductive process_reaches ::
  "'w process_api \<Rightarrow> 'w platform \<Rightarrow> ('s, 'w) signal_api \<Rightarrow> ('s, 'w) signal_view \<Rightarrow> ('m, 'w) ChannelManager \<Rightarrow>
     'm launched \<Rightarrow> bool \<Rightarrow> ('m, 'w) process \<Rightarrow> ('m, 'w) process \<Rightarrow> bool"
  for S P A V cm l aborts p0 where
  start: "process_reaches S P A V cm l aborts p0 p0"
| step: "process_reaches S P A V cm l aborts p0 p \<Longrightarrow> process_step S P A V cm l aborts who p p' \<Longrightarrow>
    process_reaches S P A V cm l aborts p0 p'"

text \<open>The same with the labels of the steps taken.\<close>

inductive process_run ::
  "'w process_api \<Rightarrow> 'w platform \<Rightarrow> ('s, 'w) signal_api \<Rightarrow> ('s, 'w) signal_view \<Rightarrow> ('m, 'w) ChannelManager \<Rightarrow>
     'm launched \<Rightarrow> bool \<Rightarrow> ('m, 'w) process \<Rightarrow> mover list \<Rightarrow> ('m, 'w) process \<Rightarrow> bool"
  for S P A V cm l aborts p0 where
  run_start: "process_run S P A V cm l aborts p0 [] p0"
| run_step: "process_run S P A V cm l aborts p0 ws p \<Longrightarrow> process_step S P A V cm l aborts who p p' \<Longrightarrow>
    process_run S P A V cm l aborts p0 (ws @ [who]) p'"

inductive_cases process_stepE: "process_step S P A V cm l aborts who p p'"

inductive_simps signal_step_iff: "process_step S P A V cm l aborts (Signal n) p p'"

lemma process_reaches_run: "process_reaches S P A V cm l aborts p0 p \<longleftrightarrow> (\<exists>ws. process_run S P A V cm l aborts p0 ws p)"
proof
  show "\<exists>ws. process_run S P A V cm l aborts p0 ws p" if "process_reaches S P A V cm l aborts p0 p"
    using that by (induction rule: process_reaches.induct) (blast intro: process_run.intros)+
  have "process_reaches S P A V cm l aborts p0 p" if "process_run S P A V cm l aborts p0 ws p" for ws
    using that by (induction rule: process_run.induct) (blast intro: process_reaches.intros)+
  then show "\<exists>ws. process_run S P A V cm l aborts p0 ws p \<Longrightarrow> process_reaches S P A V cm l aborts p0 p" by blast
qed

lemma deliver_terminate:
  "deliver A Handler_terminate st w = Some (Resume (snd (c_kill A (CHILD_PID st) (SIGTERM A) w)))"
  by (simp add: deliver_def on_terminate_signal_def split: prod.split)

lemma signal_effect_resumes:
  assumes "sa_sigaction (sv_action V (p_world p) n) = Handler_terminate"
  shows "signal_effect A V n p = p\<lparr>p_world := snd (c_kill A (CHILD_PID (p_statics p)) (SIGTERM A) (p_world p))\<rparr>"
  using assms by (simp add: signal_effect_def deliver_terminate)

lemma signal_effect_cases:
  "signal_effect A V n p = p\<lparr>p_world := snd (c_kill A (CHILD_PID (p_statics p)) (SIGTERM A) (p_world p))\<rparr> \<or>
   signal_effect A V n p = p\<lparr>p_main := Killed n\<rparr> \<or> signal_effect A V n p = p\<lparr>p_main := Exited 255\<rparr>"
  by (cases "sa_sigaction (sv_action V (p_world p) n)")
    (simp_all add: signal_effect_def deliver_def on_terminate_signal_def on_exit_alarm_def split: prod.split)

end
