(* ===== verification/Process_Invariant.thy ===== *)
theory Process_Invariant
  imports Main_Program Manager_Loop
begin

text \<open>
  The running program as a state machine: what one step can be, the relation between the worker's steps
  and the closure it runs, and the invariant of the event loop carried through every interleaving
  with the main thread.
\<close>

section \<open>The worker alone\<close>

definition worker_move ::
  "'w process_api \<Rightarrow> 'w platform \<Rightarrow> ('m, 'w) ChannelManager \<Rightarrow> RawFd \<Rightarrow> 'm worker \<times> 'w \<Rightarrow> 'm worker \<times> 'w \<Rightarrow> bool" where
  "worker_move S P cm cfd x y \<longleftrightarrow> worker_step S P cm cfd (fst x) (snd x) = Some y"

abbreviation worker_moves_to ::
  "'w process_api \<Rightarrow> 'w platform \<Rightarrow> ('m, 'w) ChannelManager \<Rightarrow> RawFd \<Rightarrow> 'm worker \<times> 'w \<Rightarrow> 'm worker \<times> 'w \<Rightarrow> bool" where
  "worker_moves_to S P cm cfd \<equiv> (worker_move S P cm cfd)\<^sup>*\<^sup>*"

definition worker_ended :: "'m worker \<Rightarrow> bool" where
  "worker_ended wk \<longleftrightarrow> (case wk of Finished _ \<Rightarrow> True | Panicked \<Rightarrow> True | _ \<Rightarrow> False)"

lemma worker_ended_simps [simp]:
  "worker_ended (Finished r)" "worker_ended Panicked" "\<not> worker_ended (Polling p)" "\<not> worker_ended (Starting m)"
  by (simp_all add: worker_ended_def)

lemma ended_stays: "worker_ended (fst x) \<Longrightarrow> worker_moves_to S P cm cfd x y \<Longrightarrow> y = x"
  by (erule converse_rtranclpE) (auto simp: worker_move_def worker_step_def worker_ended_def split: worker.splits)

lemma polling_move:
  "worker_move S P cm cfd (Polling p, w) y \<longleftrightarrow>
     (\<exists>p' w'. run_iteration P cm p w = Some (Continue, p', w') \<and> y = (Polling p', w')) \<or>
     (\<exists>u p' w'. run_iteration P cm p w = Some (Return (Ok u), p', w') \<and> y = (Finished (Ok u), w')) \<or>
     (\<exists>e p' w'. run_iteration P cm p w = Some (Return (Err e), p', w') \<and>
        y = (Finished (Err e), eprintln S (Text_error ''IO thread died: '' e) w')) \<or>
     run_iteration P cm p w = None \<and> y = (Panicked, w)"
  by (auto simp: worker_move_def worker_step_def split: option.splits prod.splits control.splits io_result.splits)

lemma polling_reaches:
  assumes "reaches P cm p w q v"
  shows "worker_moves_to S P cm cfd (Polling p, w) (Polling q, v)"
  using assms
proof (induction rule: reaches.induct)
  case (reaches_step q v q' v')
  then have "worker_move S P cm cfd (Polling q, v) (Polling q', v')" by (simp add: polling_move)
  then show ?case using reaches_step.IH by (rule rtranclp.rtrancl_into_rtrancl [rotated])
qed simp

lemma polling_runs:
  assumes "worker_moves_to S P cm cfd x y" and "x = (Polling p, w)"
  shows "\<exists>q v. reaches P cm p w q v \<and> (y = (Polling q, v) \<or> worker_move S P cm cfd (Polling q, v) y \<and> worker_ended (fst y))"
  using assms(1)
proof (induction rule: rtranclp_induct)
  case base
  show ?case using reaches_refl assms(2) by (intro exI [of _ p] exI [of _ w]) simp
next
  case (step y z)
  then obtain q v where q: "reaches P cm p w q v"
    "y = (Polling q, v) \<or> worker_move S P cm cfd (Polling q, v) y \<and> worker_ended (fst y)" by blast
  then have y: "y = (Polling q, v)"
    using step.hyps(2) ended_stays [of y S P cm cfd z]
    by (auto simp: worker_move_def worker_step_def worker_ended_def split: worker.splits)
  show ?case
  proof (cases "worker_ended (fst z)")
    case True
    then show ?thesis using q(1) step.hyps(2) y by blast
  next
    case False
    then obtain q' v' where "run_iteration P cm q v = Some (Continue, q', v')" "z = (Polling q', v')"
      using step.hyps(2) unfolding y polling_move by auto
    then show ?thesis using reaches_step [OF q(1)] by blast
  qed
qed

lemma polling_ends:
  shows "worker_moves_to S P cm cfd (Polling p, w) (Finished r, w') \<longleftrightarrow>
     (\<exists>p' v. run P cm p w = Some (Some (r, p', v)) \<and>
        w' = (case r of Ok _ \<Rightarrow> v | Err e \<Rightarrow> eprintln S (Text_error ''IO thread died: '' e) v))"
    (is "?fin")
    and "(\<exists>w'. worker_moves_to S P cm cfd (Polling p, w) (Panicked, w')) \<longleftrightarrow> run P cm p w = Some None" (is "?pan")
proof -
  have before: "\<exists>q v. reaches P cm p w q v \<and> worker_move S P cm cfd (Polling q, v) y"
    if "worker_moves_to S P cm cfd (Polling p, w) y" "worker_ended (fst y)" for y
    using polling_runs [OF that(1) refl] that(2) by auto
  have last: "worker_moves_to S P cm cfd (Polling p, w) y"
    if "reaches P cm p w q v" "worker_move S P cm cfd (Polling q, v) y" for q v y
    using polling_reaches [OF that(1)] that(2) by (rule rtranclp.rtrancl_into_rtrancl)
  show ?pan
  proof
    assume "\<exists>w'. worker_moves_to S P cm cfd (Polling p, w) (Panicked, w')"
    then obtain q v w' where "reaches P cm p w q v" "worker_move S P cm cfd (Polling q, v) (Panicked, w')"
      using before by fastforce
    then show "run P cm p w = Some None" by (auto simp: run_iff_ends loop_ends_def polling_move)
  next
    assume "run P cm p w = Some None"
    then obtain q v where "reaches P cm p w q v" "run_iteration P cm q v = None"
      by (auto simp: run_iff_ends loop_ends_def)
    then show "\<exists>w'. worker_moves_to S P cm cfd (Polling p, w) (Panicked, w')"
      using last [of q v "(Panicked, v)"] by (auto simp: polling_move)
  qed
  show ?fin
  proof
    assume "worker_moves_to S P cm cfd (Polling p, w) (Finished r, w')"
    then obtain q v where q: "reaches P cm p w q v" "worker_move S P cm cfd (Polling q, v) (Finished r, w')"
      using before by fastforce
    from q(2) obtain p' v' where "run_iteration P cm q v = Some (Return r, p', v')"
      "w' = (case r of Ok _ \<Rightarrow> v' | Err e \<Rightarrow> eprintln S (Text_error ''IO thread died: '' e) v')"
      by (auto simp: polling_move)
    then show "\<exists>p' v. run P cm p w = Some (Some (r, p', v)) \<and>
        w' = (case r of Ok _ \<Rightarrow> v | Err e \<Rightarrow> eprintln S (Text_error ''IO thread died: '' e) v)"
      using q(1) by (auto simp: run_iff_ends loop_ends_def)
  next
    assume "\<exists>p' v. run P cm p w = Some (Some (r, p', v)) \<and>
        w' = (case r of Ok _ \<Rightarrow> v | Err e \<Rightarrow> eprintln S (Text_error ''IO thread died: '' e) v)"
    then obtain q u p' v where q: "reaches P cm p w q u" "run_iteration P cm q u = Some (Return r, p', v)"
      "w' = (case r of Ok _ \<Rightarrow> v | Err e \<Rightarrow> eprintln S (Text_error ''IO thread died: '' e) v)"
      by (auto simp: run_iff_ends loop_ends_def)
    then show "worker_moves_to S P cm cfd (Polling p, w) (Finished r, w')"
      by (intro last [OF q(1)]) (cases r; auto simp: polling_move)
  qed
qed

lemma starting_moves:
  assumes "worker_ended (fst y)"
  shows "worker_moves_to S P cm cfd (Starting m, w) y \<longleftrightarrow>
    (\<exists>z. worker_move S P cm cfd (Starting m, w) z \<and> worker_moves_to S P cm cfd z y)"
proof
  assume "worker_moves_to S P cm cfd (Starting m, w) y"
  then show "\<exists>z. worker_move S P cm cfd (Starting m, w) z \<and> worker_moves_to S P cm cfd z y"
  proof (cases rule: converse_rtranclpE)
    case base
    then show ?thesis using assms by auto
  qed blast
qed (auto intro: converse_rtranclp_into_rtranclp)

lemma ended_moves: "worker_ended (fst x) \<Longrightarrow> worker_moves_to S P cm cfd x y \<longleftrightarrow> y = x"
  using ended_stays by blast

lemma worker_job_steps:
  shows "worker_job S P cm cfd m w = Some (Some (r, w')) \<longleftrightarrow>
      worker_moves_to S P cm cfd (Starting m, w) (Finished r, w')"
    and "worker_job S P cm cfd m w = Some None \<longleftrightarrow>
      (\<exists>w'. worker_moves_to S P cm cfd (Starting m, w) (Panicked, w'))"
proof -
  consider "pollster_new P cm m cfd w = None" | e v where "pollster_new P cm m cfd w = Some (Err e, v)"
    | p v where "pollster_new P cm m cfd w = Some (Ok p, v)"
    by (metis io_result.exhaust not_None_eq surj_pair)
  then have "(worker_job S P cm cfd m w = Some (Some (r, w')) \<longleftrightarrow>
        worker_moves_to S P cm cfd (Starting m, w) (Finished r, w')) \<and>
      (worker_job S P cm cfd m w = Some None \<longleftrightarrow>
        (\<exists>w'. worker_moves_to S P cm cfd (Starting m, w) (Panicked, w')))"
  proof cases
    case 1
    then show ?thesis
      by (simp add: starting_moves worker_move_def worker_step_def worker_job_def ended_moves)
  next
    case 2
    then show ?thesis
      by (auto simp: starting_moves worker_move_def worker_step_def worker_job_def ended_moves)
  next
    case (3 p v)
    have "worker_move S P cm cfd (Starting m, w) z \<longleftrightarrow> z = (Polling p, v)" for z
      using 3 by (auto simp: worker_move_def worker_step_def)
    then have "worker_moves_to S P cm cfd (Starting m, w) y \<longleftrightarrow> worker_moves_to S P cm cfd (Polling p, v) y"
      if "worker_ended (fst y)" for y
      using starting_moves [OF that] by simp
    then show ?thesis
      using 3 by (auto simp: polling_ends worker_job_def split: option.splits io_result.splits)
  qed
  then show "worker_job S P cm cfd m w = Some (Some (r, w')) \<longleftrightarrow>
      worker_moves_to S P cm cfd (Starting m, w) (Finished r, w')"
    and "worker_job S P cm cfd m w = Some None \<longleftrightarrow>
      (\<exists>w'. worker_moves_to S P cm cfd (Starting m, w) (Panicked, w'))"
    by blast+
qed

section \<open>What the main thread leaves alone\<close>

definition same_kernel :: "'w kernel_view \<Rightarrow> 'w \<Rightarrow> 'w \<Rightarrow> bool" where
  "same_kernel K w w' \<longleftrightarrow> kv_opened K w' = kv_opened K w \<and> kv_interest K w' = kv_interest K w"

text \<open>The calls that \<^verbatim>\<open>main\<close> makes beside the worker neither open nor close descriptors and do not touch
  epoll, and neither does the signal handler.\<close>

definition quiet_calls :: "'w process_api \<Rightarrow> 'w platform \<Rightarrow> ('s, 'w) signal_api \<Rightarrow> 'w kernel_view \<Rightarrow> bool" where
  "quiet_calls S P A K \<longleftrightarrow>
     (\<forall>fd bs w. same_kernel K w (snd (sys_write P fd bs w))) \<and>
     (\<forall>msg w. same_kernel K w (eprintln S msg w)) \<and>
     (\<forall>ch w. same_kernel K w (snd (wait_child S ch w))) \<and>
     (\<forall>path w. same_kernel K w (snd (remove_path S path w))) \<and>
     (\<forall>s n w. same_kernel K w (snd (c_sigaddset A s n w))) \<and>
     (\<forall>n a w. same_kernel K w (snd (c_sigaction A n a w))) \<and>
     (\<forall>pid n w. same_kernel K w (snd (c_kill A pid n w)))"

lemma same_kernel_refl [simp]: "same_kernel K w w"
  by (simp add: same_kernel_def)

lemma same_kernel_trans: "same_kernel K u v \<Longrightarrow> same_kernel K v w \<Longrightarrow> same_kernel K u w"
  by (simp add: same_kernel_def)

lemma quiet_callsD:
  assumes "quiet_calls S P A K"
  shows "same_kernel K w (eprintln S msg w)"
    "wait_child S ch w = (x, w') \<Longrightarrow> same_kernel K w w'"
    "remove_path S path w = (r, w') \<Longrightarrow> same_kernel K w w'"
    "safe_sigaddset A s n w = (r, s', w') \<Longrightarrow> same_kernel K w w'"
    "safe_sigaction A n a w = (r, w') \<Longrightarrow> same_kernel K w w'"
    "sys_write P fd bs w = (x', w') \<Longrightarrow> same_kernel K w w'"
    "same_kernel K w (snd (c_kill A pid n w))"
  using assms unfolding quiet_calls_def safe_sigaddset_def safe_sigaction_def
  by (simp_all split: prod.splits if_splits) (metis snd_conv)+

lemma mask_signals_quiet:
  assumes q: "quiet_calls S P A K"
  shows "mask_signals A ss a w = (r, w') \<Longrightarrow> same_kernel K w w'"
proof (induction ss arbitrary: a w)
  case (Cons s ss)
  obtain r1 m w1 where 1: "safe_sigaddset A (sa_mask a) s w = (r1, m, w1)" by (metis surj_pair)
  note k = quiet_callsD(4) [OF q 1]
  then show ?case using Cons 1 by (cases r1) (auto intro: same_kernel_trans [OF k])
qed simp

lemma install_quiet:
  assumes q: "quiet_calls S P A K"
  shows "install A ss a w = (r, w') \<Longrightarrow> same_kernel K w w'"
proof (induction ss arbitrary: w)
  case (Cons s ss)
  obtain r1 w1 where 1: "safe_sigaction A s a w = (r1, w1)" by fastforce
  note k = quiet_callsD(5) [OF q 1]
  then show ?case using Cons 1 by (cases r1) (auto intro: same_kernel_trans [OF k])
qed simp

lemma kill_child_on_signal_quiet:
  assumes q: "quiet_calls S P A K" and run: "kill_child_on_signal A pid st w = (r, st', w')"
  shows "same_kernel K w w'"
proof -
  let ?a = "(zeroed_action A)\<lparr>sa_sigaction := Handler_terminate\<rparr>"
  obtain r1 w1 where 1: "mask_signals A [SIGHUP A, SIGTERM A, SIGINT A] ?a w = (r1, w1)" by fastforce
  note k = mask_signals_quiet [OF q 1]
  show ?thesis
  proof (cases r1)
    case (Ok act)
    then have "install A [SIGHUP A, SIGTERM A, SIGINT A] act w1 = (r, w')"
      using run 1 by (auto simp: kill_child_on_signal_def Let_def split: prod.splits)
    then show ?thesis using install_quiet [OF q] same_kernel_trans [OF k] by blast
  qed (use run 1 k in \<open>simp add: kill_child_on_signal_def Let_def\<close>)
qed

lemma write_all_quiet:
  assumes q: "quiet_calls S P A K" and run: "write_all (fd_writer P fd) buf w = Some (r, w')"
  shows "same_kernel K w w'"
proof -
  let ?Q = "\<lambda>W buf w (res :: unit io_result \<times> 'a). W = fd_writer P fd \<longrightarrow> same_kernel K w (snd res)"
  have "?Q (fd_writer P fd) buf w (r, w')"
  proof (rule write_all.raw_induct [where P = ?Q, OF _ run])
    fix g W buf w res
    assume IH: "\<And>W buf w res. g W buf w = Some res \<Longrightarrow> ?Q W buf w res"
      and eq: "(if buf = [] then Some (Ok (), w)
         else case write_fn W buf w of
             (Ok n, w') \<Rightarrow> if n = 0 then Some (Err (error_of_kind WriteZero), w') else g W (drop n buf) w'
           | (Err e, w') \<Rightarrow> if kind e = Interrupted then g W buf w' else Some (Err e, w')) = Some res"
    show "?Q W buf w res"
    proof
      assume W: "W = fd_writer P fd"
      obtain x w1 where x: "sys_write P fd buf w = (x, w1)" by fastforce
      note w1 = quiet_callsD(6) [OF q x]
      have "same_kernel K w (snd res)" if "g W b w1 = Some res" for b
        using IH [OF that] W same_kernel_trans [OF w1] by blast
      then show "same_kernel K w (snd res)"
        using eq x w1 by (auto simp: W fd_writer_def split: if_splits io_result.splits)
    qed
  qed
  then show ?thesis by simp
qed

lemma main_step_quiet:
  assumes q: "quiet_calls S P A K" and run: "main_step S P A l wk pc st w = Some (pc', st', w')"
  shows "same_kernel K w w'"
proof -
  have print: "same_kernel K v u \<Longrightarrow> same_kernel K v (eprintln S msg u)" for v u msg
    by (erule same_kernel_trans) (rule quiet_callsD(1) [OF q])
  show ?thesis
  proof (cases pc)
  case Binding
  obtain r st1 w1 where k: "kill_child_on_signal A (child_id (the_child l)) st w = (r, st1, w1)" by (metis surj_pair)
  show ?thesis
    using run Binding k kill_child_on_signal_quiet [OF q k]
    by (cases r) (auto intro: print simp: main_step_def die_def Let_def)
next
  case Waiting
  then show ?thesis using run quiet_callsD(2) [OF q] by (auto simp: main_step_def split: prod.splits)
next
  case (Notifying r)
  obtain x w1 where k: "write_all (fd_writer P (closer_write l)) [1] w = Some (x, w1)"
    using run Notifying by (auto simp: main_step_def split: option.splits)
  show ?thesis
    using run Notifying k write_all_quiet [OF q k]
    by (cases x) (auto intro: print simp: main_step_def)
next
  case (Joining r)
  then show ?thesis
    using run
    by (auto intro: print simp: main_step_def die_def Let_def split: worker.splits io_result.splits)
next
  case (Unlinking r)
  obtain x w1 where k: "remove_path S (sock_path l) w = (x, w1)" by fastforce
  show ?thesis
    using run Unlinking k quiet_callsD(3) [OF q k]
    by (auto intro: print simp: main_step_def die_def Let_def split: io_result.splits)
qed (use run in \<open>auto simp: main_step_def\<close>)
qed

section \<open>The worker's state under interleaving\<close>

definition worker_ok ::
  "'w platform \<Rightarrow> 'w kernel_view \<Rightarrow> ('m \<Rightarrow> PolledFdSet \<Rightarrow> 'w \<Rightarrow> bool) \<Rightarrow> ('m \<Rightarrow> 'w \<Rightarrow> bool) \<Rightarrow> 'm worker \<Rightarrow> 'w \<Rightarrow> bool" where
  "worker_ok P K minv startable wk w =
     (case wk of
        Starting m \<Rightarrow> startable m w
      | Polling p \<Rightarrow> kernel_laws P (poll_fd p) K \<and> minv (channel_mgr p) (fd_set p) w \<and>
          polled_as_requested (plat_events P) K (fd_set p) w
      | Finished r \<Rightarrow> True
      | Panicked \<Rightarrow> True)"

context channel_manager
begin

lemma worker_ok_world:
  assumes "worker_ok P K (minv P K) (startable P K) wk w" and "same_kernel K w w'"
  shows "worker_ok P K (minv P K) (startable P K) wk w'"
  using assms minv_world startable_mono
  by (auto simp: worker_ok_def same_kernel_def polled_as_requested_def split: worker.splits)

lemma worker_step_ok:
  assumes create: "\<And>w. creates_epoll P K w"
    and foreign: "kv_foreign K = [cfd \<mapsto> event_new (EPOLLIN (plat_events P)) (fd_data cfd)]"
    and ok: "worker_ok P K (minv P K) (startable P K) wk w"
    and run: "worker_step S P (cm P) cfd wk w = Some (wk', w')"
  shows "worker_ok P K (minv P K) (startable P K) wk' w'"
proof (cases wk)
  case (Starting m)
  then have "startable P K m w" using ok by (simp add: worker_ok_def)
  from new_establishes [OF create this foreign] obtain r v where
    new: "pollster_new P (cm P) m cfd w = Some (r, v)"
      "\<And>p. r = Ok p \<Longrightarrow> kernel_laws P (poll_fd p) K \<and> close_fd p = cfd \<and> minv P K (channel_mgr p) (fd_set p) v \<and>
         polled_as_requested (plat_events P) K (fd_set p) v"
    by blast
  then show ?thesis
    using run Starting by (cases r) (auto simp: worker_step_def worker_ok_def)
next
  case (Polling p)
  then have inv: "kernel_laws P (poll_fd p) K" "minv P K (channel_mgr p) (fd_set p) w"
    "polled_as_requested (plat_events P) K (fd_set p) w"
    using ok by (simp_all add: worker_ok_def)
  show ?thesis
  proof (cases wk')
    case (Polling q)
    then have "run_iteration P (cm P) p w = Some (Continue, q, w')"
      using run \<open>wk = Polling p\<close>
      by (auto simp: worker_step_def split: option.splits prod.splits control.splits io_result.splits)
    from iteration_keeps [OF inv this] inv(1) show ?thesis using Polling by (simp add: worker_ok_def)
  next
    case (Starting m)
    then show ?thesis
      using run \<open>wk = Polling p\<close>
      by (auto simp: worker_step_def split: option.splits prod.splits control.splits io_result.splits)
  qed (simp_all add: worker_ok_def)
qed (use run in \<open>simp_all add: worker_step_def\<close>)

lemma process_keeps:
  assumes reach: "process_reaches S P A V (cm P) l aborts (launch l w0) p"
    and q: "quiet_calls S P A K" and create: "\<And>w. creates_epoll P K w"
    and foreign: "kv_foreign K = [closer_read l \<mapsto> event_new (EPOLLIN (plat_events P)) (fd_data (closer_read l))]"
    and start: "startable P K (worker_mgr l) w0"
  shows "worker_ok P K (minv P K) (startable P K) (p_worker p) (p_world p)"
  using reach
proof (induction rule: process_reaches.induct)
  case start
  then show ?case using assms(5) by (simp add: launch_def worker_ok_def)
next
  case (step p who p')
  from step.hyps(2) show ?case
  proof (cases rule: process_step.cases)
    case (main_moves pc st w)
    then show ?thesis using worker_ok_world [OF step.IH main_step_quiet [OF q]] by simp
  next
    case (worker_moves wk w)
    then show ?thesis using worker_step_ok [OF create foreign step.IH] by simp
  next
    case (signal_arrives n)
    then show ?thesis
      using worker_ok_world [OF step.IH quiet_callsD(7) [OF q]] step.IH signal_effect_cases [of A V n p] by auto
  qed
qed

end

end
