(* ===== verification/Loop_Properties.thy ===== *)
theory Loop_Properties
  imports Sample_Run Manager_Data
begin

text \<open>
  The properties of \<^verbatim>\<open>IOSockChannelManager\<close> and of its event loop, stated for both implementations of
  the child's stdio.
\<close>

section \<open>What the kernel polls\<close>

definition kernel_polls :: "events_api \<Rightarrow> 'w kernel_view \<Rightarrow> 'w \<Rightarrow> RawFd \<Rightarrow> Events \<Rightarrow> bool" where
  "kernel_polls E K w fd flag =
     (case kv_interest K w fd of
        Some ev \<Rightarrow> data_fd (event_data ev) = fd \<and> ev_contains E (events ev) flag
      | None \<Rightarrow> False)"

text \<open>Every stream that bytes wait for is polled for writing, and the listener and the child's open outputs are polled for
  reading.\<close>

definition streams_polled ::
  "'w platform \<Rightarrow> 'w kernel_view \<Rightarrow> ('c, 'w) ChildStdio \<Rightarrow> 'c IOSockChannelManager \<Rightarrow> 'w \<Rightarrow> bool" where
  "streams_polled P K C m w \<longleftrightarrow>
     (let E = plat_events P; polls = kernel_polls E K w in
      (contents (out_buffer m) \<noteq> [] \<longrightarrow> pred_option (\<lambda>fd. polls fd (EPOLLOUT E)) (primary_output m)) \<and>
      (contents (in_buffer m) \<noteq> [] \<longrightarrow> pred_option (\<lambda>fd. polls fd (EPOLLOUT E)) (stdin_fd C (child m))) \<and>
      polls (server_socket m) (EPOLLIN E) \<and>
      pred_option (\<lambda>fd. polls fd (EPOLLIN E)) (stdout_fd C (child m)) \<and>
      pred_option (\<lambda>fd. polls fd (EPOLLIN E)) (stderr_fd C (child m)))"

text \<open>The client is polled for reading exactly when the manager holds it to be readable.\<close>

definition client_polled :: "'w platform \<Rightarrow> 'w kernel_view \<Rightarrow> 'c IOSockChannelManager \<Rightarrow> 'w \<Rightarrow> bool" where
  "client_polled P K m w \<longleftrightarrow>
     pred_option (\<lambda>c. client_socket_readable m \<longleftrightarrow> kernel_polls (plat_events P) K w (stream c) (EPOLLIN (plat_events P)))
       (client_socket m)"

text \<open>A client that no longer accepts output but may still send.\<close>

definition half_closed :: "'c IOSockChannelManager \<Rightarrow> bool" where
  "half_closed m \<longleftrightarrow> (\<exists>c. client_socket m = Some c \<and> availability c = ReadOnly)"

lemma kernel_polls_requested:
  assumes "polled_as_requested E K s w" and "fd \<in> dom (requested s)"
  shows "kernel_polls E K w fd (EPOLLIN E) = wants_read E (requested s) fd"
    "kernel_polls E K w fd (EPOLLOUT E) = wants_write E (requested s) fd"
proof -
  from assms obtain ev where "kv_interest K w fd = Some ev" "event_data ev = fd_data fd"
    "ev_contains E (events ev) (EPOLLIN E) = wants_read E (requested s) fd"
    "ev_contains E (events ev) (EPOLLOUT E) = wants_write E (requested s) fd"
    unfolding polled_as_requested_def by blast
  then show "kernel_polls E K w fd (EPOLLIN E) = wants_read E (requested s) fd"
    "kernel_polls E K w fd (EPOLLOUT E) = wants_write E (requested s) fd"
    by (simp_all add: kernel_polls_def)
qed

lemma wants_dom: "wants_read E req fd \<Longrightarrow> fd \<in> dom req" "wants_write E req fd \<Longrightarrow> fd \<in> dom req"
  by (auto simp: wants_read_def wants_write_def wants_def split: option.splits)

lemma wakeups_inv:
  assumes inv: "mgr_inv P K cinv C m s w" and pol: "polled_as_requested (plat_events P) K s w"
  shows "streams_polled P K C m w" "client_polled P K m w \<longleftrightarrow> \<not> half_closed m"
proof -
  let ?E = "plat_events P"
  have r: "kernel_polls ?E K w fd (EPOLLIN ?E)" if "wants_read ?E (requested s) fd" for fd
    using kernel_polls_requested(1) [OF pol wants_dom(1) [OF that]] that by simp
  have w: "kernel_polls ?E K w fd (EPOLLOUT ?E)" if "wants_write ?E (requested s) fd" for fd
    using kernel_polls_requested(2) [OF pol wants_dom(2) [OF that]] that by simp
  show "streams_polled P K C m w"
    using mgr_invD(2-4) [OF inv] r w
    by (auto simp: streams_polled_def output_wakeup_def input_wakeup_def sources_polled_def Let_def pred_option_def)
  have "kernel_polls ?E K w (stream c) (EPOLLIN ?E) = wants_read ?E (requested s) (stream c)"
    if "client_socket m = Some c" for c
    by (rule kernel_polls_requested(1) [OF pol])
      (use mgr_coreD(6) [OF mgr_invD(1) [OF inv]] that in \<open>simp add: role_defs\<close>)
  then have "kernel_polls ?E K w (stream c) (EPOLLIN ?E) \<longleftrightarrow> availability c = ReadWrite"
    if "client_socket m = Some c" for c
    using mgr_invD(4) [OF inv] that by (simp add: sources_polled_def)
  then show "client_polled P K m w \<longleftrightarrow> \<not> half_closed m"
    by (cases "client_socket m"; cases "availability (the (client_socket m))")
      (simp_all add: client_polled_def half_closed_def client_socket_readable_def)
qed

text \<open>C1. No lost wakeup. After \<^verbatim>\<open>Pollster::new\<close> on a freshly built manager succeeded, after any number
  of iterations of \<^verbatim>\<open>Pollster::run\<close>, whatever the kernel, the child and the clients did: if output of
  the child is buffered, the kernel polls the primary output (the client, else the console) for
  writability; if input is buffered and the child's stdin is open, the kernel polls it for
  writability; the listening socket and the child's open output streams are polled for
  readability. The client is polled for readability exactly when \<^verbatim>\<open>client_socket_readable\<close> says that it may deliver
  bytes, with one exception: a client that was marked read-only is readable and is not polled (the code clears the wrong
  flag there). Stated for a child on pipes and for a child on a pty.\<close>

theorem no_lost_wakeup:
  assumes "creates_epoll P K w0"
    and "kv_foreign K = [cfd \<mapsto> event_new (EPOLLIN (plat_events P)) (fd_data cfd)]"
  shows "(mgr_startable K pipes_inv pipes_started (pipes_stdio P) m0 w0 \<and>
       pollster_new P (iosock_manager P (pipes_stdio P)) m0 cfd w0 = Some (Ok p0, w1) \<and>
       reaches P (iosock_manager P (pipes_stdio P)) p0 w1 p w \<longrightarrow>
       streams_polled P K (pipes_stdio P) (channel_mgr p) w \<and>
       (client_polled P K (channel_mgr p) w \<longleftrightarrow> \<not> half_closed (channel_mgr p))) \<and>
    (mgr_startable K (\<lambda>_. True) pty_started (pty_stdio P) m0' w0 \<and>
       pollster_new P (iosock_manager P (pty_stdio P)) m0' cfd w0 = Some (Ok p0', w1') \<and>
       reaches P (iosock_manager P (pty_stdio P)) p0' w1' p' w' \<longrightarrow>
       streams_polled P K (pty_stdio P) (channel_mgr p') w' \<and>
       (client_polled P K (channel_mgr p') w' \<longleftrightarrow> \<not> half_closed (channel_mgr p')))"
  using pipes_mgr.new_establishes [OF assms(1) _ assms(2), of m0] pipes_mgr.reaches_keeps [of P p0 w1 p w K]
    pty_mgr.new_establishes [OF assms(1) _ assms(2), of m0'] pty_mgr.reaches_keeps [of P p0' w1' p' w' K]
  by (auto simp: wakeups_inv)

theorem no_lost_wakeup_witness:
  "contents (out_buffer (channel_mgr sample_pollster2)) = [104, 105] \<and>
   streams_polled sim_platform sample_view (pipes_stdio sim_platform) (channel_mgr sample_pollster2) sample_world2 \<and>
   client_polled sim_platform sample_view (channel_mgr sample_pollster2) sample_world2 \<and>
   kernel_polls linux_events sample_view sample_world2 1 4"
proof -
  have "streams_polled sim_platform sample_view (pipes_stdio sim_platform) (channel_mgr sample_pollster2) sample_world2 \<and>
      (client_polled sim_platform sample_view (channel_mgr sample_pollster2) sample_world2 \<longleftrightarrow>
        \<not> half_closed (channel_mgr sample_pollster2))"
    using no_lost_wakeup [OF sample_creates sample_foreign] sample_startable sample_new sample_reaches by blast
  moreover have "contents (out_buffer (channel_mgr sample_pollster2)) = [104, 105]"
    by (simp add: sample_pollster2_def)
  moreover have "primary_output (channel_mgr sample_pollster2) = Some 1" "\<not> half_closed (channel_mgr sample_pollster2)"
    by (simp_all add: sample_pollster2_def primary_output_def half_closed_def sample_manager_defs)
  ultimately show ?thesis
    by (simp add: streams_polled_def Let_def)
qed

section \<open>Bounds\<close>







section \<open>The handlers\<close>

context child_stdio
begin

lemma handler_inv:
  assumes "kernel_laws P ep K" and "mgr_inv P K cinv (C P) m s w"
    and "h \<in> {on_readable P (C P), on_writable P (C P), on_hangup P (C P)}" and "h fd m s w = Some (r, m', s', w')"
  shows "mgr_inv P K cinv (C P) m' s' w'"
proof -
  consider "h = on_readable P (C P)" | "h = on_writable P (C P)" | "h = on_hangup P (C P)"
    using assms(3) by blast
  then show ?thesis
  proof cases
    case 1
    then show ?thesis using on_readable_inv [OF assms(1,2)] assms(4) by blast
  next
    case 2
    then show ?thesis using on_writable_inv [OF assms(1,2)] assms(4) by blast
  next
    case 3
    then show ?thesis using on_hangup_inv [OF assms(1,2)] assms(4) by blast
  qed
qed

lemma handlers_total:
  assumes "kernel_laws P ep K" and "mgr_inv P K cinv (C P) m s w" and "client_settled m s"
  shows "(on_readable P (C P) fd m s w = None \<longleftrightarrow> fd \<in> client_fds m \<and> \<not> client_socket_readable m) \<and>
    (on_writable P (C P) fd m s w = None \<longleftrightarrow> fd \<in> client_fds m \<and> \<not> client_socket_writable m) \<and>
    (\<exists>m' s' w'. on_hangup P (C P) fd m s w = Some (Ok (), m', s', w'))"
proof (intro conjI)
  note core = mgr_invD(1) [OF assms(2)]
  have client: "client_stream m fd = Some (the (client_socket m)) \<and> fd \<noteq> server_socket m" if "fd \<in> client_fds m"
    using that roles_distinctD(2) [OF mgr_coreD(4) [OF core]] by (auto simp: client_fds_def client_stream_def)
  show "on_readable P (C P) fd m s w = None \<longleftrightarrow> fd \<in> client_fds m \<and> \<not> client_socket_readable m"
  proof
    assume "fd \<in> client_fds m \<and> \<not> client_socket_readable m"
    then show "on_readable P (C P) fd m s w = None"
      using client by (simp add: on_readable_def read_client_def)
  next
    assume none: "on_readable P (C P) fd m s w = None"
    show "fd \<in> client_fds m \<and> \<not> client_socket_readable m"
    proof (rule ccontr)
      assume "\<not> ?thesis"
      then show False using on_readable_total [OF assms(1) core assms(3), of fd] none by fastforce
    qed
  qed
  show "on_writable P (C P) fd m s w = None \<longleftrightarrow> fd \<in> client_fds m \<and> \<not> client_socket_writable m"
  proof
    assume "fd \<in> client_fds m \<and> \<not> client_socket_writable m"
    then show "on_writable P (C P) fd m s w = None"
      using client by (simp add: on_writable_def write_client_def)
  next
    assume none: "on_writable P (C P) fd m s w = None"
    show "fd \<in> client_fds m \<and> \<not> client_socket_writable m"
    proof (rule ccontr)
      assume "\<not> ?thesis"
      then show False using on_writable_total [OF assms(1) core assms(3), of fd] none by fastforce
    qed
  qed
  show "\<exists>m' s' w'. on_hangup P (C P) fd m s w = Some (Ok (), m', s', w')"
    by (rule on_hangup_total [OF core assms(3)])
qed

end

text \<open>C10. The invariant of the manager (distinct descriptors, exactly the descriptors in a role
  registered and open, the kernel's interest list as last applied, every needed wakeup requested)
  is preserved by \<^verbatim>\<open>on_readable\<close>, \<^verbatim>\<open>on_writable\<close> and \<^verbatim>\<open>on_hangup\<close> for every descriptor, also when they
  return an error, with pipes and with a pty.\<close>

theorem handlers_keep_invariant:
  assumes "kernel_laws P ep K"
  shows "(mgr_inv P K pipes_inv (pipes_stdio P) m s w \<and>
      h \<in> {on_readable P (pipes_stdio P), on_writable P (pipes_stdio P), on_hangup P (pipes_stdio P)} \<and>
      h fd m s w = Some (r, m', s', w') \<longrightarrow> mgr_inv P K pipes_inv (pipes_stdio P) m' s' w') \<and>
    (mgr_inv P K (\<lambda>_. True) (pty_stdio P) n t w \<and>
      g \<in> {on_readable P (pty_stdio P), on_writable P (pty_stdio P), on_hangup P (pty_stdio P)} \<and>
      g fd n t w = Some (r, n', t', w') \<longrightarrow> mgr_inv P K (\<lambda>_. True) (pty_stdio P) n' t' w')"
  by (intro conjI impI; elim conjE) (erule (2) pipes.handler_inv [OF assms] ptys.handler_inv [OF assms])+

theorem handlers_keep_invariant_witness:
  "on_hangup sim_platform (pipes_stdio sim_platform) 1 sample_manager sample_fd_set sample_world1 =
     Some (Ok (), sample_manager\<lparr>console := None\<rparr>,
       sample_fd_set\<lparr>existing := butlast (existing sample_fd_set), removed := [1]\<rparr>, sample_world1) \<and>
   mgr_inv sim_platform sample_view pipes_inv (pipes_stdio sim_platform) (sample_manager\<lparr>console := None\<rparr>)
     (sample_fd_set\<lparr>existing := butlast (existing sample_fd_set), removed := [1]\<rparr>) sample_world1"
proof -
  have run: "on_hangup sim_platform (pipes_stdio sim_platform) 1 sample_manager sample_fd_set sample_world1 =
     Some (Ok (), sample_manager\<lparr>console := None\<rparr>,
       sample_fd_set\<lparr>existing := butlast (existing sample_fd_set), removed := [1]\<rparr>, sample_world1)"
    by (simp add: on_hangup_def client_stream_def hangup_other_def sample_manager_defs pipes_stdio_def unregister_def
        sample_fd_set_def remove_at_def)
  show ?thesis
    using run sample_inv handlers_keep_invariant [OF sample_laws, of sample_manager sample_fd_set sample_world1
        "on_hangup sim_platform (pipes_stdio sim_platform)" 1]
    by blast
qed

text \<open>C11. When the handlers return. In a state of the invariant where epoll knows the client (as at the
  start of every batch of events), \<^verbatim>\<open>on_hangup\<close> never panics and returns no error, \<^verbatim>\<open>on_readable\<close> panics exactly when it
  is called for a client that is not readable, and \<^verbatim>\<open>on_writable\<close> panics exactly when it is
  called for a client that is not writable.\<close>

theorem handlers_return:
  assumes "kernel_laws P ep K"
  shows "(mgr_inv P K pipes_inv (pipes_stdio P) m s w \<and> client_settled m s \<longrightarrow>
      (on_readable P (pipes_stdio P) fd m s w = None \<longleftrightarrow> fd \<in> client_fds m \<and> \<not> client_socket_readable m) \<and>
      (on_writable P (pipes_stdio P) fd m s w = None \<longleftrightarrow> fd \<in> client_fds m \<and> \<not> client_socket_writable m) \<and>
      (\<exists>m' s' w'. on_hangup P (pipes_stdio P) fd m s w = Some (Ok (), m', s', w'))) \<and>
    (mgr_inv P K (\<lambda>_. True) (pty_stdio P) n t w \<and> client_settled n t \<longrightarrow>
      (on_readable P (pty_stdio P) fd n t w = None \<longleftrightarrow> fd \<in> client_fds n \<and> \<not> client_socket_readable n) \<and>
      (on_writable P (pty_stdio P) fd n t w = None \<longleftrightarrow> fd \<in> client_fds n \<and> \<not> client_socket_writable n) \<and>
      (\<exists>n' t' w'. on_hangup P (pty_stdio P) fd n t w = Some (Ok (), n', t', w')))"
  using pipes.handlers_total [OF assms, of m s w fd] ptys.handlers_total [OF assms, of n t w fd] by blast

theorem handlers_return_witness:
  "client_settled sample_manager sample_fd_set \<and>
   on_readable sim_platform (pipes_stdio sim_platform) 4 sample_manager sample_fd_set sample_world1 \<noteq> None"
proof -
  have "client_fds sample_manager = {}" by (simp add: client_fds_def sample_manager_defs)
  then show ?thesis
    using handlers_return [of sim_platform 8 sample_view sample_manager sample_fd_set sample_world1 4] sample_inv
    by (simp add: client_settled_def)
qed

text \<open>C5. Accepting a connection. An error of \<^verbatim>\<open>accept\<close> is returned and nothing changes. While a client is
  connected, a new connection is closed at once: no descriptor leaks and nothing changes. Otherwise
  the connection becomes the client, polled for reading, and for writing exactly when output is
  buffered; the console is no longer polled for writing, and no other request changes.\<close>

theorem accept_behaviour:
  assumes laws: "kernel_laws P ep K" and inv: "mgr_inv P K cinv C m s w"
    and a: "sys_accept P (server_socket m) w = (res, w1)"
  shows "case res of
      Err e \<Rightarrow> on_readable P C (server_socket m) m s w = Some (Err e, m, s, w1)
    | Ok c \<Rightarrow>
        (if client_socket m \<noteq> None
         then on_readable P C (server_socket m) m s w = Some (Ok (), m, s, sys_close P c w1) \<and>
           kv_opened K (sys_close P c w1) = kv_opened K w
         else \<exists>s'. on_readable P C (server_socket m) m s w =
             Some (Ok (), m\<lparr>client_socket := Some \<lparr>stream = c, availability = ReadWrite\<rparr>\<rparr>, s', w1) \<and>
           dom (requested s') = insert c (dom (requested s)) \<and>
           wants_read (plat_events P) (requested s') = (wants_read (plat_events P) (requested s))(c := True) \<and>
           wants_write (plat_events P) (requested s') = (\<lambda>fd. if fd = c then contents (out_buffer m) \<noteq> []
             else fd \<notin> set_option (console m) \<and> wants_write (plat_events P) (requested s) fd))"
proof (cases "client_socket m = None \<and> (\<exists>c. res = Ok c)")
  case False
  then show ?thesis
    using a mgr_core_refuse(1) [OF laws mgr_invD(1) [OF inv]]
    by (cases res) (auto simp: on_readable_def accept_client_def)
next
  case True
  then obtain c where c: "res = Ok c" "client_socket m = None" by blast
  from accept_client_total [OF laws mgr_invD(1) [OF inv]] obtain r m' s' w' where
    run: "accept_client P m s w = Some (r, m', s', w')" by blast
  have "r = Ok () \<and> m' = m\<lparr>client_socket := Some \<lparr>stream = c, availability = ReadWrite\<rparr>\<rparr> \<and> w' = w1 \<and>
      dom (requested s') = insert c (dom (requested s)) \<and>
      wants_read (plat_events P) (requested s') = (wants_read (plat_events P) (requested s))(c := True) \<and>
      wants_write (plat_events P) (requested s') = (\<lambda>fd. if fd = c then contents (out_buffer m) \<noteq> []
        else fd \<notin> set_option (console m) \<and> wants_write (plat_events P) (requested s) fd)"
    by (rule accept_client_fresh [OF laws inv a [unfolded c(1)] c(2) run])
  then show ?thesis using run c by (simp add: on_readable_def)
qed

theorem accept_behaviour_witness:
  "\<exists>s'. on_readable sim_platform (pipes_stdio sim_platform) 6 sample_manager sample_fd_set sample_world1 =
      Some (Ok (), sample_manager\<lparr>client_socket := Some \<lparr>stream = 9, availability = ReadWrite\<rparr>\<rparr>, s',
        sample_world1\<lparr>sim_open := 9 # sim_open sample_world1, sim_next := []\<rparr>) \<and>
    wants_read linux_events (requested s') 9 \<and> \<not> wants_write linux_events (requested s') 9"
proof -
  have "sys_accept sim_platform (server_socket sample_manager) sample_world1 =
      (Ok 9, sample_world1\<lparr>sim_open := 9 # sim_open sample_world1, sim_next := []\<rparr>)"
    by (simp add: sample_world1_def)
  from accept_behaviour [OF sample_laws sample_inv this] show ?thesis
    by (auto simp: sample_manager_defs)
qed

text \<open>Bytes stay in order. A readable event only appends to the input; to the output it appends as
  well, unless there is no output channel or the child has no stdin, where the newest output may be
  cut off. A writable event only removes bytes from the front of a buffer, and a hangup moves none.\<close>

theorem bytes_stay_in_order:
  assumes "platform_laws P opened" and "buf_inv (in_buffer m)" "buf_inv (out_buffer m)"
    and "buf_inv (in_buffer n)" "buf_inv (out_buffer n)"
  shows "(on_readable P (pipes_stdio P) fd m s w = Some (r, m', s', w') \<longrightarrow> bytes_in (pipes_stdio P) m m') \<and>
    (on_writable P (pipes_stdio P) fd m s w = Some (r, m', s', w') \<longrightarrow> bytes_out m m') \<and>
    (on_hangup P (pipes_stdio P) fd m s w = Some (r, m', s', w') \<longrightarrow>
       in_buffer m' = in_buffer m \<and> out_buffer m' = out_buffer m) \<and>
    (on_readable P (pty_stdio P) fd n s w = Some (r, n', s', w') \<longrightarrow> bytes_in (pty_stdio P) n n') \<and>
    (on_writable P (pty_stdio P) fd n s w = Some (r, n', s', w') \<longrightarrow> bytes_out n n') \<and>
    (on_hangup P (pty_stdio P) fd n s w = Some (r, n', s', w') \<longrightarrow>
       in_buffer n' = in_buffer n \<and> out_buffer n' = out_buffer n)"
  by (intro conjI impI)
    (erule pipes.on_readable_bytes [OF assms(1-3)] pipes.on_writable_bytes [OF assms(1-3)]
      ptys.on_readable_bytes [OF assms(1,4,5)] ptys.on_writable_bytes [OF assms(1,4,5)]
      on_hangup_buffers [THEN conjunct1] on_hangup_buffers [THEN conjunct2])+

theorem bytes_stay_in_order_witness:
  "\<exists>s' w'. on_readable sim_platform (pipes_stdio sim_platform) 4 sample_manager sample_fd_set sample_world1 =
      Some (Ok (), sample_manager\<lparr>out_buffer := sample_buffer\<rparr>, s', w') \<and>
    bytes_in (pipes_stdio sim_platform) sample_manager (sample_manager\<lparr>out_buffer := sample_buffer\<rparr>)"
proof -
  have "\<exists>s' w'. on_readable sim_platform (pipes_stdio sim_platform) 4 sample_manager sample_fd_set sample_world1 =
      Some (Ok (), sample_manager\<lparr>out_buffer := sample_buffer\<rparr>, s', w')"
    by (simp add: on_readable_def client_stream_def read_child_def sample_defs pipes_ops sample_read Let_def
        request_primary_output_writable_def registry_ops)
  moreover have "platform_laws sim_platform (kv_opened sample_view)"
    by (rule kernel_lawsD(1) [OF sample_laws])
  ultimately show ?thesis
    using bytes_stay_in_order [of sim_platform "kv_opened sample_view" sample_manager "manager_new (child_pty_new 3) 6" 4]
    by (auto simp: sample_manager_defs)
qed

end
