(* ===== verification/Program_Properties.thy ===== *)
theory Program_Properties
  imports Process_Invariant Pty_Properties Loop_Properties
begin

text \<open>
  Properties of the program as a whole: its arguments, its start-up, its exit status, and the event loop's
  guarantees from the command line on, under every interleaving of its two threads.
\<close>

section \<open>Arguments\<close>

lemma parse_args_iff:
  "parse_args args = Some (use_pty, path, cl) \<longleftrightarrow> cl \<noteq> [] \<and>
     (\<exists>prog. if use_pty then \<exists>flag \<in> {''-p'', ''--pty''}. args = prog # flag # path # cl
              else path \<notin> {''-p'', ''--pty''} \<and> args = prog # path # cl)"
proof (cases args)
  case (Cons prog rest)
  note args = Cons
  show ?thesis
  proof (cases rest)
    case (Cons a as)
    then show ?thesis using args by (cases as) (auto simp: parse_args_def)
  qed (use args in \<open>simp add: parse_args_def\<close>)
qed (simp add: parse_args_def)

text \<open>C25. The command line is accepted exactly when, after the program's name, there are an optional \<^verbatim>\<open>-p\<close> or
  \<^verbatim>\<open>--pty\<close>, a path and a non-empty command (in that order; a path spelled like the flag is the flag).
  Otherwise the process prints the usage and exits with 255, and nothing else happens.\<close>

theorem arguments_accepted:
  "(parse_args args = Some (use_pty, path, cl) \<longleftrightarrow> cl \<noteq> [] \<and>
     (\<exists>prog. if use_pty then \<exists>flag \<in> {''-p'', ''--pty''}. args = prog # flag # path # cl
              else path \<notin> {''-p'', ''--pty''} \<and> args = prog # path # cl)) \<and>
   (parse_args args = None \<longrightarrow> main_start S L args w =
      (Exits 255, eprintln S (Text ''Usage: iosock [-p|--pty] SOCKET_PATH PROGRAM ARGS...'') w))"
  by (intro conjI impI parse_args_iff) (simp add: main_start_def usage_def exits_by_def die_def)

section \<open>Start-up\<close>

definition reports_failure :: "'w process_api \<Rightarrow> 'a flow \<times> 'w \<Rightarrow> bool" where
  "reports_failure S x \<longleftrightarrow> (case x of (Exits c, w') \<Rightarrow> c = 255 \<and> (\<exists>msg v. w' = eprintln S msg v) | (Running _, _) \<Rightarrow> True)"

lemma reports_failure_simps [simp]:
  "reports_failure S (Running a, w)" "reports_failure S (exits_by (die S msg w))"
  "reports_failure S (ok_or_die S text rw)" "reports_failure S (some_or_die S text opt w)"
  by (auto simp: reports_failure_def exits_by_def die_def ok_or_die_def some_or_die_def Let_def
      split: prod.splits io_result.splits option.splits)

lemma reports_failure_bind:
  "reports_failure S x \<Longrightarrow> (\<And>a w. reports_failure S (k a w)) \<Longrightarrow> reports_failure S (flow_bind x k)"
  by (cases x; cases "fst x") (auto simp: flow_bind_def reports_failure_def)

text \<open>C24. Every failure of the start-up (arguments, socket, notification pipe, pty, child process, a missing
  stdio pipe) ends the process with status 255, and the last thing it did was to print a message.\<close>

theorem start_failures_exit_255:
  assumes "main_start S L args w = (Exits c, w')"
  shows "c = 255 \<and> (\<exists>msg v. w' = eprintln S msg v)"
proof -
  have "reports_failure S (main_start S L args w)"
    unfolding main_start_def run_stdio_pipes_def run_stdio_pty_def Let_def usage_def
    by (auto intro!: reports_failure_bind simp: case_prod_unfold split: option.split)
  then show ?thesis using assms by (simp add: reports_failure_def)
qed

text \<open>What the start-up needs of the calls: new descriptors are fresh, and a child started with pipes has
  all three of them.\<close>

definition startup_laws :: "'w process_api \<Rightarrow> 'w libc \<Rightarrow> 'w tty_view \<Rightarrow> 'w kernel_view \<Rightarrow> bool" where
  "startup_laws S L V K \<longleftrightarrow> fd_table_laws L V \<and> terminal_laws L V \<and> spawn_laws (spawn_command S) V \<and>
     (\<forall>w. kv_opened K w = dom (tv_fds V w)) \<and>
     (\<forall>path w fd w'. unix_bind S path w = (Ok fd, w') \<longrightarrow> fd \<notin> kv_opened K w \<and> kv_opened K w' = insert fd (kv_opened K w)) \<and>
     (\<forall>w a b w'. os_pipe S w = (Ok (a, b), w') \<longrightarrow>
        a \<noteq> b \<and> {a, b} \<inter> kv_opened K w = {} \<and> kv_opened K w' = {a, b} \<union> kv_opened K w) \<and>
     (\<forall>c w ch w'. cmd_stdin c = Piped \<and> cmd_stdout c = Piped \<and> cmd_stderr c = Piped \<and>
          spawn_command S c w = (Ok ch, w') \<longrightarrow>
        (\<exists>i out err. child_stdin ch = Some i \<and> child_stdout ch = Some out \<and> child_stderr ch = Some err \<and>
           distinct [i, out, err] \<and> {i, out, err} \<inter> kv_opened K w = {} \<and>
           kv_opened K w' = {i, out, err} \<union> kv_opened K w))"

lemma startup_lawsD:
  assumes "startup_laws S L V K"
  shows "fd_table_laws L V" "terminal_laws L V" "spawn_laws (spawn_command S) V" "kv_opened K w = dom (tv_fds V w)"
    "unix_bind S path w = (Ok fd, w') \<Longrightarrow> fd \<notin> kv_opened K w \<and> kv_opened K w' = insert fd (kv_opened K w)"
    "os_pipe S w = (Ok (a, b), w') \<Longrightarrow> a \<noteq> b \<and> {a, b} \<inter> kv_opened K w = {} \<and> kv_opened K w' = {a, b} \<union> kv_opened K w"
    "spawn_command S c w = (Ok ch, w') \<Longrightarrow> cmd_stdin c = Piped \<and> cmd_stdout c = Piped \<and> cmd_stderr c = Piped \<Longrightarrow>
       \<exists>i out err. child_stdin ch = Some i \<and> child_stdout ch = Some out \<and> child_stderr ch = Some err \<and>
           distinct [i, out, err] \<and> {i, out, err} \<inter> kv_opened K w = {} \<and>
           kv_opened K w' = {i, out, err} \<union> kv_opened K w"
  using assms unfolding startup_laws_def by (blast+)

lemma flow_bind_Running:
  assumes "flow_bind x k = (Running b, w')"
  obtains a w where "x = (Running a, w)" "k a w = (Running b, w')"
  using assms by (auto simp: flow_bind_def split: prod.splits flow.splits)

lemma or_die_Running:
  "ok_or_die S text rw = (Running a, w) \<longleftrightarrow> rw = (Ok a, w)"
  "some_or_die S text opt v = (Running a, w) \<longleftrightarrow> opt = Some a \<and> w = v"
  by (auto simp: ok_or_die_def some_or_die_def exits_by_def split: prod.splits io_result.splits option.splits)

text \<open>A manager fit for the worker, whichever kind it is.\<close>

definition fits :: "'w platform \<Rightarrow> 'w kernel_view \<Rightarrow> worker_manager \<Rightarrow> 'w \<Rightarrow> bool" where
  "fits P K wm w \<longleftrightarrow>
     (case wm of
        With_pipes m \<Rightarrow> mgr_startable K pipes_inv pipes_started (pipes_stdio P) m w
      | With_pty m \<Rightarrow> mgr_startable K (\<lambda>_. True) pty_started (pty_stdio P) m w)"

lemma run_stdio_pipes_fits:
  assumes laws: "startup_laws S L V K" and run: "run_stdio_pipes S c listener w = (Running (ch, wm), w')"
    and fds: "listener \<in> kv_opened K w" "1 \<in> kv_opened K w" "listener \<noteq> 1"
    and foreign: "dom (kv_foreign K) \<subseteq> kv_opened K w - {1, listener}"
  shows "fits P K wm w'"
proof -
  let ?c = "c\<lparr>cmd_stdin := Piped, cmd_stdout := Piped, cmd_stderr := Piped\<rparr>"
  from run obtain ch0 i out err where sp: "spawn_command S ?c w = (Ok ch0, w')"
    "child_stdin ch0 = Some i" "child_stdout ch0 = Some out" "child_stderr ch0 = Some err"
    and wm: "wm = With_pipes (manager_new (pipes_new i out err) listener)"
    unfolding run_stdio_pipes_def Let_def by (auto elim!: flow_bind_Running simp: or_die_Running)
  have "distinct [i, out, err] \<and> {i, out, err} \<inter> kv_opened K w = {} \<and> kv_opened K w' = {i, out, err} \<union> kv_opened K w"
    using startup_lawsD(7) [OF laws sp(1)] sp(2-4) by simp
  then show ?thesis
    using fds foreign
    by (auto simp: fits_def wm mgr_startable_def manager_new_def pipes_new_def stdout_raw_fd_def pipes_inv_def
        pipes_started_def roles_distinct_def role_defs child_fds_def pipes_stdio_def)
qed

lemma run_stdio_pty_fits:
  assumes laws: "startup_laws S L V K" and run: "run_stdio_pty S L c listener w = (Running (ch, wm), w')"
    and fds: "listener \<in> kv_opened K w" "1 \<in> kv_opened K w" "listener \<noteq> 1"
    and foreign: "dom (kv_foreign K) \<subseteq> kv_opened K w - {1, listener}"
  shows "fits P K wm w'"
proof -
  from run obtain pt w1 m where op: "pty_open L w = (Ok pt, w1)"
    and sp: "pty_spawn L (spawn_command S) pt c w1 = (Ok (ch, m), w')"
    and wm: "wm = With_pty (manager_new (child_pty_new m) listener)"
    unfolding run_stdio_pty_def by (auto elim!: flow_bind_Running simp: or_die_Running)
  have o: "tv_fds V w (master pt) = None" "\<exists>dev. tv_fds V w1 = (tv_fds V w)(master pt \<mapsto> dev)"
    using pty_open_result [OF startup_lawsD(1,2) [OF laws] op] by simp_all
  have s: "m = master pt" "tv_fds V w' = tv_fds V w1"
    using pty_spawn_result [OF startup_lawsD(1-3) [OF laws] sp] by simp_all
  have "m \<notin> kv_opened K w \<and> kv_opened K w' = insert m (kv_opened K w)"
    using o s startup_lawsD(4) [OF laws] by auto
  then show ?thesis
    using fds foreign
    by (auto simp: fits_def wm mgr_startable_def manager_new_def child_pty_new_def stdout_raw_fd_def
        pty_started_def roles_distinct_def role_defs child_fds_def pty_stdio_def pty_stderr_fd_def)
qed

lemma main_start_fits:
  assumes laws: "startup_laws S L V K" and std: "1 \<in> kv_opened K w"
    and run: "main_start S L args w = (Running l, w')" and foreign: "dom (kv_foreign K) = {closer_read l}"
  shows "fits P K (worker_mgr l) w'"
proof -
  from run obtain use_pty path cl where args: "parse_args args = Some (use_pty, path, cl)"
    by (auto simp: main_start_def usage_def exits_by_def split: option.splits)
  let ?c = "\<lparr>program = hd cl, prog_args = tl cl, cmd_stdin = Inherit, cmd_stdout = Inherit, cmd_stderr = Inherit,
    pre_exec = None\<rparr>"
  from run args obtain lis w1 rd wr w2 ch m where b: "unix_bind S path w = (Ok lis, w1)"
    and p: "os_pipe S w1 = (Ok (rd, wr), w2)"
    and r: "(if use_pty then run_stdio_pty S L ?c lis w2 else run_stdio_pipes S ?c lis w2) = (Running (ch, m), w')"
    and l: "closer_read l = rd" "worker_mgr l = m"
    by (auto simp: main_start_def Let_def or_die_Running elim!: flow_bind_Running)
  have fds: "lis \<in> kv_opened K w2" "1 \<in> kv_opened K w2" "lis \<noteq> 1" "dom (kv_foreign K) \<subseteq> kv_opened K w2 - {1, lis}"
    using startup_lawsD(5) [OF laws b] startup_lawsD(6) [OF laws p] std foreign l(1) by auto
  show ?thesis
    using r run_stdio_pty_fits [OF laws _ fds] run_stdio_pipes_fits [OF laws _ fds] l(2)
    by (auto split: if_splits)
qed

section \<open>A concrete process\<close>

text \<open>The calls of \<open>process_api\<close> on the world of the reference kernel, a libc without terminals and signal calls
  that always succeed. New descriptors come from \<open>sim_next\<close>; the child exits with status 3.\<close>

definition sim_alloc :: "nat \<Rightarrow> sim_world \<Rightarrow> RawFd list option" where
  "sim_alloc n w = (let fds = take n (sim_next w) in
     if length fds = n \<and> distinct fds \<and> set fds \<inter> set (sim_open w) = {} then Some fds else None)"

definition sim_take :: "RawFd list \<Rightarrow> sim_world \<Rightarrow> sim_world" where
  "sim_take fds w = w\<lparr>sim_open := fds @ sim_open w, sim_next := drop (length fds) (sim_next w)\<rparr>"

definition sim_spawn :: "sim_world Command \<Rightarrow> sim_world \<Rightarrow> Child io_result \<times> sim_world" where
  "sim_spawn c w =
     (if cmd_stdin c = Piped \<and> cmd_stdout c = Piped \<and> cmd_stderr c = Piped
      then (case sim_alloc 3 w of
              None \<Rightarrow> (Err sim_error, w)
            | Some fds \<Rightarrow> (Ok \<lparr>child_id = 42, child_stdin = Some (fds ! 0), child_stdout = Some (fds ! 1),
                child_stderr = Some (fds ! 2)\<rparr>, sim_take fds w))
      else (Ok \<lparr>child_id = 42, child_stdin = None, child_stdout = None, child_stderr = None\<rparr>, w))"

definition sim_process :: "sim_world process_api" where
  "sim_process =
     \<lparr>unix_bind = (\<lambda>path w. case sim_alloc 1 w of
          None \<Rightarrow> (Err sim_error, w) | Some fds \<Rightarrow> (Ok (fds ! 0), sim_take fds w)),
      os_pipe = (\<lambda>w. case sim_alloc 2 w of
          None \<Rightarrow> (Err sim_error, w) | Some fds \<Rightarrow> (Ok (fds ! 0, fds ! 1), sim_take fds w)),
      spawn_command = sim_spawn, wait_child = (\<lambda>ch w. (Ok (Some 3), w)), remove_path = (\<lambda>path w. (Ok (), w)),
      eprintln = (\<lambda>msg w. w)\<rparr>"

definition sim_libc :: "sim_world libc" where
  "sim_libc =
     \<lparr>O_RDWR = 2, O_NOCTTY = 0x100, TCSANOW = 0, ONLCR = 4, NCCS = 32,
      c_open = (\<lambda>path flags w. (-1, w)), c_posix_openpt = (\<lambda>flags w. (-1, w)),
      c_grantpt = (\<lambda>fd w. (-1, w)), c_unlockpt = (\<lambda>fd w. (-1, w)), c_ptsname = (\<lambda>fd w. (None, w)),
      c_strlen = (\<lambda>mem. length (takeWhile (\<lambda>b. b \<noteq> 0) mem)), c_dup2 = (\<lambda>src dest w. (-1, w)), c_ioctl_winsz = (\<lambda>fd ws w. (-1, w)),
      c_tcgetattr = (\<lambda>fd t w. ((-1, t), w)), c_tcsetattr = (\<lambda>fd act t w. (-1, w)), c_setsid = (\<lambda>w. (-1, w)),
      c_close = sys_close sim_platform, last_os_error = (\<lambda>w. sim_error)\<rparr>"

definition sim_tty_view :: "sim_world tty_view" where
  "sim_tty_view =
     \<lparr>tv_fds = (\<lambda>w fd. if fd \<in> set (sim_open w) then Some [] else None), tv_leader = (\<lambda>_. False), tv_ctty = (\<lambda>_. None),
      tv_winsize = (\<lambda>_ _. \<lparr>ws_row = 0, ws_col = 0, ws_xpixel = 0, ws_ypixel = 0\<rparr>),
      tv_termios = (\<lambda>_ _. zeroed_termios sim_libc), tv_is_tty = (\<lambda>_. False)\<rparr>"

definition with_sig :: "(signal_world \<Rightarrow> 'a \<times> signal_world) \<Rightarrow> sim_world \<Rightarrow> 'a \<times> sim_world" where
  "with_sig f w = (case f (sim_sig w) of (r, sw) \<Rightarrow> (r, w\<lparr>sim_sig := sw\<rparr>))"

definition sim_signals :: "(c_int set, sim_world) signal_api" where
  "sim_signals =
     \<lparr>SIGHUP = 1, SIGINT = 2, SIGTERM = 15, SIGALRM = 14, zeroed_sigset = {},
      c_sigaddset = (\<lambda>s n. with_sig (c_sigaddset sw_api s n)), c_sigaction = (\<lambda>n a. with_sig (c_sigaction sw_api n a)),
      c_kill = (\<lambda>pid n. with_sig (c_kill sw_api pid n)), c_alarm = (\<lambda>n. with_sig (c_alarm sw_api n)),
      sig_os_error = (\<lambda>w. sim_error)\<rparr>"

definition sim_sig_view :: "(c_int set, sim_world) signal_view" where
  "sim_sig_view = \<lparr>sv_members = id, sv_action = (\<lambda>w. sw_action (sim_sig w)), sv_alarm = (\<lambda>w. sw_alarm (sim_sig w))\<rparr>"

lemma sim_signal_laws: "signal_laws sim_signals sim_sig_view"
  unfolding signal_laws_def
  by (intro conjI allI) (auto simp: sim_signals_def sim_sig_view_def with_sig_def sw_api_def split: if_splits)

lemma sim_allocD:
  assumes "sim_alloc n w = Some fds"
  shows "length fds = n" "distinct fds" "set fds \<inter> set (sim_open w) = {}"
  using assms by (auto simp: sim_alloc_def Let_def split: if_splits)

lemma sim_alloc_fds:
  "sim_alloc 1 w = Some fds \<Longrightarrow> \<exists>a. fds = [a] \<and> a \<notin> set (sim_open w)"
  "sim_alloc 2 w = Some fds \<Longrightarrow> \<exists>a b. fds = [a, b] \<and> a \<noteq> b \<and> {a, b} \<inter> set (sim_open w) = {}"
  "sim_alloc 3 w = Some fds \<Longrightarrow> \<exists>a b c. fds = [a, b, c] \<and> distinct [a, b, c] \<and> {a, b, c} \<inter> set (sim_open w) = {}"
  by (frule sim_allocD(1), frule sim_allocD(2), drule sim_allocD(3), auto simp: length_Suc_conv eval_nat_numeral)+

lemma sim_bind:
  assumes "unix_bind sim_process path w = (Ok fd, w')"
  shows "fd \<notin> set (sim_open w) \<and> set (sim_open w') = insert fd (set (sim_open w))"
proof -
  obtain fds where fds: "sim_alloc 1 w = Some fds" "fd = fds ! 0" "w' = sim_take fds w"
    using assms by (auto simp: sim_process_def simp del: One_nat_def split: option.splits)
  then show ?thesis using sim_alloc_fds(1) [OF fds(1)] by (auto simp: sim_take_def)
qed

lemma sim_pipe:
  assumes "os_pipe sim_process w = (Ok (a, b), w')"
  shows "a \<noteq> b \<and> {a, b} \<inter> set (sim_open w) = {} \<and> set (sim_open w') = {a, b} \<union> set (sim_open w)"
proof -
  obtain fds where fds: "sim_alloc 2 w = Some fds" "a = fds ! 0" "b = fds ! 1" "w' = sim_take fds w"
    using assms by (simp add: sim_process_def split: option.splits)
  then show ?thesis using sim_alloc_fds(2) [OF fds(1)] by (auto simp: sim_take_def)
qed

lemma sim_spawns:
  assumes "cmd_stdin c = Piped" "cmd_stdout c = Piped" "cmd_stderr c = Piped" "spawn_command sim_process c w = (Ok ch, w')"
  shows "\<exists>i out err. child_stdin ch = Some i \<and> child_stdout ch = Some out \<and> child_stderr ch = Some err \<and>
      distinct [i, out, err] \<and> {i, out, err} \<inter> set (sim_open w) = {} \<and>
      set (sim_open w') = {i, out, err} \<union> set (sim_open w)"
proof -
  obtain fds where fds: "sim_alloc 3 w = Some fds" "child_stdin ch = Some (fds ! 0)" "child_stdout ch = Some (fds ! 1)"
      "child_stderr ch = Some (fds ! 2)" "w' = sim_take fds w"
    using assms by (auto simp: sim_process_def sim_spawn_def split: option.splits)
  then show ?thesis using sim_alloc_fds(3) [OF fds(1)] by (auto simp: sim_take_def)
qed

lemma sim_startup_laws: "startup_laws sim_process sim_libc sim_tty_view (sim_view F)"
  unfolding startup_laws_def
proof (intro conjI allI impI; (elim conjE)?)
  show "fd_table_laws sim_libc sim_tty_view"
    unfolding fd_table_laws_def by (intro conjI allI) (auto simp: sim_libc_def sim_tty_view_def)
  show "terminal_laws sim_libc sim_tty_view"
    unfolding terminal_laws_def by (intro conjI allI) (auto simp: sim_libc_def sim_tty_view_def)
  show "spawn_laws (spawn_command sim_process) sim_tty_view"
    by (simp add: spawn_laws_def sim_process_def sim_spawn_def)
  show "kv_opened (sim_view F) w = dom (tv_fds sim_tty_view w)" for w
    by (auto simp: sim_tty_view_def split: if_splits)
  show "fd \<notin> kv_opened (sim_view F) w" "kv_opened (sim_view F) w' = insert fd (kv_opened (sim_view F) w)"
    if "unix_bind sim_process path w = (Ok fd, w')" for path w fd w'
    using sim_bind [OF that] by simp_all
  show "a \<noteq> b" "{a, b} \<inter> kv_opened (sim_view F) w = {}" "kv_opened (sim_view F) w' = {a, b} \<union> kv_opened (sim_view F) w"
    if "os_pipe sim_process w = (Ok (a, b), w')" for w a b w'
    using sim_pipe [OF that] by simp_all
  show "\<exists>i out err. child_stdin ch = Some i \<and> child_stdout ch = Some out \<and> child_stderr ch = Some err \<and>
      distinct [i, out, err] \<and> {i, out, err} \<inter> kv_opened (sim_view F) w = {} \<and>
      kv_opened (sim_view F) w' = {i, out, err} \<union> kv_opened (sim_view F) w"
    if "cmd_stdin c = Piped" "cmd_stdout c = Piped" "cmd_stderr c = Piped" "spawn_command sim_process c w = (Ok ch, w')"
    for c w ch w'
    using sim_spawns [OF that] by simp
qed

lemma sim_quiet_calls: "quiet_calls sim_process sim_platform sim_signals (sim_view F)"
  by (simp add: quiet_calls_def same_kernel_def sim_process_def sim_signals_def with_sig_def sw_api_def)

lemma sim_creates_epoll: "creates_epoll sim_platform (sim_view F) w"
  by (auto simp: creates_epoll_def split: list.splits)

text \<open>The descriptors of \<open>Sample_Run\<close> come out of a start from the command line.\<close>

definition boot_world :: sim_world where
  "boot_world = sample_world\<lparr>sim_open := [0, 1, 2], sim_next := [6, 7, 10, 3, 4, 5, 8, 9]\<rparr>"

definition started_world :: sim_world where
  "started_world = sample_world\<lparr>sim_open := [3, 4, 5, 7, 10, 6, 0, 1, 2], sim_next := [8, 9]\<rparr>"

definition sample_launched :: "'m \<Rightarrow> 'm launched" where
  "sample_launched m = \<lparr>sock_path = ''sock'',
     the_child = \<lparr>child_id = 42, child_stdin = None, child_stdout = None, child_stderr = None\<rparr>,
     closer_read = 7, closer_write = 10, worker_mgr = m\<rparr>"

lemma sample_start:
  "main_start sim_process sim_libc [''iosock'', ''sock'', ''cat''] boot_world =
     (Running (sample_launched (With_pipes sample_manager)), started_world)"
  by (simp add: main_start_def parse_args_def ok_or_die_def some_or_die_def flow_bind_def run_stdio_pipes_def
      sim_process_def sim_alloc_def sim_take_def sim_spawn_def boot_world_def started_world_def sample_launched_def
      sample_manager_def sample_world_def Let_def)

theorem arguments_accepted_witness:
  "main_start sim_process sim_libc [''iosock'', ''--pty'', ''sock''] boot_world =
     (Exits 255, eprintln sim_process (Text ''Usage: iosock [-p|--pty] SOCKET_PATH PROGRAM ARGS...'') boot_world)"
proof -
  have "parse_args [''iosock'', ''--pty'', ''sock''] = None" by (simp add: parse_args_def)
  then show ?thesis by (rule arguments_accepted [THEN conjunct2, rule_format])
qed

theorem start_failures_exit_255_witness:
  "fst (main_start sim_process sim_libc [''iosock'', ''-p'', ''sock'', ''cat''] boot_world) = Exits 255"
proof -
  have "\<exists>c w'. main_start sim_process sim_libc [''iosock'', ''-p'', ''sock'', ''cat''] boot_world = (Exits c, w')"
    by (simp add: main_start_def parse_args_def ok_or_die_def flow_bind_def run_stdio_pty_def exits_by_def
        sim_process_def sim_alloc_def sim_take_def boot_world_def sample_world_def Let_def pty_open_def
        safe_openpt_def cvt_fd_def sim_libc_def)
  then show ?thesis using start_failures_exit_255 by (metis fst_conv)
qed

text \<open>C17. When the start-up succeeds, on a process whose standard output is open, the manager given to the worker
  is fit for the event loop: its descriptors are open, different from each other, from the console
  and from the notification pipe, it has all channels of the child, and its buffers are empty.\<close>

theorem start_gives_startable_manager:
  assumes "startup_laws S L V K" and "1 \<in> kv_opened K w" and "main_start S L args w = (Running l, w')"
    and "dom (kv_foreign K) = {closer_read l}"
  shows "case worker_mgr l of
      With_pipes m \<Rightarrow> mgr_startable K pipes_inv pipes_started (pipes_stdio P) m w'
    | With_pty m \<Rightarrow> mgr_startable K (\<lambda>_. True) pty_started (pty_stdio P) m w'"
  using main_start_fits [OF assms, of P] by (simp add: fits_def)

theorem start_gives_startable_manager_witness:
  "mgr_startable sample_view pipes_inv pipes_started (pipes_stdio sim_platform) sample_manager started_world"
  using start_gives_startable_manager [OF sim_startup_laws _ sample_start, of "[7 \<mapsto> \<lparr>events = 1, event_data = 7\<rparr>]"]
  by (simp add: sample_view_def sample_launched_def boot_world_def)

section \<open>The event loop inside the program\<close>

definition launched_with :: "'k launched \<Rightarrow> 'm \<Rightarrow> 'm launched" where
  "launched_with l m = \<lparr>sock_path = sock_path l, the_child = the_child l, closer_read = closer_read l,
     closer_write = closer_write l, worker_mgr = m\<rparr>"

lemma launched_with_simps [simp]:
  "closer_read (launched_with l m) = closer_read l" "worker_mgr (launched_with l m) = m"
  by (simp_all add: launched_with_def)

text \<open>C2. No lost wakeup from the command line on. Start the program with any arguments; let its two threads run
  and interleave in any way, with signals arriving at any time; whenever the worker is between two iterations of its loop, every
  stream that bytes wait for is polled for writing, the listening socket and the child's open output streams are
  polled for reading, and the client is polled for reading exactly when it may deliver bytes, except
  for a client marked read-only, which is readable and is not polled. With pipes and with a pty.\<close>

theorem program_loses_no_wakeup:
  assumes "startup_laws S L V K" and "quiet_calls S P A K" and "\<And>w. creates_epoll P K w" and "1 \<in> kv_opened K w0"
    and "main_start S L args w0 = (Running l, w1)"
    and "kv_foreign K = [closer_read l \<mapsto> event_new (EPOLLIN (plat_events P)) (fd_data (closer_read l))]"
  shows "case worker_mgr l of
      With_pipes m \<Rightarrow> \<forall>p q.
        process_reaches S P A D (iosock_manager P (pipes_stdio P)) (launched_with l m) aborts
          (launch (launched_with l m) w1) p \<and> p_worker p = Polling q \<longrightarrow>
        streams_polled P K (pipes_stdio P) (channel_mgr q) (p_world p) \<and>
        (client_polled P K (channel_mgr q) (p_world p) \<longleftrightarrow> \<not> half_closed (channel_mgr q))
    | With_pty m \<Rightarrow> \<forall>p q.
        process_reaches S P A D (iosock_manager P (pty_stdio P)) (launched_with l m) aborts
          (launch (launched_with l m) w1) p \<and> p_worker p = Polling q \<longrightarrow>
        streams_polled P K (pty_stdio P) (channel_mgr q) (p_world p) \<and>
        (client_polled P K (channel_mgr q) (p_world p) \<longleftrightarrow> \<not> half_closed (channel_mgr q))"
proof (cases "worker_mgr l")
  case (With_pipes m)
  have start: "mgr_startable K pipes_inv pipes_started (pipes_stdio P) m w1"
    using main_start_fits [OF assms(1,4,5), of P] assms(6) With_pipes by (simp add: fits_def)
  show ?thesis
    unfolding With_pipes
    using pipes_mgr.process_keeps [where l = "launched_with l m", OF _ assms(2,3)] assms(6) start
    by (fastforce simp: worker_ok_def wakeups_inv)
next
  case (With_pty m)
  have start: "mgr_startable K (\<lambda>_. True) pty_started (pty_stdio P) m w1"
    using main_start_fits [OF assms(1,4,5), of P] assms(6) With_pty by (simp add: fits_def)
  show ?thesis
    unfolding With_pty
    using pty_mgr.process_keeps [where l = "launched_with l m", OF _ assms(2,3)] assms(6) start
    by (fastforce simp: worker_ok_def wakeups_inv)
qed

lemma worker_goes:
  assumes "worker_step S P cm (closer_read l) wk w = Some (wk', w')" and "\<not> process_ended pc" and "wk' \<noteq> Panicked"
  shows "process_step S P A V cm l aborts Worker_thread \<lparr>p_main = pc, p_worker = wk, p_statics = st, p_world = w\<rparr>
    \<lparr>p_main = pc, p_worker = wk', p_statics = st, p_world = w'\<rparr>"
  using process_step.worker_moves [of "\<lparr>p_main = pc, p_worker = wk, p_statics = st, p_world = w\<rparr>" S P cm l wk' w'] assms
  by simp

lemma main_goes:
  assumes "main_step S P A l wk pc st w = Some (pc', st', w')"
  shows "process_step S P A V cm l aborts Main_thread \<lparr>p_main = pc, p_worker = wk, p_statics = st, p_world = w\<rparr>
    \<lparr>p_main = pc', p_worker = wk, p_statics = st', p_world = w'\<rparr>"
  using process_step.main_moves [of S P A l "\<lparr>p_main = pc, p_worker = wk, p_statics = st, p_world = w\<rparr>"] assms by simp

definition polling_world :: sim_world where
  "polling_world = started_world\<lparr>sim_open := [8, 3, 4, 5, 7, 10, 6, 0, 1, 2], sim_interest := sample_interest, sim_next := [9]\<rparr>"

lemma started_polling:
  "process_reaches sim_process sim_platform sim_signals sim_sig_view (iosock_manager sim_platform (pipes_stdio sim_platform))
     (sample_launched sample_manager) aborts (launch (sample_launched sample_manager) started_world)
     \<lparr>p_main = Binding, p_worker = Polling sample_pollster, p_statics = initial_statics, p_world = polling_world\<rparr>"
proof -
  have "pollster_new sim_platform (iosock_manager sim_platform (pipes_stdio sim_platform)) sample_manager 7 started_world =
      Some (Ok sample_pollster, polling_world)"
    by (simp add: manager_ops registry_ops loop_ops sample_defs Let_def POLLSTER_MAX_FDS_def started_world_def
        polling_world_def)
  then have "worker_step sim_process sim_platform (iosock_manager sim_platform (pipes_stdio sim_platform)) 7
      (Starting sample_manager) started_world = Some (Polling sample_pollster, polling_world)"
    by (simp add: worker_step_def)
  then show ?thesis
    unfolding launch_def
    by (intro process_reaches.step [OF process_reaches.start worker_goes])
      (simp_all add: process_ended_def sample_launched_def)
qed

theorem program_loses_no_wakeup_witness:
  "streams_polled sim_platform sample_view (pipes_stdio sim_platform) sample_manager polling_world \<and>
   (client_polled sim_platform sample_view sample_manager polling_world \<longleftrightarrow> \<not> half_closed sample_manager)"
proof -
  have "launched_with (sample_launched (With_pipes sample_manager)) sample_manager = sample_launched sample_manager"
    by (simp add: launched_with_def sample_launched_def)
  moreover have "kv_foreign sample_view = [closer_read (sample_launched (With_pipes sample_manager)) \<mapsto>
      event_new (EPOLLIN (plat_events sim_platform)) (fd_data (closer_read (sample_launched (With_pipes sample_manager))))]"
    by (simp add: sample_foreign sample_launched_def)
  moreover have "1 \<in> kv_opened sample_view boot_world" by (simp add: sample_view_def boot_world_def)
  ultimately show ?thesis
    using program_loses_no_wakeup [OF sim_startup_laws sim_quiet_calls sim_creates_epoll _ sample_start,
        of "[7 \<mapsto> \<lparr>events = 1, event_data = 7\<rparr>]" sim_sig_view False] started_polling [of False]
    by (fastforce simp: sample_launched_def sample_view_def sample_pollster_def)
qed

section \<open>The exit status\<close>

text \<open>That \<^verbatim>\<open>main\<close> has passed \<^verbatim>\<open>wait\<close> with a result, and that it has removed the socket.\<close>

definition has_waited ::
  "'w process_api \<Rightarrow> 'm launched \<Rightarrow> (('m, 'w) process \<Rightarrow> bool) \<Rightarrow> int option io_result \<Rightarrow> bool" where
  "has_waited S l reached r \<longleftrightarrow> (\<exists>q w. reached q \<and> p_main q = Waiting \<and> wait_child S (the_child l) (p_world q) = (r, w))"

definition has_unlinked :: "'w process_api \<Rightarrow> 'm launched \<Rightarrow> (('m, 'w) process \<Rightarrow> bool) \<Rightarrow> bool" where
  "has_unlinked S l reached \<longleftrightarrow> (\<exists>q r w. reached q \<and> p_main q = Unlinking r \<and>
     remove_path S (sock_path l) (p_world q) = (Ok (), w))"

definition main_history ::
  "'w process_api \<Rightarrow> 'm launched \<Rightarrow> (('m, 'w) process \<Rightarrow> bool) \<Rightarrow> main_pc \<Rightarrow> 'm worker \<Rightarrow> bool" where
  "main_history S l reached pc wk \<longleftrightarrow>
     (case pc of
        Notifying r \<Rightarrow> has_waited S l reached r
      | Joining r \<Rightarrow> has_waited S l reached r
      | Unlinking r \<Rightarrow> has_waited S l reached r \<and> wk = Finished (Ok ())
      | Exited c \<Rightarrow> c = 255 \<or> (wk = Finished (Ok ()) \<and> has_unlinked S l reached \<and>
          (\<exists>code. has_waited S l reached (Ok code) \<and> c = exit_status code))
      | _ \<Rightarrow> True)"

lemma main_step_history:
  assumes run: "main_step S P A l wk pc st w = Some (pc', st', w')" and h: "main_history S l reached pc wk"
    and now: "reached q" "p_main q = pc" "p_world q = w"
  shows "main_history S l reached pc' wk"
proof (cases pc)
  case Binding
  then show ?thesis
    using run by (auto simp: main_step_def main_history_def die_def Let_def split: prod.splits io_result.splits)
next
  case Waiting
  obtain r w1 where wt: "wait_child S (the_child l) w = (r, w1)" by fastforce
  have "has_waited S l reached r"
    unfolding has_waited_def using now Waiting wt by blast
  then show ?thesis
    using run Waiting wt by (auto simp: main_step_def main_history_def)
next
  case (Notifying r)
  then show ?thesis
    using run h by (auto simp: main_step_def main_history_def split: option.splits prod.splits io_result.splits)
next
  case (Joining r)
  then show ?thesis
    using run h by (auto simp: main_step_def main_history_def die_def Let_def split: worker.splits io_result.splits)
next
  case (Unlinking r)
  then have h: "has_waited S l reached r" "wk = Finished (Ok ())" using h by (simp_all add: main_history_def)
  obtain x w1 where rm: "remove_path S (sock_path l) w = (x, w1)" by fastforce
  have "has_unlinked S l reached" if "x = Ok ()"
    unfolding has_unlinked_def using now Unlinking rm that by blast
  then show ?thesis
    using run Unlinking rm h
    by (cases x; cases r) (auto simp: main_step_def main_history_def die_def Let_def)
qed (use run in \<open>simp_all add: main_step_def\<close>)

lemma worker_step_history:
  assumes "worker_step S P cm cfd wk w = Some (wk', w')" and "main_history S l reached pc wk"
    and "\<not> process_ended pc"
  shows "main_history S l reached pc wk'"
  using assms by (auto simp: main_history_def process_ended_def worker_step_def split: main_pc.splits)

lemma reaches_history:
  assumes "process_reaches S P A V cm l aborts (launch l w0) p"
  shows "main_history S l (process_reaches S P A V cm l aborts (launch l w0)) (p_main p) (p_worker p)"
  using assms
proof (induction rule: process_reaches.induct)
  case start
  then show ?case by (simp add: launch_def main_history_def)
next
  case (step p who p')
  from step.hyps(2) show ?case
  proof (cases rule: process_step.cases)
    case (main_moves pc st w)
    then show ?thesis using main_step_history [OF main_moves(3) step.IH step.hyps(1)] by simp
  next
    case (worker_moves wk w)
    then show ?thesis using worker_step_history [OF worker_moves(4) step.IH] by (auto simp: main_history_def)
  next
    case (signal_arrives n)
    with signal_effect_cases [of A V n p] step.IH show ?thesis by (elim disjE) (simp_all add: main_history_def)
  qed
qed

text \<open>C4. The exit status. When the process exits with a status other than 255, the worker ended without an error,
  \<^verbatim>\<open>wait\<close> returned the child's status and the process exits with it (254 when a signal ended the
  child), and the socket was removed. In particular a worker that failed or panicked, a failed
  wait and a socket that could not be removed all give 255.\<close>

theorem exit_status_is_the_childs:
  assumes "process_reaches S P A V cm l aborts (launch l w0) p" and "p_main p = Exited c" and "c \<noteq> 255"
  shows "p_worker p = Finished (Ok ()) \<and> has_unlinked S l (process_reaches S P A V cm l aborts (launch l w0)) \<and>
    (\<exists>code. has_waited S l (process_reaches S P A V cm l aborts (launch l w0)) (Ok code) \<and> c = exit_status code)"
  using reaches_history [OF assms(1)] assms(2,3) by (auto simp: main_history_def)

lemma process_reaches_trans:
  assumes "process_reaches S P A V cm l aborts p q" and "process_reaches S P A V cm l aborts q r"
  shows "process_reaches S P A V cm l aborts p r"
  using assms(2,1) by (induction rule: process_reaches.induct) (blast intro: process_reaches.step)+

lemma shutdown_run:
  assumes "p_main p = Waiting" and "p_worker p = Polling q"
    and "wait_child S (the_child l) (p_world p) = (Ok code, w1)"
    and "write_all (fd_writer P (closer_write l)) [1] w1 = Some (Ok (), w2)"
    and "epoll_wait P (poll_fd q) (-1) (poll_events q) w2 = ((Ok n, evs), w3)"
    and "close_reported (close_fd q) n evs"
    and "process_events P cm (close_fd q) (first_events n evs) False (channel_mgr q) (fd_set q) w3 = Some (Ok f, m', s', w4)"
    and "remove_path S (sock_path l) w4 = (Ok (), w5)"
  shows "process_reaches S P A V cm l aborts p
    \<lparr>p_main = Exited (exit_status code), p_worker = Finished (Ok ()), p_statics = p_statics p, p_world = w5\<rparr>"
proof -
  let ?st = "p_statics p"
  have f: "f = True"
    using process_events_final [OF assms(7)] first_events_reported [of n evs "close_fd q"] assms(6) by simp
  have p: "p = \<lparr>p_main = Waiting, p_worker = Polling q, p_statics = ?st, p_world = p_world p\<rparr>"
    using assms(1,2) by (cases p) simp
  have 1: "main_step S P A l (Polling q) Waiting ?st (p_world p) = Some (Notifying (Ok code), ?st, w1)"
    using assms(3) by (simp add: main_step_def)
  have 2: "main_step S P A l (Polling q) (Notifying (Ok code)) ?st w1 = Some (Joining (Ok code), ?st, w2)"
    using assms(4) by (simp add: main_step_def)
  have 3: "worker_step S P cm (closer_read l) (Polling q) w2 = Some (Finished (Ok ()), w4)"
    using assms(5,7) f by (simp add: worker_step_def run_iteration_def wait_result_def Let_def)
  have 4: "main_step S P A l (Finished (Ok ())) (Joining (Ok code)) ?st w4 = Some (Unlinking (Ok code), ?st, w4)"
    by (simp add: main_step_def)
  have 5: "main_step S P A l (Finished (Ok ())) (Unlinking (Ok code)) ?st w4 = Some (Exited (exit_status code), ?st, w5)"
    using assms(8) by (simp add: main_step_def)
  show ?thesis
    by (subst p, rule process_reaches.step [OF _ main_goes [OF 5]], rule process_reaches.step [OF _ main_goes [OF 4]],
        rule process_reaches.step [OF _ worker_goes [OF 3]], simp_all add: process_ended_def,
        rule process_reaches.step [OF _ main_goes [OF 2]], rule process_reaches.step [OF _ main_goes [OF 1]],
        rule process_reaches.start)
qed

text \<open>Before and after the handlers are installed.\<close>

definition started_notified :: sim_world where
  "started_notified = started_world\<lparr>sim_batches := [[\<lparr>events = 1, event_data = 7\<rparr>]]\<rparr>"

definition unbound_world :: sim_world where
  "unbound_world = polling_world\<lparr>sim_batches := [[\<lparr>events = 1, event_data = 7\<rparr>]]\<rparr>"

definition terminate_action :: "c_int set sigaction" where
  "terminate_action = \<lparr>sa_sigaction = Handler_terminate, sa_mask = {1, 2, 15}, sa_flags = 0\<rparr>"

definition notified_world :: sim_world where
  "notified_world = unbound_world\<lparr>sim_sig := (sim_sig unbound_world)\<lparr>
     sw_action := (\<lambda>_. default_action)(1 := terminate_action, 15 := terminate_action, 2 := terminate_action), sw_budget := 0\<rparr>\<rparr>"

definition waiting_process :: "(ChildPipes IOSockChannelManager, sim_world) process" where
  "waiting_process = \<lparr>p_main = Waiting, p_worker = Polling sample_pollster, p_statics = \<lparr>CHILD_PID = 42\<rparr>,
     p_world = notified_world\<rparr>"

lemma sim_write_all: "write_all (fd_writer sim_platform fd) [b] w =
    Some (Ok (), w\<lparr>sim_out := (sim_out w)(fd := sim_out w fd @ [b])\<rparr>)"
  by (subst write_all.simps) (simp add: fd_writer_def write_all.simps)

definition woken_world :: sim_world where
  "woken_world = notified_world\<lparr>sim_out := (sim_out notified_world)(10 := [1])\<rparr>"

definition woken_events :: "Event list" where
  "woken_events = \<lparr>events = 1, event_data = 7\<rparr> # replicate 4 \<lparr>events = 0, event_data = 0\<rparr>"

lemma sample_shutdown_steps:
  "p_main waiting_process = Waiting" "p_worker waiting_process = Polling sample_pollster"
  "wait_child sim_process (the_child (sample_launched sample_manager)) (p_world waiting_process) = (Ok (Some 3), notified_world)"
  "write_all (fd_writer sim_platform (closer_write (sample_launched sample_manager))) [1] notified_world =
     Some (Ok (), woken_world)"
  "epoll_wait sim_platform (poll_fd sample_pollster) (-1) (poll_events sample_pollster) woken_world =
     ((Ok 1, woken_events), woken_world\<lparr>sim_batches := []\<rparr>)"
  "close_reported (close_fd sample_pollster) 1 woken_events"
  "process_events sim_platform (iosock_manager sim_platform (pipes_stdio sim_platform)) (close_fd sample_pollster)
     (first_events 1 woken_events) False (channel_mgr sample_pollster) (fd_set sample_pollster)
     (woken_world\<lparr>sim_batches := []\<rparr>) =
     Some (Ok True, channel_mgr sample_pollster, fd_set sample_pollster, woken_world\<lparr>sim_batches := []\<rparr>)"
  "remove_path sim_process (sock_path (sample_launched sample_manager)) (woken_world\<lparr>sim_batches := []\<rparr>) =
     (Ok (), woken_world\<lparr>sim_batches := []\<rparr>)"
  by (simp_all add: waiting_process_def sim_process_def sim_write_all sample_launched_def woken_world_def woken_events_def
      notified_world_def unbound_world_def polling_world_def started_world_def sample_world_def sample_pollster_def close_reported_def
      data_fd_def first_events_def Let_def)

text \<open>C39. The end of a run in which all goes well: \<^verbatim>\<open>wait\<close> returns, the notification is written, the next wait of the
  worker reports it, the handlers of that batch succeed and the socket is removed. The process exits
  with the child's status.\<close>

theorem shutdown_status:
  assumes "p_main p = Waiting" and "p_worker p = Polling q"
    and "wait_child S (the_child l) (p_world p) = (Ok code, w1)"
    and "write_all (fd_writer P (closer_write l)) [1] w1 = Some (Ok (), w2)"
    and "epoll_wait P (poll_fd q) (-1) (poll_events q) w2 = ((Ok n, evs), w3)"
    and "close_reported (close_fd q) n evs"
    and "process_events P cm (close_fd q) (first_events n evs) False (channel_mgr q) (fd_set q) w3 = Some (Ok f, m', s', w4)"
    and "remove_path S (sock_path l) w4 = (Ok (), w5)"
  shows "process_reaches S P A V cm l aborts p
    \<lparr>p_main = Exited (exit_status code), p_worker = Finished (Ok ()), p_statics = p_statics p, p_world = w5\<rparr>"
  by (rule shutdown_run [OF assms])

theorem shutdown_status_witness:
  "process_reaches sim_process sim_platform sim_signals sim_sig_view (iosock_manager sim_platform (pipes_stdio sim_platform))
     (sample_launched sample_manager) True waiting_process
     \<lparr>p_main = Exited 3, p_worker = Finished (Ok ()), p_statics = \<lparr>CHILD_PID = 42\<rparr>, p_world = woken_world\<lparr>sim_batches := []\<rparr>\<rparr>"
  using shutdown_status [OF sample_shutdown_steps] by (simp add: waiting_process_def exit_status_def)

lemma sample_boot:
  "process_reaches sim_process sim_platform sim_signals sim_sig_view (iosock_manager sim_platform (pipes_stdio sim_platform))
     (sample_launched sample_manager) aborts
     (launch (sample_launched sample_manager) started_notified)
     waiting_process"
proof -
  have "pollster_new sim_platform (iosock_manager sim_platform (pipes_stdio sim_platform)) sample_manager 7 started_notified =
      Some (Ok sample_pollster, unbound_world)"
    by (simp add: manager_ops registry_ops loop_ops sample_defs Let_def POLLSTER_MAX_FDS_def started_world_def
        polling_world_def started_notified_def unbound_world_def)
  then have 1: "worker_step sim_process sim_platform (iosock_manager sim_platform (pipes_stdio sim_platform))
      (closer_read (sample_launched sample_manager)) (Starting sample_manager) started_notified = Some (Polling sample_pollster, unbound_world)"
    by (simp add: worker_step_def sample_launched_def)
  have 2: "main_step sim_process sim_platform sim_signals (sample_launched sample_manager) (Polling sample_pollster) Binding
      initial_statics unbound_world = Some (Waiting, \<lparr>CHILD_PID = 42\<rparr>, notified_world)"
    by (simp add: main_step_def kill_child_on_signal_def safe_sigaddset_def safe_sigaction_def sim_signals_def with_sig_def
        sw_api_def notified_world_def unbound_world_def polling_world_def started_world_def sample_world_def fresh_signals_def
        terminate_action_def zeroed_action_def insert_commute initial_statics_def sample_launched_def Let_def)
  show ?thesis
    unfolding waiting_process_def launch_def
    by (intro process_reaches.step [OF process_reaches.step [OF process_reaches.start worker_goes] main_goes [OF 2]])
      (use 1 in \<open>simp_all add: process_ended_def sample_launched_def\<close>)
qed

theorem exit_status_is_the_childs_witness:
  "\<exists>code. has_waited sim_process (sample_launched sample_manager)
     (process_reaches sim_process sim_platform sim_signals sim_sig_view (iosock_manager sim_platform (pipes_stdio sim_platform))
       (sample_launched sample_manager) True
       (launch (sample_launched sample_manager) started_notified))
     (Ok code) \<and> 3 = exit_status code"
proof -
  have "process_reaches sim_process sim_platform sim_signals sim_sig_view (iosock_manager sim_platform (pipes_stdio sim_platform))
      (sample_launched sample_manager) True
      (launch (sample_launched sample_manager) started_notified)
      \<lparr>p_main = Exited 3, p_worker = Finished (Ok ()), p_statics = \<lparr>CHILD_PID = 42\<rparr>,
        p_world = woken_world\<lparr>sim_batches := []\<rparr>\<rparr>"
    using process_reaches_trans [OF sample_boot shutdown_run [OF sample_shutdown_steps]]
    by (simp add: waiting_process_def exit_status_def)
  from exit_status_is_the_childs [OF this] show ?thesis by simp
qed

text \<open>The worker's closure, run step by step, is the closure: it returns a result (and leaves a world) exactly
  when its steps from the fresh manager end in that result and world, and it panics exactly when
  they end in a panic.\<close>

theorem worker_steps_are_worker_job:
  "(pipes_worker S P cfd m w = Some (Some (r, w')) \<longleftrightarrow>
      worker_moves_to S P (iosock_manager P (pipes_stdio P)) cfd (Starting m, w) (Finished r, w')) \<and>
   (pipes_worker S P cfd m w = Some None \<longleftrightarrow>
      (\<exists>w'. worker_moves_to S P (iosock_manager P (pipes_stdio P)) cfd (Starting m, w) (Panicked, w'))) \<and>
   (pty_worker S P cfd n w = Some (Some (r, w')) \<longleftrightarrow>
      worker_moves_to S P (iosock_manager P (pty_stdio P)) cfd (Starting n, w) (Finished r, w')) \<and>
   (pty_worker S P cfd n w = Some None \<longleftrightarrow>
      (\<exists>w'. worker_moves_to S P (iosock_manager P (pty_stdio P)) cfd (Starting n, w) (Panicked, w')))"
  unfolding pipes_worker_def pty_worker_def by (intro conjI worker_job_steps)

end
