(* ===== verification/World_Frame.thy ===== *)
theory World_Frame
  imports Manager_Loop
begin

text \<open>
  What the event loop leaves alone: a property of the world that every call of the platform preserves is preserved by
  the copies, by the handlers of the manager, on any branch, and so by the whole worker. Nothing else is needed of
  the platform here, in particular none of its laws.
\<close>

section \<open>Calls and copies\<close>

definition platform_keeps :: "('w \<Rightarrow> bool) \<Rightarrow> 'w platform \<Rightarrow> bool" where
  "platform_keeps Q P \<longleftrightarrow> (\<forall>w. Q w \<longrightarrow>
     (\<forall>fd s. Q (snd (sys_read P fd s w))) \<and> (\<forall>fd s. Q (snd (sys_write P fd s w))) \<and>
     (\<forall>fd. Q (snd (sys_flush P fd w))) \<and> (\<forall>fd. Q (snd (sys_accept P fd w))) \<and> (\<forall>fd. Q (sys_close P fd w)) \<and>
     (\<forall>flag. Q (snd (epoll_create P flag w))) \<and> (\<forall>ep op fd ev. Q (snd (epoll_ctl P ep op fd ev w))) \<and>
     (\<forall>ep t evs. Q (snd (epoll_wait P ep t evs w))))"

definition reader_keeps :: "('w \<Rightarrow> bool) \<Rightarrow> 'w Read \<Rightarrow> bool" where
  "reader_keeps Q rd \<longleftrightarrow> (\<forall>s w. Q w \<longrightarrow> Q (snd (rd s w)))"

definition writer_keeps :: "('w \<Rightarrow> bool) \<Rightarrow> 'w Write \<Rightarrow> bool" where
  "writer_keeps Q W \<longleftrightarrow> (\<forall>s w. Q w \<longrightarrow> Q (snd (write_fn W s w)) \<and> Q (snd (flush_fn W w)))"

lemma platform_keepsD:
  assumes "platform_keeps Q P" and "Q w"
  shows "sys_accept P fd w = (a, w') \<Longrightarrow> Q w'" "Q (sys_close P fd w)" "epoll_create P flag w = (e, w') \<Longrightarrow> Q w'"
    "Q (snd (epoll_ctl P ep op fd ev w))" "epoll_wait P ep t evs w = (n, w') \<Longrightarrow> Q w'"
    "epoll_ctl P ep op fd ev w = (u, w') \<Longrightarrow> Q w'"
  using assms unfolding platform_keeps_def by (metis snd_conv)+

lemma platform_streams_keep:
  assumes "platform_keeps Q P"
  shows "reader_keeps Q (sys_read P fd)" "writer_keeps Q (fd_writer P fd)" "reader_keeps Q (pty_read P fd)"
    "writer_keeps Q (pty_writer P fd)"
  using assms
  by (simp_all add: platform_keeps_def reader_keeps_def writer_keeps_def fd_writer_def pty_read_def pty_writer_def
      case_prod_unfold)

lemma channel_to_buffer_frame:
  assumes "reader_keeps Q rd" and "channel_to_buffer rd b w = Some (res, b', w')" and "Q w"
  shows "Q w'"
proof -
  have rd: "rd s v = ((r, s'), v') \<Longrightarrow> Q v \<Longrightarrow> Q v'" for s v r s' v'
    using assms(1) unfolding reader_keeps_def by (metis snd_conv)
  show ?thesis
    using assms(2,3)
    by (auto simp: channel_to_buffer_def read_or_drain_def read_from_def Let_def dest: rd
        split: bind_splits prod.splits io_result.splits CopyResult.splits if_splits)
qed

lemma buffer_to_channel_frame:
  assumes "writer_keeps Q W" and "buffer_to_channel b W w = Some (res, b', w')" and "Q w"
  shows "Q w'"
proof -
  have W: "write_fn W s v = (r, v') \<Longrightarrow> Q v \<Longrightarrow> Q v'" "flush_fn W v = (x, v') \<Longrightarrow> Q v \<Longrightarrow> Q v'" for s v r v' x
    using assms(1) unfolding writer_keeps_def by (metis snd_conv)+
  show ?thesis
    using assms(2,3)
    by (auto simp: buffer_to_channel_def write_to_def Let_def dest: W
        split: bind_splits prod.splits io_result.splits if_splits)
qed

section \<open>Handlers\<close>

definition stdio_keeps :: "('w \<Rightarrow> bool) \<Rightarrow> ('c, 'w) ChildStdio \<Rightarrow> bool" where
  "stdio_keeps Q C \<longleftrightarrow>
     (\<forall>copy \<in> {write_stdin C, read_stdout C, read_stderr C}. \<forall>c b w res b' w'.
        copy c b w = Some (res, b', w') \<longrightarrow> Q w \<longrightarrow> Q w') \<and>
     (\<forall>fd c s w c' s' w'. cs_hangup C fd c s w = Some (c', s', w') \<longrightarrow> Q w \<longrightarrow> Q w')"

lemma pipes_stdio_frame: "platform_keeps Q P \<Longrightarrow> stdio_keeps Q (pipes_stdio P)"
  unfolding stdio_keeps_def pipes_ops pipes_hangup_def
  by (auto dest: channel_to_buffer_frame [OF platform_streams_keep(1)] buffer_to_channel_frame [OF platform_streams_keep(2)]
      intro: platform_keepsD(2) split: option.splits if_splits bind_splits)

lemma pty_stdio_frame: "platform_keeps Q P \<Longrightarrow> stdio_keeps Q (pty_stdio P)"
  unfolding stdio_keeps_def pty_ops pty_hangup_def
  by (auto dest: channel_to_buffer_frame [OF platform_streams_keep(3)] buffer_to_channel_frame [OF platform_streams_keep(4)]
      intro: platform_keepsD(2) split: option.splits if_splits bind_splits)

lemma on_hangup_frame:
  assumes P: "platform_keeps Q P" and C: "stdio_keeps Q C" and run: "on_hangup P C fd m s w = Some (r, m', s', w')"
    and Q: "Q w"
  shows "Q w'"
proof -
  have C: "cs_hangup C fd c s w = Some (c', s', w') \<Longrightarrow> Q w'" for c s c' s' w'
    using C Q unfolding stdio_keeps_def by blast
  show ?thesis
    using run Q
    by (auto simp: on_hangup_def hangup_client_def hangup_other_def Let_def platform_keepsD(2) [OF P] dest: C
        split: option.splits if_splits bind_splits)
qed

lemma on_readable_frame:
  assumes P: "platform_keeps Q P" and C: "stdio_keeps Q C" and run: "on_readable P C fd m s w = Some (r, m', s', w')"
    and Q: "Q w"
  shows "Q w'"
proof -
  note hangup = on_hangup_frame [OF P C]
  consider "accept_client P m s w = Some (r, m', s', w')"
    | c where "read_client P C fd c m s w = Some (r, m', s', w')"
    | copy where "copy \<in> {read_stdout C, read_stderr C}" "read_child P C copy fd m s w = Some (r, m', s', w')"
    | "w' = w"
    using run by (auto simp: on_readable_def split: if_splits option.splits)
  then show ?thesis
  proof cases
    case 1
    then show ?thesis
      using platform_keepsD(1,2) [OF P] Q
      by (auto simp: accept_client_def Let_def split: prod.splits io_result.splits if_splits option.splits bind_splits)
  next
    case (2 c)
    then obtain res b v where v: "channel_to_buffer (sys_read P (stream c)) (in_buffer m) w = Some (res, b, v)"
      by (auto simp: read_client_def split: if_splits bind_splits)
    have "Q v" by (rule channel_to_buffer_frame [OF platform_streams_keep(1) [OF P] v Q])
    then show ?thesis
      using 2 v hangup
      by (auto simp: read_client_def Let_def split: io_result.splits if_splits option.splits bind_splits)
  next
    case (3 copy)
    then obtain res b v where v: "copy (child m) (out_buffer m) w = Some (res, b, v)"
      by (auto simp: read_child_def split: bind_splits)
    have "Q v" using C 3(1) v Q unfolding stdio_keeps_def by blast
    then show ?thesis
      using 3(2) v hangup
      by (auto simp: read_child_def Let_def split: io_result.splits if_splits bind_splits)
  qed (use Q in simp)
qed

lemma on_writable_frame:
  assumes P: "platform_keeps Q P" and C: "stdio_keeps Q C" and run: "on_writable P C fd m s w = Some (r, m', s', w')"
    and Q: "Q w"
  shows "Q w'"
proof -
  note hangup = on_hangup_frame [OF P C] and out = buffer_to_channel_frame [OF platform_streams_keep(2) [OF P] _ Q]
  consider c where "write_client P C fd c m s w = Some (r, m', s', w')"
    | "write_console P C fd m s w = Some (r, m', s', w')"
    | "write_child P C fd m s w = Some (r, m', s', w')"
    | "w' = w"
    using run by (auto simp: on_writable_def split: if_splits option.splits)
  then show ?thesis
  proof cases
    case (1 c)
    then obtain res b v where v: "buffer_to_channel (out_buffer m) (fd_writer P (stream c)) w = Some (res, b, v)"
      by (auto simp: write_client_def split: if_splits bind_splits)
    then have "Q v" by (rule out)
    then show ?thesis
      using 1 v hangup by (auto simp: write_client_def Let_def split: io_result.splits if_splits bind_splits)
  next
    case 2
    then obtain res b v where v: "buffer_to_channel (out_buffer m) (fd_writer P fd) w = Some (res, b, v)"
      by (auto simp: write_console_def split: bind_splits)
    then have "Q v" by (rule out)
    then show ?thesis
      using 2 v hangup by (auto simp: write_console_def Let_def split: io_result.splits if_splits bind_splits)
  next
    case 3
    then obtain res b v where v: "write_stdin C (child m) (in_buffer m) w = Some (res, b, v)"
      by (auto simp: write_child_def split: bind_splits)
    have "Q v" using C v Q unfolding stdio_keeps_def by blast
    then show ?thesis
      using 3 v hangup by (auto simp: write_child_def Let_def split: io_result.splits if_splits bind_splits)
  qed (use Q in simp)
qed

lemma manager_frame:
  assumes "platform_keeps Q P" and "stdio_keeps Q C"
  shows "handlers_preserve (iosock_manager P C) (\<lambda>m s w. Q w)"
  unfolding handlers_preserve_def handler_preserves_def iosock_manager_def
  using on_readable_frame [OF assms] on_writable_frame [OF assms] on_hangup_frame [OF assms] by simp

section \<open>The loop\<close>

lemma apply_poll_updates_frame:
  assumes "platform_keeps Q P" and "apply_poll_updates P p w = (r, p', w')" and "Q w"
  shows "Q w'"
  using apply_poll_updates_preserves [where Q = Q, OF platform_keepsD(4) [OF assms(1)] assms(2,3)] .

lemma run_iteration_frame:
  assumes P: "platform_keeps Q P" and cm: "handlers_preserve cm (\<lambda>m s w. Q w)"
    and run: "run_iteration P cm p w = Some (c, p', w')" and Q: "Q w"
  shows "Q w'"
proof -
  obtain res evs w1 where wt: "epoll_wait P (poll_fd p) (-1) (poll_events p) w = ((res, evs), w1)" by (metis surj_pair)
  have Q1: "Q w1" by (rule platform_keepsD(5) [OF P Q wt])
  show ?thesis
  proof (cases "wait_result res")
    case (Ok n)
    obtain r m s w2 where pe: "process_events P cm (close_fd p) (first_events n evs) False
        (channel_mgr p) (fd_set p) w1 = Some (r, m, s, w2)"
      using run wt Ok by (auto simp: run_iteration_def Let_def split: bind_splits)
    have Q2: "Q w2" by (rule process_events_preserves [OF cm Q1 pe])
    then show ?thesis
      using run wt Ok pe
      by (auto simp: run_iteration_def Let_def dest: apply_poll_updates_frame [OF P]
          split: io_result.splits bool.splits if_splits prod.splits)
  qed (use run wt Q1 in \<open>auto simp: run_iteration_def Let_def\<close>)
qed

lemma pollster_new_frame:
  assumes P: "platform_keeps Q P" and init: "\<And>m s w m' s' w'. cm_initialize cm m s w = Some (m', s', w') \<Longrightarrow> Q w \<Longrightarrow> Q w'"
    and run: "pollster_new P cm m cfd w = Some (r, w')" and Q: "Q w"
  shows "Q w'"
proof -
  note ctl = platform_keepsD(6) [OF P] and create = platform_keepsD(3) [OF P Q]
  obtain e v where e: "epoll_create P True w = (e, v)" by fastforce
  note v = create [OF e]
  show ?thesis
  proof (cases e)
    case (Ok fd)
    obtain u v1 where u: "epoll_ctl P fd EPOLL_CTL_ADD cfd (event_new (EPOLLIN (plat_events P)) (fd_data cfd)) v = (u, v1)"
      by fastforce
    note v1 = ctl [OF v u]
    show ?thesis
      using run e Ok u v1
      by (auto simp: pollster_new_def Let_def dest!: init dest: apply_poll_updates_frame [OF P]
          split: prod.splits io_result.splits bind_splits)
  qed (use run e v in \<open>simp add: pollster_new_def\<close>)
qed

lemma initialize_frame: "cm_initialize (iosock_manager P C) m s w = Some (m', s', w') \<Longrightarrow> Q w \<Longrightarrow> Q w'"
  by (auto simp: iosock_manager_def initialize_def split: bind_splits)

lemma write_all_frame:
  assumes W: "writer_keeps Q W" and run: "write_all W buf w = Some (r, w')" and Q: "Q w"
  shows "Q w'"
proof -
  let ?I = "\<lambda>X buf w (res :: unit io_result \<times> 'a). X = W \<longrightarrow> Q w \<longrightarrow> Q (snd res)"
  have "?I W buf w (r, w')"
  proof (rule write_all.raw_induct [where P = ?I, OF _ run])
    fix g X buf w res
    assume IH: "\<And>X buf w res. g X buf w = Some res \<Longrightarrow> ?I X buf w res"
      and eq: "(if buf = [] then Some (Ok (), w)
         else case write_fn X buf w of
             (Ok n, w') \<Rightarrow> if n = 0 then Some (Err (error_of_kind WriteZero), w') else g X (drop n buf) w'
           | (Err e, w') \<Rightarrow> if kind e = Interrupted then g X buf w' else Some (Err e, w')) = Some res"
    obtain x w1 where x: "write_fn X buf w = (x, w1)" by fastforce
    have "Q w \<Longrightarrow> X = W \<Longrightarrow> Q w1" using W x unfolding writer_keeps_def by (metis snd_conv)
    then show "?I X buf w res"
      using eq x by (auto split: if_splits io_result.splits dest: IH)
  qed
  then show ?thesis using Q by simp
qed

end
