(* ===== verification/Shutdown.thy ===== *)
theory Shutdown
  imports Program_Properties World_Frame
begin

text \<open>
  Signals and the end of the process: what a signal does at each stage of \<^verbatim>\<open>main\<close>, and that a process whose child has
  ended and whose worker was notified ends after at most three more steps of its threads.
\<close>

section \<open>Signals\<close>

text \<open>No call but \<^verbatim>\<open>sigaction\<close> changes what a signal does.\<close>

definition dispositions_kept :: "'w process_api \<Rightarrow> 'w platform \<Rightarrow> ('s, 'w) signal_api \<Rightarrow> ('s, 'w) signal_view \<Rightarrow> bool" where
  "dispositions_kept S P A V \<longleftrightarrow>
     (\<forall>f. platform_keeps (\<lambda>w. sv_action V w = f) P) \<and>
     (\<forall>msg w. sv_action V (eprintln S msg w) = sv_action V w) \<and>
     (\<forall>ch w. sv_action V (snd (wait_child S ch w)) = sv_action V w) \<and>
     (\<forall>path w. sv_action V (snd (remove_path S path w)) = sv_action V w) \<and>
     (\<forall>pid n w. sv_action V (snd (c_kill A pid n w)) = sv_action V w)"

lemma dispositions_keptD:
  assumes "dispositions_kept S P A V"
  shows "platform_keeps (\<lambda>w. sv_action V w = f) P" "sv_action V (eprintln S msg w) = sv_action V w"
    "wait_child S ch w = (c, w') \<Longrightarrow> sv_action V w' = sv_action V w"
    "remove_path S path w = (u, w') \<Longrightarrow> sv_action V w' = sv_action V w"
    "sv_action V (snd (c_kill A pid n w)) = sv_action V w"
  using assms unfolding dispositions_kept_def by (metis snd_conv)+

text \<open>The default action of every signal before the handlers are installed, and after that the handler for the three that
  it is installed for, with the child's id.\<close>

definition defaults :: "('s, 'w) signal_api \<Rightarrow> ('s, 'w) signal_view \<Rightarrow> 'w \<Rightarrow> bool" where
  "defaults A V w \<longleftrightarrow> (\<forall>n \<in> {SIGHUP A, SIGINT A, SIGTERM A, SIGALRM A}. sa_sigaction (sv_action V w n) = SIG_DFL)"

definition installed :: "('s, 'w) signal_api \<Rightarrow> ('s, 'w) signal_view \<Rightarrow> c_int \<Rightarrow> statics \<Rightarrow> 'w \<Rightarrow> bool" where
  "installed A V pid st w \<longleftrightarrow> CHILD_PID st = pid \<and>
     (\<forall>n \<in> {SIGHUP A, SIGINT A, SIGTERM A}. sa_sigaction (sv_action V w n) = Handler_terminate) \<and>
     sa_sigaction (sv_action V w (SIGALRM A)) = SIG_DFL"

definition signals_ok ::
  "('s, 'w) signal_api \<Rightarrow> ('s, 'w) signal_view \<Rightarrow> c_int \<Rightarrow> main_pc \<Rightarrow> statics \<Rightarrow> 'w \<Rightarrow> bool" where
  "signals_ok A V pid pc st w \<longleftrightarrow>
     process_ended pc \<or> (if pc = Binding then defaults A V w else installed A V pid st w)"

lemma signals_ok_world: "signals_ok A V pid pc st w \<Longrightarrow> sv_action V w' = sv_action V w \<Longrightarrow> signals_ok A V pid pc st w'"
  by (auto simp: signals_ok_def defaults_def installed_def split: if_splits)

lemma kill_child_on_signal_installed:
  assumes laws: "signal_laws A V" and run: "kill_child_on_signal A pid st w = (Ok (), st', w')" and "defaults A V w"
  shows "installed A V pid st' w'"
proof -
  have "SIGALRM A \<notin> {SIGHUP A, SIGTERM A, SIGINT A}" using laws by (auto simp: signal_laws_def)
  then show ?thesis
    using kill_child_on_signal_Ok [OF laws run] assms(3) by (auto simp: installed_def defaults_def)
qed

lemma main_step_signals:
  assumes laws: "signal_laws A V" and kept: "dispositions_kept S P A V"
    and run: "main_step S P A l wk pc st w = Some (pc', st', w')"
    and ok: "signals_ok A V (child_id (the_child l)) pc st w"
  shows "signals_ok A V (child_id (the_child l)) pc' st' w'"
proof (cases pc)
  case Binding
  obtain r st1 w1 where k: "kill_child_on_signal A (child_id (the_child l)) st w = (r, st1, w1)" by (metis surj_pair)
  show ?thesis
  proof (cases r)
    case (Ok u)
    have "defaults A V w" using ok Binding by (simp add: signals_ok_def process_ended_def)
    then show ?thesis
      using run Binding k Ok kill_child_on_signal_installed [OF laws, of "child_id (the_child l)" st w st1 w1]
      by (auto simp: main_step_def signals_ok_def)
  qed (use run Binding k in \<open>auto simp: main_step_def signals_ok_def process_ended_def die_def Let_def\<close>)
next
  case Waiting
  obtain r w1 where wt: "wait_child S (the_child l) w = (r, w1)" by fastforce
  then have "pc' = Notifying r" "st' = st" "w' = w1" using run Waiting by (simp_all add: main_step_def)
  then show ?thesis
    using signals_ok_world [OF ok dispositions_keptD(3) [OF kept wt]] Waiting by (simp add: signals_ok_def process_ended_def)
next
  case (Notifying r)
  obtain x w1 where wr: "write_all (fd_writer P (closer_write l)) [1] w = Some (x, w1)"
    using run Notifying by (auto simp: main_step_def split: option.splits)
  have "sv_action V w1 = sv_action V w"
    by (rule write_all_frame [OF platform_streams_keep(2) [OF dispositions_keptD(1) [OF kept]] wr refl])
  then have "sv_action V w' = sv_action V w" "pc' = Joining r" "st' = st"
    using run Notifying wr dispositions_keptD(2) [OF kept] by (auto simp: main_step_def split: io_result.splits)
  then show ?thesis
    using signals_ok_world [OF ok] Notifying by (simp add: signals_ok_def process_ended_def)
next
  case (Joining r)
  then show ?thesis
    using run ok
    by (auto simp: main_step_def signals_ok_def process_ended_def die_def Let_def split: worker.splits io_result.splits)
next
  case (Unlinking r)
  then show ?thesis
    using run
    by (auto simp: main_step_def signals_ok_def process_ended_def die_def Let_def split: prod.splits io_result.splits)
qed (use run in \<open>simp_all add: main_step_def\<close>)

lemma worker_step_signals:
  assumes kept: "dispositions_kept S P A V" and C: "\<And>f. stdio_keeps (\<lambda>w. sv_action V w = f) C"
    and run: "worker_step S P (iosock_manager P C) cfd wk w = Some (wk', w')"
  shows "sv_action V w' = sv_action V w"
proof (cases wk)
  case (Starting m)
  let ?Q = "\<lambda>v. sv_action V v = sv_action V w"
  have "sv_action V v = sv_action V w" if "pollster_new P (iosock_manager P C) m cfd w = Some (r, v)" for r v
    by (rule pollster_new_frame [where Q = ?Q, OF dispositions_keptD(1) [OF kept] _ that refl]) (rule initialize_frame)
  then show ?thesis
    using run Starting dispositions_keptD(2) [OF kept]
    by (auto simp: worker_step_def split: option.splits prod.splits io_result.splits)
next
  case (Polling p)
  let ?Q = "\<lambda>v. sv_action V v = sv_action V w"
  have "sv_action V v = sv_action V w" if "run_iteration P (iosock_manager P C) p w = Some (c, q, v)" for c q v
    by (rule run_iteration_frame [where Q = ?Q, OF dispositions_keptD(1) [OF kept] manager_frame
          [OF dispositions_keptD(1) [OF kept] C] that refl])
  then show ?thesis
    using run Polling dispositions_keptD(2) [OF kept]
    by (auto simp: worker_step_def split: option.splits prod.splits control.splits io_result.splits)
qed (use run in \<open>simp_all add: worker_step_def\<close>)

lemma reaches_signals_ok:
  assumes laws: "signal_laws A V" and kept: "dispositions_kept S P A V" and C: "\<And>f. stdio_keeps (\<lambda>w. sv_action V w = f) C"
    and init: "defaults A V w0" and reach: "process_reaches S P A V (iosock_manager P C) l aborts (launch l w0) p"
  shows "signals_ok A V (child_id (the_child l)) (p_main p) (p_statics p) (p_world p)"
  using reach
proof (induction rule: process_reaches.induct)
  case start
  then show ?case using init by (simp add: launch_def signals_ok_def)
next
  case (step p who p')
  from step.hyps(2) show ?case
  proof (cases rule: process_step.cases)
    case (main_moves pc st w)
    then show ?thesis using main_step_signals [OF laws kept main_moves(3) step.IH] by simp
  next
    case (worker_moves wk w)
    then show ?thesis
      using signals_ok_world [OF step.IH worker_step_signals [OF kept C worker_moves(4)]]
      by (auto simp: signals_ok_def process_ended_def)
  next
    case (signal_arrives n)
    with signal_effect_cases [of A V n p] show ?thesis
      by (elim disjE) (use signals_ok_world [OF step.IH dispositions_keptD(5) [OF kept]] in
          \<open>simp_all add: signals_ok_def process_ended_def\<close>)
  qed
qed

text \<open>What the three termination signals do in a state of the process.\<close>

definition forwards_signals ::
  "'w process_api \<Rightarrow> 'w platform \<Rightarrow> ('s, 'w) signal_api \<Rightarrow> ('s, 'w) signal_view \<Rightarrow> ('m, 'w) ChannelManager \<Rightarrow> 'm launched \<Rightarrow>
     bool \<Rightarrow> ('m, 'w) process \<Rightarrow> bool" where
  "forwards_signals S P A V cm l aborts p \<longleftrightarrow>
     (\<forall>n \<in> {SIGHUP A, SIGINT A, SIGTERM A}. \<forall>p'. process_step S P A V cm l aborts (Signal n) p p' \<longleftrightarrow>
        \<not> process_ended (p_main p) \<and>
        p' = (if p_main p = Binding then p\<lparr>p_main := Killed n\<rparr>
              else p\<lparr>p_world := snd (c_kill A (child_id (the_child l)) (SIGTERM A) (p_world p))\<rparr>))"

lemma signals_ok_forwards:
  assumes "signals_ok A V (child_id (the_child l)) (p_main p) (p_statics p) (p_world p)"
  shows "forwards_signals S P A V cm l aborts p"
proof -
  have effect: "signal_effect A V n p = (if p_main p = Binding then p\<lparr>p_main := Killed n\<rparr>
      else p\<lparr>p_world := snd (c_kill A (child_id (the_child l)) (SIGTERM A) (p_world p))\<rparr>)"
    if "n \<in> {SIGHUP A, SIGINT A, SIGTERM A}" "\<not> process_ended (p_main p)" for n
  proof (cases "p_main p = Binding")
    case True
    then have "sa_sigaction (sv_action V (p_world p) n) = SIG_DFL"
      using assms that by (auto simp: signals_ok_def defaults_def)
    then show ?thesis using True by (simp add: signal_effect_def deliver_def)
  next
    case False
    then have i: "installed A V (child_id (the_child l)) (p_statics p) (p_world p)"
      using assms that by (simp add: signals_ok_def)
    then have "sa_sigaction (sv_action V (p_world p) n) = Handler_terminate" using that(1) by (auto simp: installed_def)
    from signal_effect_resumes [of V p n A, OF this] show ?thesis using i False by (simp add: installed_def)
  qed
  show ?thesis
    unfolding forwards_signals_def
  proof (intro ballI allI)
    fix n p'
    assume n: "n \<in> {SIGHUP A, SIGINT A, SIGTERM A}"
    then have "process_step S P A V cm l aborts (Signal n) p p' \<longleftrightarrow> \<not> process_ended (p_main p) \<and> p' = signal_effect A V n p"
      unfolding signal_step_iff by blast
    then show "process_step S P A V cm l aborts (Signal n) p p' \<longleftrightarrow> \<not> process_ended (p_main p) \<and>
        p' = (if p_main p = Binding then p\<lparr>p_main := Killed n\<rparr>
              else p\<lparr>p_world := snd (c_kill A (child_id (the_child l)) (SIGTERM A) (p_world p))\<rparr>)"
      using effect [OF n] by (cases "process_ended (p_main p)") simp_all
  qed
qed

text \<open>C30. Signals. Start the program with default dispositions and let its threads and signals interleave in any way. In every
  reachable state SIGHUP, SIGINT and SIGTERM are handled by the dispositions that \<^verbatim>\<open>kill_child_on_signal\<close> left. Until it has
  returned (it is one step of \<^verbatim>\<open>main\<close> here) they end the process by their default action, and the child and the socket are left
  behind. From then on, until the process ends, they
  send SIGTERM to the process id of the child and do nothing else. That also holds after \<^verbatim>\<open>wait\<close> has returned, when
  that id no longer belongs to the child. With pipes and with a pty.\<close>

theorem signals_kill_the_child:
  assumes "signal_laws A V" and "dispositions_kept S P A V" and "defaults A V w0"
  shows "(process_reaches S P A V (iosock_manager P (pipes_stdio P)) l aborts (launch l w0) p \<longrightarrow>
       forwards_signals S P A V (iosock_manager P (pipes_stdio P)) l aborts p \<and>
       (\<forall>r. p_main p \<in> {Notifying r, Joining r, Unlinking r} \<longrightarrow>
          has_waited S l (process_reaches S P A V (iosock_manager P (pipes_stdio P)) l aborts (launch l w0)) r)) \<and>
    (process_reaches S P A V (iosock_manager P (pty_stdio P)) k aborts (launch k w0) q \<longrightarrow>
       forwards_signals S P A V (iosock_manager P (pty_stdio P)) k aborts q \<and>
       (\<forall>r. p_main q \<in> {Notifying r, Joining r, Unlinking r} \<longrightarrow>
          has_waited S k (process_reaches S P A V (iosock_manager P (pty_stdio P)) k aborts (launch k w0)) r))"
proof (intro conjI impI allI)
  note kept = dispositions_keptD(1) [OF assms(2)]
  show "forwards_signals S P A V (iosock_manager P (pipes_stdio P)) l aborts p"
    if "process_reaches S P A V (iosock_manager P (pipes_stdio P)) l aborts (launch l w0) p"
    by (rule signals_ok_forwards [OF reaches_signals_ok [OF assms(1,2) pipes_stdio_frame [OF kept] assms(3) that]])
  show "forwards_signals S P A V (iosock_manager P (pty_stdio P)) k aborts q"
    if "process_reaches S P A V (iosock_manager P (pty_stdio P)) k aborts (launch k w0) q"
    by (rule signals_ok_forwards [OF reaches_signals_ok [OF assms(1,2) pty_stdio_frame [OF kept] assms(3) that]])
qed (auto simp: main_history_def dest!: reaches_history)

definition notifying_process :: "(ChildPipes IOSockChannelManager, sim_world) process" where
  "notifying_process = waiting_process\<lparr>p_main := Notifying (Ok (Some 3)), p_world := notified_world\<rparr>"

lemma sample_waits:
  "process_reaches sim_process sim_platform sim_signals sim_sig_view (iosock_manager sim_platform (pipes_stdio sim_platform))
     (sample_launched sample_manager) True
     (launch (sample_launched sample_manager) started_notified)
     notifying_process"
proof (rule process_reaches.step [OF sample_boot])
  have "main_step sim_process sim_platform sim_signals (sample_launched sample_manager) (Polling sample_pollster) Waiting
      \<lparr>CHILD_PID = 42\<rparr> notified_world = Some (Notifying (Ok (Some 3)), \<lparr>CHILD_PID = 42\<rparr>, notified_world)"
    using sample_shutdown_steps(3) by (simp add: main_step_def waiting_process_def)
  from main_goes [OF this]
  show "process_step sim_process sim_platform sim_signals sim_sig_view (iosock_manager sim_platform (pipes_stdio sim_platform))
      (sample_launched sample_manager) True Main_thread waiting_process notifying_process"
    unfolding waiting_process_def notifying_process_def by simp
qed

lemma sim_dispositions_kept: "dispositions_kept sim_process sim_platform sim_signals sim_sig_view"
proof -
  have ctl: "sim_sig (snd (epoll_ctl sim_platform ep op fd ev w)) = sim_sig w" for ep op fd ev w
    by (cases op) simp_all
  have calls: "sim_sig (snd (sys_read sim_platform fd s w)) = sim_sig w" "sim_sig (snd (sys_write sim_platform fd s w)) = sim_sig w"
    "sim_sig (snd (sys_flush sim_platform fd w)) = sim_sig w" "sim_sig (sys_close sim_platform fd w) = sim_sig w"
    "sim_sig (snd (sys_accept sim_platform fd w)) = sim_sig w" "sim_sig (snd (epoll_create sim_platform flag w)) = sim_sig w"
    "sim_sig (snd (epoll_wait sim_platform ep t evs w)) = sim_sig w" for fd s w flag ep t evs
    by (simp_all add: Let_def split: list.split)
  have "platform_keeps (\<lambda>w. sw_action (sim_sig w) = f) sim_platform" for f
    unfolding platform_keeps_def by (intro allI impI conjI) (simp_all only: ctl calls)
  then show ?thesis
    by (simp add: dispositions_kept_def sim_process_def sim_signals_def sim_sig_view_def with_sig_def sw_api_def)
qed

lemma started_defaults: "defaults sim_signals sim_sig_view started_notified"
  by (simp add: defaults_def sim_sig_view_def started_notified_def started_world_def sample_world_def fresh_signals_def
      default_action_def)

theorem signals_kill_the_child_witness:
  "process_step sim_process sim_platform sim_signals sim_sig_view (iosock_manager sim_platform (pipes_stdio sim_platform))
     (sample_launched sample_manager) True (Signal 15) notifying_process
     (notifying_process\<lparr>p_world := notified_world\<lparr>sim_sig := (sim_sig notified_world)\<lparr>sw_sent := [(42, 15)]\<rparr>\<rparr>\<rparr>) \<and>
   has_waited sim_process (sample_launched sample_manager)
     (process_reaches sim_process sim_platform sim_signals sim_sig_view (iosock_manager sim_platform (pipes_stdio sim_platform))
       (sample_launched sample_manager) True
       (launch (sample_launched sample_manager) started_notified))
     (Ok (Some 3))"
proof -
  note 1 = signals_kill_the_child [OF sim_signal_laws sim_dispositions_kept started_defaults, THEN conjunct1, rule_format,
    OF sample_waits]
  have "sw_sent (sim_sig notified_world) = []"
    by (simp add: notified_world_def unbound_world_def polling_world_def started_world_def sample_world_def fresh_signals_def)
  then have "snd (c_kill sim_signals (child_id (the_child (sample_launched sample_manager))) (SIGTERM sim_signals) notified_world) =
      notified_world\<lparr>sim_sig := (sim_sig notified_world)\<lparr>sw_sent := [(42, 15)]\<rparr>\<rparr>"
    by (simp add: sim_signals_def with_sig_def sw_api_def sample_launched_def)
  moreover have "SIGTERM sim_signals = 15" by (simp add: sim_signals_def)
  ultimately show ?thesis
    using 1 by (simp add: forwards_signals_def notifying_process_def process_ended_def)
qed

section \<open>The end of the process\<close>

text \<open>The next wait of the worker reports the notification.\<close>

definition notified :: "'w platform \<Rightarrow> 'm Pollster \<Rightarrow> 'w \<Rightarrow> bool" where
  "notified P q w \<longleftrightarrow> (\<exists>n evs w'. epoll_wait P (poll_fd q) (-1) (poll_events q) w = ((Ok n, evs), w') \<and>
     close_reported (close_fd q) n evs)"

text \<open>How many steps of the threads are left at most.\<close>

definition steps_left :: "main_pc \<Rightarrow> 'm worker \<Rightarrow> nat" where
  "steps_left pc wk =
     (case pc of
        Joining r \<Rightarrow> (case wk of Finished _ \<Rightarrow> 2 | Panicked \<Rightarrow> 2 | _ \<Rightarrow> 3)
      | Unlinking r \<Rightarrow> 1
      | _ \<Rightarrow> 0)"

definition ending :: "'w platform \<Rightarrow> statics \<Rightarrow> 'm Pollster \<Rightarrow> ('m, 'w) process \<Rightarrow> bool" where
  "ending P st q p \<longleftrightarrow> p_statics p = st \<and>
     (case p_main p of
        Joining r \<Rightarrow> (case p_worker p of Polling q' \<Rightarrow> q' = q \<and> notified P q (p_world p) | Starting m \<Rightarrow> False | _ \<Rightarrow> True)
      | Unlinking r \<Rightarrow> (\<exists>x. p_worker p = Finished x)
      | Exited c \<Rightarrow> True
      | Aborted \<Rightarrow> True
      | Killed n \<Rightarrow> True
      | _ \<Rightarrow> False)"

lemma notified_worker_ends:
  assumes "notified P q w"
  obtains x w' where "worker_step S P cm cfd (Polling q) w = Some (Finished x, w')"
    | w' where "worker_step S P cm cfd (Polling q) w = Some (Panicked, w')"
proof -
  obtain n evs w1 where wt: "epoll_wait P (poll_fd q) (-1) (poll_events q) w = ((Ok n, evs), w1)"
    and rep: "close_reported (close_fd q) n evs" using assms by (auto simp: notified_def)
  show ?thesis
  proof (cases "process_events P cm (close_fd q) (first_events n evs) False (channel_mgr q) (fd_set q) w1")
    case None
    then have "worker_step S P cm cfd (Polling q) w = Some (Panicked, w)"
      using wt by (simp add: worker_step_def run_iteration_def wait_result_def Let_def)
    then show ?thesis by (rule that(2))
  next
    case (Some x)
    obtain r m s w2 where x: "x = (r, m, s, w2)" by (cases x)
    show ?thesis
    proof (cases r)
      case (Ok f)
      have f using process_events_final [OF Some [unfolded x Ok]] first_events_reported [of n evs "close_fd q"] rep by simp
      then have "worker_step S P cm cfd (Polling q) w = Some (Finished (Ok ()), w2)"
        using wt Some x Ok by (simp add: worker_step_def run_iteration_def wait_result_def Let_def)
      then show ?thesis by (rule that(1))
    next
      case (Err e)
      then have "worker_step S P cm cfd (Polling q) w =
          Some (Finished (Err e), eprintln S (Text_error ''IO thread died: '' e) w2)"
        using wt Some x by (simp add: worker_step_def run_iteration_def wait_result_def Let_def)
      then show ?thesis by (rule that(1))
    qed
  qed
qed

text \<open>A step of a thread comes closer to the end, a signal does not move away from it, and until the end some
  thread can take a step.\<close>

lemma ending_step:
  fixes p :: "('m, 'w) process"
  assumes "ending P st q p" and signal: "\<And>w. notified P q w \<Longrightarrow> notified P q (snd (c_kill A (CHILD_PID st) (SIGTERM A) w))"
    and step: "process_step S P A V cm l aborts who p p'"
  shows "ending P st q p' \<and>
    (if is_signal who then steps_left (p_main p') (p_worker p') \<le> steps_left (p_main p) (p_worker p)
     else steps_left (p_main p') (p_worker p') < steps_left (p_main p) (p_worker p))"
  using step
proof (cases rule: process_step.cases)
  case (main_moves pc st' w)
  then show ?thesis
    using assms(1)
    by (auto simp: main_step_def ending_def steps_left_def die_def Let_def
        split: main_pc.splits prod.splits io_result.splits worker.splits)
next
  case (worker_moves wk w)
  then obtain r where p: "p_main p = Joining r" "p_worker p = Polling q" "notified P q (p_world p)"
    using assms(1) by (auto simp: ending_def process_ended_def worker_step_def split: main_pc.splits worker.splits)
  show ?thesis
    by (rule notified_worker_ends [OF p(3), of S cm "closer_read l"])
      (use worker_moves p assms(1) in \<open>auto simp: ending_def steps_left_def\<close>)
next
  case (signal_arrives n)
  from signal_effect_cases [of A V n p] show ?thesis
    by (elim disjE) (use assms(1) signal_arrives(1,2) in
        \<open>auto simp: ending_def steps_left_def signal split: main_pc.splits worker.splits\<close>)
qed

lemma worker_can_step:
  assumes "\<not> process_ended (p_main p)" and "worker_step S P cm (closer_read l) (p_worker p) (p_world p) = Some x"
  shows "\<exists>who p'. \<not> is_signal who \<and> process_step S P A V cm l aborts who p p'"
proof -
  obtain wk w where "x = (wk, w)" by (cases x)
  from process_step.worker_moves [OF assms [unfolded this]] show ?thesis
    by (intro exI [of _ Worker_thread]) auto
qed

lemma main_can_step:
  assumes "main_step S P A l (p_worker p) (p_main p) (p_statics p) (p_world p) = Some x"
  shows "\<exists>who p'. \<not> is_signal who \<and> process_step S P A V cm l aborts who p p'"
proof -
  obtain pc st w where "x = (pc, st, w)" by (metis surj_pair)
  from process_step.main_moves [OF assms [unfolded this]] show ?thesis
    by (intro exI [of _ Main_thread]) auto
qed

lemma ending_progress:
  assumes "ending P st q p"
  shows "process_ended (p_main p) \<or> (\<exists>who p'. \<not> is_signal who \<and> process_step S P A V cm l aborts who p p')"
proof -
  note main = main_can_step [of S P A l p, where V = V, OF option.collapse [symmetric]]
  consider "process_ended (p_main p)"
    | r where "p_main p = Joining r" "p_worker p = Polling q"
    | r where "p_main p = Joining r" "p_worker p = Panicked \<or> (\<exists>x. p_worker p = Finished x)"
    | r where "p_main p = Unlinking r"
    using assms by (auto simp: ending_def process_ended_def split: main_pc.splits worker.splits)
  then show ?thesis
  proof cases
    case (2 r)
    then have "\<not> process_ended (p_main p)" by (simp add: process_ended_def)
    moreover have "worker_step S P cm (closer_read l) (p_worker p) (p_world p) \<noteq> None"
      using 2(2) by (simp add: worker_step_def)
    ultimately show ?thesis using worker_can_step [where V = V] by (metis option.exhaust)
  next
    case (3 r)
    then have "main_step S P A l (p_worker p) (p_main p) (p_statics p) (p_world p) \<noteq> None"
      by (auto simp: main_step_def Let_def split: prod.splits io_result.splits)
    then show ?thesis using main by blast
  next
    case (4 r)
    then have "main_step S P A l (p_worker p) (p_main p) (p_statics p) (p_world p) \<noteq> None"
      by (simp add: main_step_def Let_def split: prod.splits io_result.splits)
    then show ?thesis using main by blast
  qed blast
qed

lemma run_ends_soon:
  fixes p :: "('m, 'w) process"
  assumes "process_run S P A V cm l aborts p ws p'" and "ending P st q p"
    and signal: "\<And>w. notified P q w \<Longrightarrow> notified P q (snd (c_kill A (CHILD_PID st) (SIGTERM A) w))"
  shows "ending P st q p' \<and>
    length (filter (\<lambda>who. \<not> is_signal who) ws) + steps_left (p_main p') (p_worker p') \<le> steps_left (p_main p) (p_worker p)"
  using assms(1)
proof (induction rule: process_run.induct)
  case run_start
  then show ?case using assms(2) by simp
next
  case (run_step ws p1 who p2)
  then have "ending P st q p1" by blast
  from ending_step [OF this signal run_step.hyps(2)] run_step.IH show ?case by (auto split: if_splits)
qed

text \<open>C7. Shutdown. Once \<^verbatim>\<open>main\<close> has written the notification and waits for the worker, the process ends, however its
  threads and signals interleave: the threads take at most three more steps, and until the process has
  ended one of them can take its next. This needs that the next wait of the worker reports the
  notification, and that a signal does not change that.\<close>

theorem shutdown_completes:
  fixes p :: "('m, 'w) process" and q :: "'m Pollster"
  assumes "p_main p = Joining r" and "p_worker p = Polling q" and "notified P q (p_world p)"
    and "\<And>w. notified P q w \<Longrightarrow> notified P q (snd (c_kill A (CHILD_PID (p_statics p)) (SIGTERM A) w))"
    and "process_run S P A V cm l aborts p ws p'"
  shows "length (filter (\<lambda>who. \<not> is_signal who) ws) \<le> 3 \<and>
    (process_ended (p_main p') \<or> (\<exists>who p''. \<not> is_signal who \<and> process_step S P A V cm l aborts who p' p''))"
proof -
  have "ending P (p_statics p) q p" using assms(1-3) by (simp add: ending_def)
  from run_ends_soon [OF assms(5) this assms(4)] ending_progress [of P "p_statics p" q p' S A V cm l aborts] assms(1,2)
  show ?thesis by (auto simp: steps_left_def)
qed

definition joining_process :: "(ChildPipes IOSockChannelManager, sim_world) process" where
  "joining_process = \<lparr>p_main = Joining (Ok (Some 3)), p_worker = Polling sample_pollster, p_statics = \<lparr>CHILD_PID = 42\<rparr>,
     p_world = woken_world\<rparr>"

definition signalled_world :: sim_world where
  "signalled_world = woken_world\<lparr>sim_sig := (sim_sig woken_world)\<lparr>sw_sent := [(42, 15)]\<rparr>\<rparr>"

definition exited_process :: "(ChildPipes IOSockChannelManager, sim_world) process" where
  "exited_process = \<lparr>p_main = Exited 3, p_worker = Finished (Ok ()), p_statics = \<lparr>CHILD_PID = 42\<rparr>,
     p_world = signalled_world\<lparr>sim_batches := []\<rparr>\<rparr>"

lemma sim_kill_world [simp]: "snd (c_kill sim_signals pid n w) = w\<lparr>sim_sig := (sim_sig w)\<lparr>sw_sent := (pid, n) # sw_sent (sim_sig w)\<rparr>\<rparr>"
  by (simp add: sim_signals_def with_sig_def sw_api_def)

lemma sim_notified_sig [simp]: "notified sim_platform q (w\<lparr>sim_sig := x\<rparr>) = notified sim_platform q w"
  by (auto simp: notified_def Let_def split: list.split)

lemma woken_signals:
  "sa_sigaction (sv_action sim_sig_view woken_world 15) = Handler_terminate" "sw_sent (sim_sig woken_world) = []"
  by (simp_all add: sim_sig_view_def woken_world_def notified_world_def terminate_action_def unbound_world_def
      polling_world_def started_world_def sample_world_def fresh_signals_def)

lemma sample_end:
  "process_run sim_process sim_platform sim_signals sim_sig_view (iosock_manager sim_platform (pipes_stdio sim_platform))
     (sample_launched sample_manager) True joining_process [Signal 15, Worker_thread, Main_thread, Main_thread] exited_process"
proof -
  let ?l = "sample_launched sample_manager" and ?w = "signalled_world\<lparr>sim_batches := []\<rparr>" and ?st = "\<lparr>CHILD_PID = 42\<rparr>"
  let ?step = "process_step sim_process sim_platform sim_signals sim_sig_view (iosock_manager sim_platform (pipes_stdio sim_platform))
    ?l True"
  let ?p = "\<lambda>pc wk w. \<lparr>p_main = pc, p_worker = wk, p_statics = ?st, p_world = w\<rparr>"
  have "signal_effect sim_signals sim_sig_view 15 joining_process = ?p (Joining (Ok (Some 3))) (Polling sample_pollster) signalled_world"
    by (subst signal_effect_resumes)
      (simp_all add: joining_process_def woken_signals signalled_world_def, simp add: sim_signals_def)
  then have 1: "?step (Signal 15) joining_process (?p (Joining (Ok (Some 3))) (Polling sample_pollster) signalled_world)"
    using process_step.signal_arrives [of joining_process 15 sim_signals sim_process sim_platform sim_sig_view
        "iosock_manager sim_platform (pipes_stdio sim_platform)" ?l True]
    by (simp add: joining_process_def process_ended_def sim_signals_def)
  have "epoll_wait sim_platform (poll_fd sample_pollster) (-1) (poll_events sample_pollster) signalled_world =
      ((Ok 1, woken_events), ?w)"
    by (simp add: signalled_world_def woken_world_def notified_world_def unbound_world_def sample_pollster_def woken_events_def)
  then have "worker_step sim_process sim_platform (iosock_manager sim_platform (pipes_stdio sim_platform)) (closer_read ?l)
      (Polling sample_pollster) signalled_world = Some (Finished (Ok ()), ?w)"
    by (simp add: worker_step_def run_iteration_def wait_result_def first_events_def woken_events_def data_fd_def
        sample_pollster_def Let_def)
  then have 2: "?step Worker_thread (?p (Joining (Ok (Some 3))) (Polling sample_pollster) signalled_world)
      (?p (Joining (Ok (Some 3))) (Finished (Ok ())) ?w)"
    by (rule worker_goes) (simp_all add: process_ended_def)
  have 3: "?step Main_thread (?p (Joining (Ok (Some 3))) (Finished (Ok ())) ?w)
      (?p (Unlinking (Ok (Some 3))) (Finished (Ok ())) ?w)"
    by (rule main_goes) (simp add: main_step_def)
  have 4: "?step Main_thread (?p (Unlinking (Ok (Some 3))) (Finished (Ok ())) ?w) exited_process"
    unfolding exited_process_def
    by (rule main_goes) (simp add: main_step_def exit_status_def sim_process_def)
  from process_run.run_step [OF process_run.run_step [OF process_run.run_step [OF process_run.run_step
      [OF process_run.run_start 1] 2] 3] 4]
  show ?thesis by simp
qed

theorem shutdown_completes_witness:
  "process_run sim_process sim_platform sim_signals sim_sig_view (iosock_manager sim_platform (pipes_stdio sim_platform))
     (sample_launched sample_manager) True joining_process [Signal 15, Worker_thread, Main_thread, Main_thread] exited_process \<and>
   (process_ended (p_main exited_process) \<or> (\<exists>who p'. \<not> is_signal who \<and>
      process_step sim_process sim_platform sim_signals sim_sig_view (iosock_manager sim_platform (pipes_stdio sim_platform))
        (sample_launched sample_manager) True who exited_process p'))"
proof -
  have "notified sim_platform sample_pollster woken_world"
    using sample_shutdown_steps(5,6) by (auto simp: notified_def)
  from shutdown_completes [OF _ _ _ _ sample_end, of "Ok (Some 3)" sample_pollster] this sample_end show ?thesis
    by (simp add: joining_process_def)
qed

end
