(* ===== verification/Call_Log.thy ===== *)
theory Call_Log
  imports Manager_Loop
begin

text \<open>
  The calls of the event loop as a system call trace would show them: which bytes were read from and
  written to which descriptor, and which descriptors were closed. \<open>logged\<close> makes any platform keep such a
  log beside its world; \<open>logs\<close> is what the proofs use of it. The last part says what the copies of
  \<^verbatim>\<open>channel_manager.rs\<close> and of the two implementations of \<^verbatim>\<open>ChildStdio\<close> leave in the log.
\<close>

section \<open>The log\<close>

datatype io_call =
    Call_read RawFd "u8 list"
  | Call_write RawFd "u8 list"
  | Call_close RawFd

definition read_calls :: "RawFd \<Rightarrow> nat io_result \<Rightarrow> u8 list \<Rightarrow> io_call list" where
  "read_calls fd r s' = (case r of Ok n \<Rightarrow> [Call_read fd (take n s')] | Err _ \<Rightarrow> [])"

definition write_calls :: "RawFd \<Rightarrow> nat io_result \<Rightarrow> u8 list \<Rightarrow> io_call list" where
  "write_calls fd r s = (case r of Ok n \<Rightarrow> [Call_write fd (take n s)] | Err _ \<Rightarrow> [])"

definition logs :: "'w platform \<Rightarrow> ('w \<Rightarrow> io_call list) \<Rightarrow> bool" where
  "logs P lg \<longleftrightarrow>
     (\<forall>fd s w r s' w'. sys_read P fd s w = ((r, s'), w') \<longrightarrow> lg w' = lg w @ read_calls fd r s') \<and>
     (\<forall>fd s w r w'. sys_write P fd s w = (r, w') \<longrightarrow> lg w' = lg w @ write_calls fd r s) \<and>
     (\<forall>fd w. lg (sys_close P fd w) = lg w @ [Call_close fd]) \<and>
     (\<forall>fd w. lg (snd (sys_flush P fd w)) = lg w) \<and>
     (\<forall>fd w. lg (snd (sys_accept P fd w)) = lg w) \<and>
     (\<forall>b w. lg (snd (epoll_create P b w)) = lg w) \<and>
     (\<forall>ep op fd ev w. lg (snd (epoll_ctl P ep op fd ev w)) = lg w) \<and>
     (\<forall>ep t evs w. lg (snd (epoll_wait P ep t evs w)) = lg w)"

lemma logsD:
  assumes "logs P lg"
  shows "sys_read P fd s w = ((r, s'), w') \<Longrightarrow> lg w' = lg w @ read_calls fd r s'"
    "sys_write P fd s w = (wr, w') \<Longrightarrow> lg w' = lg w @ write_calls fd wr s"
    "lg (sys_close P fd w) = lg w @ [Call_close fd]"
    "lg (snd (sys_flush P fd w)) = lg w" "lg (snd (sys_accept P fd w)) = lg w"
    "lg (snd (epoll_create P create w)) = lg w" "lg (snd (epoll_ctl P ep op fd ev w)) = lg w"
    "lg (snd (epoll_wait P ep t evs w)) = lg w"
proof -
  note l = assms [unfolded logs_def]
  show "sys_read P fd s w = ((r, s'), w') \<Longrightarrow> lg w' = lg w @ read_calls fd r s'"
    "sys_write P fd s w = (wr, w') \<Longrightarrow> lg w' = lg w @ write_calls fd wr s"
    "lg (sys_close P fd w) = lg w @ [Call_close fd]"
    "lg (snd (sys_flush P fd w)) = lg w" "lg (snd (sys_accept P fd w)) = lg w"
    "lg (snd (epoll_create P create w)) = lg w" "lg (snd (epoll_ctl P ep op fd ev w)) = lg w"
    "lg (snd (epoll_wait P ep t evs w)) = lg w"
    using l by simp_all
qed

text \<open>Any platform with a log beside its world.\<close>

definition unlogged :: "('w \<Rightarrow> 'a \<times> 'w) \<Rightarrow> 'w \<times> 'l \<Rightarrow> 'a \<times> 'w \<times> 'l" where
  "unlogged f x = (case f (fst x) of (r, w) \<Rightarrow> (r, w, snd x))"

definition logged :: "'w platform \<Rightarrow> ('w \<times> io_call list) platform" where
  "logged P =
     \<lparr>plat_events = plat_events P, EIO = EIO P,
      sys_read = (\<lambda>fd s x. case sys_read P fd s (fst x) of ((r, s'), w) \<Rightarrow> ((r, s'), w, snd x @ read_calls fd r s')),
      sys_write = (\<lambda>fd s x. case sys_write P fd s (fst x) of (r, w) \<Rightarrow> (r, w, snd x @ write_calls fd r s)),
      sys_flush = (\<lambda>fd. unlogged (sys_flush P fd)),
      sys_accept = (\<lambda>fd. unlogged (sys_accept P fd)),
      sys_close = (\<lambda>fd x. (sys_close P fd (fst x), snd x @ [Call_close fd])),
      epoll_create = (\<lambda>b. unlogged (epoll_create P b)),
      epoll_ctl = (\<lambda>ep op fd ev. unlogged (epoll_ctl P ep op fd ev)),
      epoll_wait = (\<lambda>ep t evs. unlogged (epoll_wait P ep t evs))\<rparr>"

definition logged_view :: "'w kernel_view \<Rightarrow> ('w \<times> 'l) kernel_view" where
  "logged_view K = \<lparr>kv_opened = (\<lambda>x. kv_opened K (fst x)), kv_interest = (\<lambda>x. kv_interest K (fst x)), kv_foreign = kv_foreign K\<rparr>"

lemma logged_view_simps [simp]:
  "kv_opened (logged_view K) x = kv_opened K (fst x)" "kv_interest (logged_view K) x = kv_interest K (fst x)"
  "kv_foreign (logged_view K) = kv_foreign K" "plat_events (logged P) = plat_events P"
  by (simp_all add: logged_view_def logged_def)

lemma logs_logged [simp]: "logs (logged P) snd"
  by (auto simp: logs_def logged_def unlogged_def split: prod.splits)

lemma logged_worlds [simp]:
  "fst (snd (sys_read (logged P) fd s x)) = snd (sys_read P fd s (fst x))"
  "fst (snd (sys_write (logged P) fd s x)) = snd (sys_write P fd s (fst x))"
  "fst (snd (sys_flush (logged P) fd x)) = snd (sys_flush P fd (fst x))"
  "fst (snd (sys_accept (logged P) fd x)) = snd (sys_accept P fd (fst x))"
  "fst (snd (epoll_ctl (logged P) ep op fd ev x)) = snd (epoll_ctl P ep op fd ev (fst x))"
  "fst (snd (epoll_wait (logged P) ep t evs x)) = snd (epoll_wait P ep t evs (fst x))"
  "fst (sys_close (logged P) fd x) = sys_close P fd (fst x)"
  by (simp_all add: logged_def unlogged_def split: prod.splits)

lemma logged_results:
  "sys_accept (logged P) fd x = (r, y) \<Longrightarrow> sys_accept P fd (fst x) = (r, fst y)"
  "epoll_ctl (logged P) ep op fd ev x = (u, y) \<Longrightarrow> epoll_ctl P ep op fd ev (fst x) = (u, fst y)"
  "epoll_create (logged P) create x = (r, y) \<Longrightarrow> epoll_create P create (fst x) = (r, fst y)"
  by (auto simp: logged_def unlogged_def split: prod.splits)

lemma logged_platform_laws:
  assumes "platform_laws P (kv_opened K)"
  shows "platform_laws (logged P) (kv_opened (logged_view K))"
proof -
  note l = assms [unfolded platform_laws_def]
  have "read_contract (sys_read (logged P) fd)" for fd
    using l unfolding read_contract_def by (simp add: logged_def split: prod.splits)
  moreover have "write_contract (fd_writer (logged P) fd)" for fd
    using l unfolding write_contract_def by (simp add: logged_def fd_writer_def split: prod.splits) metis
  moreover have "\<forall>fd x c y. sys_accept (logged P) fd x = (Ok c, y) \<longrightarrow>
      c \<notin> kv_opened K (fst x) \<and> kv_opened K (fst y) = insert c (kv_opened K (fst x))"
    "\<forall>fd x e y. sys_accept (logged P) fd x = (Err e, y) \<longrightarrow> kv_opened K (fst y) = kv_opened K (fst x)"
    using platform_lawsD(4,5) [OF assms] logged_results(1) by metis+
  ultimately show ?thesis
    using l by (simp add: platform_laws_def)
qed

lemma logged_kernel_laws:
  assumes "kernel_laws P ep K"
  shows "kernel_laws (logged P) ep (logged_view K)"
proof -
  have "epoll_laws (logged P) ep (kv_interest (logged_view K))"
    using assms unfolding kernel_laws_def epoll_laws_def
    by (auto dest!: logged_results(2))
  then show ?thesis
    using assms logged_platform_laws by (auto simp: kernel_laws_def)
qed

lemma logged_creates: "creates_epoll P K w \<Longrightarrow> creates_epoll (logged P) (logged_view K) (w, l)"
  by (auto simp: creates_epoll_def logged_kernel_laws dest!: logged_results(3))

section \<open>What the log says of the child\<close>

text \<open>\<open>F\<close> is the set of the child's descriptors at the start of the log; a descriptor that is closed is the
  child's no longer, also when its number is used again. \<open>produced\<close> is what was read from the child,
  \<open>received\<close> what was read from anything else; \<open>fed\<close> is what was written to the child, \<open>delivered\<close> what was
  written to anything else.\<close>

fun bytes_read :: "bool \<Rightarrow> RawFd set \<Rightarrow> io_call list \<Rightarrow> u8 list" where
  "bytes_read side F [] = []"
| "bytes_read side F (Call_read fd xs # cs) = (if (fd \<in> F) = side then xs else []) @ bytes_read side F cs"
| "bytes_read side F (Call_write fd xs # cs) = bytes_read side F cs"
| "bytes_read side F (Call_close fd # cs) = bytes_read side (F - {fd}) cs"

fun bytes_written :: "bool \<Rightarrow> RawFd set \<Rightarrow> io_call list \<Rightarrow> u8 list" where
  "bytes_written side F [] = []"
| "bytes_written side F (Call_read fd xs # cs) = bytes_written side F cs"
| "bytes_written side F (Call_write fd xs # cs) = (if (fd \<in> F) = side then xs else []) @ bytes_written side F cs"
| "bytes_written side F (Call_close fd # cs) = bytes_written side (F - {fd}) cs"

fun still_open :: "RawFd set \<Rightarrow> io_call list \<Rightarrow> RawFd set" where
  "still_open F [] = F"
| "still_open F (Call_read fd xs # cs) = still_open F cs"
| "still_open F (Call_write fd xs # cs) = still_open F cs"
| "still_open F (Call_close fd # cs) = still_open (F - {fd}) cs"

abbreviation produced :: "RawFd set \<Rightarrow> io_call list \<Rightarrow> u8 list" where "produced \<equiv> bytes_read True"
abbreviation received :: "RawFd set \<Rightarrow> io_call list \<Rightarrow> u8 list" where "received \<equiv> bytes_read False"
abbreviation fed :: "RawFd set \<Rightarrow> io_call list \<Rightarrow> u8 list" where "fed \<equiv> bytes_written True"
abbreviation delivered :: "RawFd set \<Rightarrow> io_call list \<Rightarrow> u8 list" where "delivered \<equiv> bytes_written False"

lemma log_append [simp]:
  "bytes_read side F (cs @ ds) = bytes_read side F cs @ bytes_read side (still_open F cs) ds"
  "bytes_written side F (cs @ ds) = bytes_written side F cs @ bytes_written side (still_open F cs) ds"
  "still_open F (cs @ ds) = still_open (still_open F cs) ds"
  by (induction F cs rule: still_open.induct) simp_all

section \<open>What copies leave in the log\<close>

definition copied_in :: "('w \<Rightarrow> io_call list) \<Rightarrow> RawFd \<Rightarrow> FlipBuffer \<Rightarrow> 'w \<Rightarrow> FlipBuffer \<Rightarrow> 'w \<Rightarrow> bool" where
  "copied_in lg fd b w b' w' \<longleftrightarrow> (\<exists>xs. (lg w' = lg w @ [Call_read fd xs] \<or> lg w' = lg w \<and> xs = []) \<and>
     (contents b' = contents b @ xs \<or> contents b' = contents b \<and> BUFFER_CAPACITY < length (contents b)))"

definition copied_out :: "('w \<Rightarrow> io_call list) \<Rightarrow> RawFd \<Rightarrow> FlipBuffer \<Rightarrow> 'w \<Rightarrow> FlipBuffer \<Rightarrow> 'w \<Rightarrow> bool" where
  "copied_out lg fd b w b' w' \<longleftrightarrow> (\<exists>xs. (lg w' = lg w @ [Call_write fd xs] \<or> lg w' = lg w \<and> xs = []) \<and>
     contents b = xs @ contents b')"

definition read_logs :: "('w \<Rightarrow> io_call list) \<Rightarrow> RawFd \<Rightarrow> 'w Read \<Rightarrow> bool" where
  "read_logs lg fd rd \<longleftrightarrow> (\<forall>s w r s' w'. rd s w = ((r, s'), w') \<longrightarrow>
     lg w' = lg w @ read_calls fd r s' \<or> lg w' = lg w \<and> r = Ok 0)"

definition write_logs :: "('w \<Rightarrow> io_call list) \<Rightarrow> RawFd \<Rightarrow> 'w Write \<Rightarrow> bool" where
  "write_logs lg fd W \<longleftrightarrow> (\<forall>s w r w'. write_fn W s w = (r, w') \<longrightarrow>
     lg w' = lg w @ write_calls fd r s \<or> lg w' = lg w \<and> r = Ok 0) \<and>
     (\<forall>w. lg (snd (flush_fn W w)) = lg w)"

lemma full_exceeds: "buf_inv b \<Longrightarrow> buffer_full b \<Longrightarrow> BUFFER_CAPACITY < length (contents b)"
  using buf_invD(3) [of b] by (auto simp: length_contents buffer_full_def)

lemma channel_to_buffer_logs:
  assumes "buf_inv b" and "read_contract rd" and rl: "read_logs lg fd rd"
    and run: "channel_to_buffer rd b w = Some (res, b', w')"
  shows "copied_in lg fd b w b' w'"
proof (cases "buffer_full b")
  case True
  obtain r s' w1 where io: "rd (heap_buffer 8192) w = ((r, s'), w1)" by (metis surj_pair)
  have "b' = b" "w' = w1"
    using run assms(1) True io by (auto simp: channel_to_buffer_def read_or_drain_full)
  moreover have "lg w1 = lg w @ read_calls fd r s' \<or> lg w1 = lg w"
    using rl io unfolding read_logs_def by blast
  ultimately show ?thesis
    using full_exceeds [OF assms(1) True] by (cases r) (auto simp: copied_in_def read_calls_def)
next
  case False
  from read_from_total [OF assms(1,2), of w] obtain cr ch b1 w1 where
    r: "read_from rd b w = Some ((cr, ch), b1, w1)" "fill_spec rd b w (cr, ch) b1 w1" by auto
  have b': "b' = b1" "w' = w1"
    using run r(1) assms(1,2) False by (auto simp: channel_to_buffer_def read_or_drain_room)
  obtain r s' where io: "rd (space_slice b) w = ((r, s'), w1)"
      and c: "contents b1 = contents b @ (case r of Ok n \<Rightarrow> take n s' | Err _ \<Rightarrow> [])"
    using r(2) False by (cases cr) (auto simp: fill_spec_def)
  have "lg w1 = lg w @ read_calls fd r s' \<or> lg w1 = lg w \<and> r = Ok 0"
    using rl io unfolding read_logs_def by blast
  then show ?thesis
    using c b' by (cases r) (auto simp: copied_in_def read_calls_def)
qed

lemma buffer_to_channel_logs:
  assumes "buf_inv b" and "write_contract W" and wl: "write_logs lg fd W"
    and run: "buffer_to_channel b W w = Some (res, b', w')"
  shows "copied_out lg fd b w b' w'"
proof -
  from write_to_total [OF assms(1,2), of w] obtain cr ch b1 w1 where
    r: "write_to W b w = Some ((cr, ch), b1, w1)" "drain_spec W b w (cr, ch) b1 w1" by auto
  have b': "b' = b1" "w' = w1"
    using run r(1) by (auto simp: buffer_to_channel_def)
  show ?thesis
  proof (cases "contents b = []")
    case True
    then show ?thesis using r(2) b' by (auto simp: drain_spec_def copied_out_def)
  next
    case False
    obtain wr w2 where io: "write_fn W (data_slice b) w = (wr, w2)" by fastforce
    have l: "lg w2 = lg w @ write_calls fd wr (data_slice b) \<or> lg w2 = lg w \<and> wr = Ok 0"
      and fl: "lg (snd (flush_fn W w2)) = lg w2"
      using wl io unfolding write_logs_def by blast+
    show ?thesis
    proof (cases wr)
      case (Err e)
      then show ?thesis using r(2) False io b' l by (auto simp: drain_spec_def copied_out_def write_calls_def)
    next
      case (Ok n)
      have w1: "w1 = snd (flush_fn W w2)" and n: "n \<le> length (data_slice b)" and c: "contents b1 = drop n (contents b)"
        using r(2) False io Ok by (auto simp: drain_spec_def split: prod.splits io_result.splits)
      have "take n (data_slice b) = take n (contents b)"
        using contents_data_slice [OF assms(1)] n by simp
      then have "contents b = take n (data_slice b) @ contents b1" using c by simp
      then show ?thesis
        using l fl w1 b' Ok by (auto simp: copied_out_def write_calls_def)
    qed
  qed
qed

lemma platform_stream_logs:
  assumes "logs P lg"
  shows "read_logs lg fd (sys_read P fd)" "write_logs lg fd (fd_writer P fd)"
    "read_logs lg fd (pty_read P fd)" "write_logs lg fd (pty_writer P fd)"
proof -
  note l = logsD(1,2,4) [OF assms]
  show "read_logs lg fd (sys_read P fd)" "write_logs lg fd (fd_writer P fd)"
    using l by (simp_all add: read_logs_def write_logs_def fd_writer_def)
  show "read_logs lg fd (pty_read P fd)"
    unfolding read_logs_def
  proof (intro allI impI)
    fix s w r s' w'
    assume "pty_read P fd s w = ((r, s'), w')"
    then obtain r0 where r0: "sys_read P fd s w = ((r0, s'), w')" "r = ignore_eio P r0"
      by (auto simp: pty_read_def split: prod.splits)
    show "lg w' = lg w @ read_calls fd r s' \<or> lg w' = lg w \<and> r = Ok 0"
      using l(1) [OF r0(1)] r0(2) by (cases r0) (auto simp: ignore_eio_def read_calls_def)
  qed
  have "lg w' = lg w @ write_calls fd r s \<or> lg w' = lg w \<and> r = Ok 0"
    if "write_fn (pty_writer P fd) s w = (r, w')" for s w r w'
  proof -
    obtain r0 w0 where r0: "sys_write P fd s w = (r0, w0)" by fastforce
    then have "r = ignore_eio P r0" "w' = w0" using that by (simp_all add: pty_writer_def)
    then show ?thesis
      using l(2) [OF r0] by (cases r0) (auto simp: ignore_eio_def write_calls_def)
  qed
  then show "write_logs lg fd (pty_writer P fd)"
    using l(3) by (simp add: write_logs_def pty_writer_def)
qed

text \<open>What the log adds to the contract of \<open>ChildStdio\<close>.\<close>

locale logged_stdio = child_stdio C cinv started
  for C :: "'w platform \<Rightarrow> ('c, 'w) ChildStdio" and cinv :: "'c \<Rightarrow> bool" and started :: "'c \<Rightarrow> bool" +
  assumes write_stdin_logs: "platform_laws P opened \<Longrightarrow> logs P lg \<Longrightarrow> buf_inv b \<Longrightarrow> stdin_fd (C P) c = Some fd \<Longrightarrow>
      write_stdin (C P) c b w = Some (res, b', w') \<Longrightarrow> copied_out lg fd b w b' w'"
    and read_stdout_logs: "platform_laws P opened \<Longrightarrow> logs P lg \<Longrightarrow> buf_inv b \<Longrightarrow> stdout_fd (C P) c = Some fd \<Longrightarrow>
      read_stdout (C P) c b w = Some (res, b', w') \<Longrightarrow> copied_in lg fd b w b' w'"
    and read_stderr_logs: "platform_laws P opened \<Longrightarrow> logs P lg \<Longrightarrow> buf_inv b \<Longrightarrow> stderr_fd (C P) c = Some fd \<Longrightarrow>
      read_stderr (C P) c b w = Some (res, b', w') \<Longrightarrow> \<exists>src \<in> child_fds (C P) c. copied_in lg src b w b' w'"

lemma copied_in_refl: "copied_in lg fd b w b w"
  by (simp add: copied_in_def)

interpretation pipes_log: logged_stdio pipes_stdio pipes_inv pipes_started
proof (unfold_locales, goal_cases)
  case (1 P opened lg b c fd w res b' w')
  then show ?case
    using buffer_to_channel_logs [OF 1(3) platform_lawsD(3) [OF 1(1)] platform_stream_logs(2) [OF 1(2)]]
    by (simp add: pipes_ops)
next
  case (2 P opened lg b c fd w res b' w')
  then show ?case
    using channel_to_buffer_logs [OF 2(3) platform_lawsD(2) [OF 2(1)] platform_stream_logs(1) [OF 2(2)]]
    by (simp add: pipes_ops)
next
  case (3 P opened lg b c fd w res b' w')
  show ?case
  proof (cases "pipe_stdout c")
    case None
    then have "b' = b" "w' = w" using 3(5) by (auto simp: pipes_ops)
    then show ?thesis by (intro bexI [OF _ child_fdsI(3) [OF 3(4)]]) (simp add: copied_in_refl)
  next
    case (Some out)
    then have "copied_in lg out b w b' w'"
      using 3(5) channel_to_buffer_logs [OF 3(3) platform_lawsD(2) [OF 3(1)] platform_stream_logs(1) [OF 3(2)]]
      by (simp add: pipes_ops)
    moreover have "out \<in> child_fds (pipes_stdio P) c" using Some by (simp add: child_fds_def pipes_stdio_def)
    ultimately show ?thesis by (intro bexI)
  qed
qed

interpretation pty_log: logged_stdio pty_stdio "\<lambda>_. True" pty_started
proof (unfold_locales, goal_cases)
  case (1 P opened lg b c fd w res b' w')
  then show ?case
    using buffer_to_channel_logs [OF 1(3) pty_writer_contract [OF platform_lawsD(3) [OF 1(1)]] platform_stream_logs(4) [OF 1(2)]]
    by (simp add: pty_ops)
next
  case (2 P opened lg b c fd w res b' w')
  then show ?case
    using channel_to_buffer_logs [OF 2(3) pty_read_contract [OF platform_lawsD(2) [OF 2(1)]] platform_stream_logs(3) [OF 2(2)]]
    by (simp add: pty_ops)
next
  case (3 P opened lg b c fd w res b' w')
  then show ?case by (simp add: pty_ops)
qed

end
