(* ===== verification/Relay.thy ===== *)
theory Relay
  imports Call_Log Manager_Data
begin

text \<open>
  The manager as a relay between the child and its peers, seen from the log of its calls: what it
  wrote to the child and what still waits in \<^verbatim>\<open>in_buffer\<close> comes from what it read from elsewhere, what it wrote
  elsewhere and what still waits in \<^verbatim>\<open>out_buffer\<close> comes from what it read from the child, in order, each
  byte at most once; and under the conditions that the definition names nothing is missing either.
\<close>

text \<open>One direction: \<open>sent\<close> and then \<open>waiting\<close> are a subsequence of \<open>source\<close>, and all of it while \<open>whole\<close> holds and
  no more than one page of bytes ever came in.\<close>

definition direction_ok :: "bool \<Rightarrow> u8 list \<Rightarrow> u8 list \<Rightarrow> u8 list \<Rightarrow> bool" where
  "direction_ok whole sent waiting source \<longleftrightarrow> subseq (sent @ waiting) source \<and>
     (whole \<and> length source \<le> BUFFER_CAPACITY \<longrightarrow> sent @ waiting = source)"

definition relay ::
  "RawFd set \<Rightarrow> ('w \<Rightarrow> io_call list) \<Rightarrow> ('c, 'w) ChildStdio \<Rightarrow> 'c IOSockChannelManager \<Rightarrow> 'w \<Rightarrow> bool" where
  "relay F lg C m w \<longleftrightarrow>
     still_open F (lg w) = child_fds C (child m) \<and>
     direction_ok (console m \<noteq> None \<and> stdin_fd C (child m) \<noteq> None)
       (delivered F (lg w)) (contents (out_buffer m)) (produced F (lg w)) \<and>
     direction_ok True (fed F (lg w)) (contents (in_buffer m)) (received F (lg w))"

section \<open>What keeps it\<close>

lemma direction_weaken: "direction_ok g d b p \<Longrightarrow> (g' \<Longrightarrow> g) \<Longrightarrow> direction_ok g' d b p"
  by (auto simp: direction_ok_def)

lemma direction_fill:
  assumes d: "direction_ok g d b p" and b: "b' = b @ xs \<or> b' = b \<and> BUFFER_CAPACITY < length b"
  shows "direction_ok g d b' (p @ xs)"
proof -
  have s: "subseq (d @ b) p" using d by (simp add: direction_ok_def)
  have "length b \<le> length p" using list_emb_length [OF s] by simp
  moreover have "subseq (d @ b @ xs) (p @ xs)" using list_emb_append_mono [OF s, of xs xs] by simp
  moreover have "subseq (d @ b) (p @ xs)" by (rule subseq_rev_drop_many [OF s])
  ultimately show ?thesis
    using d b by (auto simp: direction_ok_def)
qed

lemma direction_drain: "direction_ok g d (xs @ b) p \<Longrightarrow> direction_ok g (d @ xs) b p"
  by (simp add: direction_ok_def)

lemma direction_drop:
  assumes "direction_ok g d b p" and "prefix b' b"
  shows "direction_ok False d b' p"
proof -
  have "subseq (d @ b') (d @ b)" using assms(2) by (intro prefix_imp_subseq) simp
  then show ?thesis using assms(1) subseq_order.trans unfolding direction_ok_def by blast
qed

lemma relayD:
  assumes "relay F lg C m w"
  shows "still_open F (lg w) = child_fds C (child m)"
    "direction_ok (console m \<noteq> None \<and> stdin_fd C (child m) \<noteq> None)
       (delivered F (lg w)) (contents (out_buffer m)) (produced F (lg w))"
    "direction_ok True (fed F (lg w)) (contents (in_buffer m)) (received F (lg w))"
  using assms by (simp_all add: relay_def)

lemma relay_same:
  assumes "relay F lg C m w" and "child m' = child m" "in_buffer m' = in_buffer m" "out_buffer m' = out_buffer m"
    and "console m' \<noteq> None \<longrightarrow> console m \<noteq> None" and "lg w' = lg w"
  shows "relay F lg C m' w'"
  using assms direction_weaken [OF relayD(2) [OF assms(1)]] unfolding relay_def by simp

lemma log_cases:
  assumes "lg w' = lg w @ [c] \<or> lg w' = lg w \<and> xs = []"
  obtains "lg w' = lg w @ [c]" | "lg w' = lg w" "xs = []"
  using assms by blast

text \<open>A read of the child, a read of another stream, a write to another stream, a write to the child.\<close>

lemma relay_out_filled:
  assumes r: "relay F lg C m w" and fd: "fd \<in> child_fds C (child m)" and c: "copied_in lg fd (out_buffer m) w b w'"
  shows "relay F lg C (m\<lparr>out_buffer := b\<rparr>) w'"
proof -
  obtain xs where l: "lg w' = lg w @ [Call_read fd xs] \<or> lg w' = lg w \<and> xs = []"
    and b: "contents b = contents (out_buffer m) @ xs \<or>
      contents b = contents (out_buffer m) \<and> BUFFER_CAPACITY < length (contents (out_buffer m))"
    using c unfolding copied_in_def by blast
  note ok = direction_fill [OF relayD(2) [OF r] b]
  from l show ?thesis
  proof (rule log_cases)
    assume "lg w' = lg w @ [Call_read fd xs]"
    then show ?thesis unfolding relay_def using ok relayD(1,3) [OF r] fd by simp
  next
    assume "lg w' = lg w" "xs = []"
    then show ?thesis unfolding relay_def using ok relayD(1,3) [OF r] by simp
  qed
qed

lemma relay_in_filled:
  assumes r: "relay F lg C m w" and fd: "fd \<notin> child_fds C (child m)" and c: "copied_in lg fd (in_buffer m) w b w'"
  shows "relay F lg C (m\<lparr>in_buffer := b\<rparr>) w'"
proof -
  obtain xs where l: "lg w' = lg w @ [Call_read fd xs] \<or> lg w' = lg w \<and> xs = []"
    and b: "contents b = contents (in_buffer m) @ xs \<or>
      contents b = contents (in_buffer m) \<and> BUFFER_CAPACITY < length (contents (in_buffer m))"
    using c unfolding copied_in_def by blast
  note ok = direction_fill [OF relayD(3) [OF r] b]
  from l show ?thesis
  proof (rule log_cases)
    assume "lg w' = lg w @ [Call_read fd xs]"
    then show ?thesis unfolding relay_def using ok relayD(1,2) [OF r] fd by simp
  next
    assume "lg w' = lg w" "xs = []"
    then show ?thesis unfolding relay_def using ok relayD(1,2) [OF r] by simp
  qed
qed

lemma relay_out_drained:
  assumes r: "relay F lg C m w" and fd: "fd \<notin> child_fds C (child m)" and c: "copied_out lg fd (out_buffer m) w b w'"
  shows "relay F lg C (m\<lparr>out_buffer := b\<rparr>) w'"
proof -
  obtain xs where l: "lg w' = lg w @ [Call_write fd xs] \<or> lg w' = lg w \<and> xs = []"
    and b: "contents (out_buffer m) = xs @ contents b"
    using c unfolding copied_out_def by blast
  note ok = direction_drain [OF relayD(2) [OF r, unfolded b]]
  from l show ?thesis
  proof (rule log_cases)
    assume "lg w' = lg w @ [Call_write fd xs]"
    then show ?thesis unfolding relay_def using ok relayD(1,3) [OF r] fd by simp
  next
    assume "lg w' = lg w" "xs = []"
    then show ?thesis unfolding relay_def using ok relayD(1,3) [OF r] by simp
  qed
qed

lemma relay_in_drained:
  assumes r: "relay F lg C m w" and fd: "fd \<in> child_fds C (child m)" and c: "copied_out lg fd (in_buffer m) w b w'"
  shows "relay F lg C (m\<lparr>in_buffer := b\<rparr>) w'"
proof -
  obtain xs where l: "lg w' = lg w @ [Call_write fd xs] \<or> lg w' = lg w \<and> xs = []"
    and b: "contents (in_buffer m) = xs @ contents b"
    using c unfolding copied_out_def by blast
  note ok = direction_drain [OF relayD(3) [OF r, unfolded b]]
  from l show ?thesis
  proof (rule log_cases)
    assume "lg w' = lg w @ [Call_write fd xs]"
    then show ?thesis unfolding relay_def using ok relayD(1,2) [OF r] fd by simp
  next
    assume "lg w' = lg w" "xs = []"
    then show ?thesis unfolding relay_def using ok relayD(1,2) [OF r] by simp
  qed
qed

lemma relay_discard:
  assumes r: "relay F lg C m w" and b: "buf_inv (out_buffer m)" and c: "console m = None \<or> stdin_fd C (child m) = None"
  shows "relay F lg C (discard_output m) w"
  using relayD(1,3) [OF r] direction_weaken [OF direction_drop [OF relayD(2) [OF r] discard_prefix [OF b]]] c
  by (auto simp: relay_def discard_output_def)

lemma relay_closed:
  assumes r: "relay F lg C m w" and l: "lg w' = lg w @ [Call_close fd]"
    and child: "child_fds C (child m') = child_fds C (child m) - {fd}"
    and weak: "stdin_fd C (child m') \<noteq> None \<longrightarrow> stdin_fd C (child m) \<noteq> None" "console m' = console m"
    and bufs: "in_buffer m' = in_buffer m" "out_buffer m' = out_buffer m"
  shows "relay F lg C m' w'"
  using relayD(1,3) [OF r] direction_weaken [OF relayD(2) [OF r]] l child weak bufs by (simp add: relay_def)

section \<open>The handlers\<close>

lemma hangup_client_relay:
  assumes l: "logs P lg" and r: "relay F lg C m w" and c: "stream c \<notin> child_fds C (child m)"
    and run: "hangup_client P c m s w = Some (x, m', s', w')"
  shows "relay F lg C m' w'"
proof -
  have "m' = m\<lparr>client_socket := None\<rparr>" "w' = sys_close P (stream c) w"
    using run by (auto simp: hangup_client_def Let_def split: bind_splits)
  then show ?thesis
    using c logsD(3) [OF l] by (intro relay_closed [OF r, of _ "stream c"]) simp_all
qed

lemma accept_client_relay:
  fixes m :: "'c IOSockChannelManager"
  assumes l: "logs P lg" and laws: "kernel_laws P ep K" and core: "mgr_core K cinv C m s w"
    and r: "relay F lg C m w" and run: "accept_client P m s w = Some (x, m', s', w')"
  shows "relay F lg C m' w'"
proof -
  obtain a w1 where a: "sys_accept P (server_socket m) w = (a, w1)" by fastforce
  have r1: "relay F lg C m w1"
    using logsD(5) [OF l, of "server_socket m" w] a by (intro relay_same [OF r]) simp_all
  show ?thesis
  proof (cases a)
    case (Err e)
    then show ?thesis using run a r1 by (auto simp: accept_client_def)
  next
    case (Ok c)
    have "c \<notin> kv_opened K w"
      using platform_lawsD(4) [OF kernel_lawsD(1) [OF laws] a [unfolded Ok]] by simp
    then have c: "c \<notin> child_fds C (child m)" using mgr_coreD(9) [OF core] by (auto simp: role_defs)
    show ?thesis
    proof (cases "client_socket m = None")
      case True
      then have "child m' = child m" "in_buffer m' = in_buffer m" "out_buffer m' = out_buffer m" "console m' = console m" "w' = w1"
        using run a Ok by (auto simp: accept_client_def Let_def split: bind_splits option.splits)
      then show ?thesis by (intro relay_same [OF r1]) simp_all
    next
      case False
      then have "m' = m" "w' = sys_close P c w1" using run a Ok by (auto simp: accept_client_def)
      then show ?thesis
        using c logsD(3) [OF l] by (intro relay_closed [OF r1, of _ c]) simp_all
    qed
  qed
qed

context logged_stdio
begin

lemma on_hangup_relay:
  assumes l: "logs P lg" and core: "mgr_core K cinv (C P) m s w"
    and r: "relay F lg (C P) m w" and run: "on_hangup P (C P) fd m s w = Some (x, m', s', w')"
  shows "relay F lg (C P) m' w'"
proof (cases "client_stream m fd")
  case (Some c)
  then have "hangup_client P c m s w = Some (x, m', s', w')" using run by (simp add: on_hangup_def)
  moreover have "stream c \<notin> child_fds (C P) (child m)"
    using Some roles_distinctD(2) [OF mgr_coreD(4) [OF core]] by (simp add: client_stream_Some)
  ultimately show ?thesis using hangup_client_relay [OF l r] by blast
next
  case None
  then have run: "hangup_other (C P) fd m s w = Some (x, m', s', w')" using run by (simp add: on_hangup_def)
  show ?thesis
  proof (cases "fd \<in> child_fds (C P) (child m)")
    case True
    then have "stdin_fd (C P) (child m) = Some fd \<or> stdout_fd (C P) (child m) = Some fd \<or> stderr_fd (C P) (child m) = Some fd"
      by (auto simp: child_fds_def)
    then obtain c' where h: "cs_hangup (C P) fd (child m) s w = Some (c', s', w')" and m': "m' = m\<lparr>child := c'\<rparr>"
      using run by (auto simp: hangup_other_def split: bind_splits)
    note co = mgr_coreD(3,5) [OF core]
    have k: "fd \<in> processed s" using hangup_panic [OF True, of s w] h by force
    note ch = hangup_child_fds [OF co True h]
    have "stdin_fd (C P) c' = close_role fd (stdin_fd (C P) (child m))"
      using hangup_law [OF co True k, of w] h by auto
    then have "stdin_fd (C P) c' \<noteq> None \<longrightarrow> stdin_fd (C P) (child m) \<noteq> None"
      by (auto simp: close_role_def split: if_splits)
    then show ?thesis
      using ch m' logsD(3) [OF l] by (intro relay_closed [OF r, of _ fd]) simp_all
  next
    case False
    then have "child m' = child m" "in_buffer m' = in_buffer m" "out_buffer m' = out_buffer m" "w' = w"
      "console m' \<noteq> None \<longrightarrow> console m \<noteq> None"
      using run by (auto simp: hangup_other_def child_fds_def split: option.splits if_splits bind_splits)
    then show ?thesis by (intro relay_same [OF r]) simp_all
  qed
qed

lemma read_child_relay:
  assumes l: "logs P lg" and laws: "kernel_laws P ep K" and core: "mgr_core K cinv (C P) m s w" and r: "relay F lg (C P) m w"
    and copy: "copy (child m) (out_buffer m) w = Some (res, b, w1)" "filled (out_buffer m) res b" "io_on P G w w1"
    and src: "src \<in> child_fds (C P) (child m)" "copied_in lg src (out_buffer m) w b w1"
    and run: "read_child P (C P) copy fd m s w = Some (x, m', s', w')"
  shows "relay F lg (C P) m' w'"
proof -
  let ?m = "m\<lparr>out_buffer := b\<rparr>"
  have b: "buf_inv (out_buffer ?m)" using copy(2) by (simp add: filled_def)
  have core1: "mgr_core K cinv (C P) ?m s w1"
    using mgr_core_buffers(1) [OF core _ io_world [OF laws copy(3)]] b by simp
  have r1: "relay F lg (C P) ?m w1" by (rule relay_out_filled [OF r src])
  have drop: "relay F lg (C P) (discard_output ?m) w1" if "console m = None"
    using relay_discard [OF r1 b] that by simp
  have run: "(case res of
         Err e \<Rightarrow> Some (Err e, ?m, s, w1)
       | Ok (should_close, buffer_state) \<Rightarrow>
           (if should_close then on_hangup P (C P) fd ?m s w1
            else if buffer_state = BecameNonEmpty then do {
              (requested_writable, s) \<leftarrow> request_primary_output_writable (plat_events P) ?m s;
              Some (Ok (), if \<not> requested_writable then discard_output ?m else ?m, s, w1)
            }
            else Some (Ok (), if \<not> has_output_channel ?m then discard_output ?m else ?m, s, w1))) = Some (x, m', s', w')"
    using run copy(1) by (simp add: read_child_def Let_def)
  consider e where "res = Err e" | (close) ch where "res = Ok (True, ch)"
    | (more) "res = Ok (False, BecameNonEmpty)" | (same) ch where "res = Ok (False, ch)" "ch \<noteq> BecameNonEmpty"
    by (metis io_result.exhaust surj_pair)
  then show ?thesis
  proof cases
    case 1
    then show ?thesis using run r1 by simp
  next
    case close
    then have "on_hangup P (C P) fd ?m s w1 = Some (x, m', s', w')" using run by simp
    then show ?thesis by (rule on_hangup_relay [OF l core1 r1])
  next
    case more
    then obtain q s1 where q: "request_primary_output_writable (plat_events P) ?m s = Some (q, s1)"
      and m': "m' = (if \<not> q then discard_output ?m else ?m)" "w' = w1"
      using run by (auto split: bind_splits)
    have "console m = None" if "\<not> q"
      using q that by (auto simp: request_primary_output_writable_def split: option.splits bind_splits)
    then show ?thesis using m' r1 drop by simp
  next
    case same
    then have m': "m' = (if \<not> has_output_channel ?m then discard_output ?m else ?m)" "w' = w1"
      using run by simp_all
    have "console m = None" if "\<not> has_output_channel ?m" using that by (simp add: has_output_channel_def)
    then show ?thesis using m' r1 drop by simp
  qed
qed

lemma read_client_relay:
  assumes l: "logs P lg" and laws: "kernel_laws P ep K" and core: "mgr_core K cinv (C P) m s w" and r: "relay F lg (C P) m w"
    and c: "client_stream m fd = Some c" and run: "read_client P (C P) fd c m s w = Some (x, m', s', w')"
  shows "relay F lg (C P) m' w'"
proof -
  note co = mgr_coreD [OF core] and pl = kernel_lawsD(1) [OF laws]
  have cs: "client_socket m = Some c" "stream c = fd" using c by (simp_all add: client_stream_Some)
  have fd: "stream c \<notin> child_fds (C P) (child m)" using roles_distinctD(2) [OF co(4) cs(1)] by simp
  obtain res b w1 where copy: "channel_to_buffer (sys_read P (stream c)) (in_buffer m) w = Some (res, b, w1)"
      "filled (in_buffer m) res b" "io_on P {stream c} w w1"
    using channel_to_buffer_fd [OF pl co(1)] by blast
  let ?m = "m\<lparr>in_buffer := b\<rparr>"
  have core1: "mgr_core K cinv (C P) ?m s w1"
    using mgr_core_buffers(2) [OF core _ io_world [OF laws copy(3)]] copy(2) by (simp add: filled_def)
  have r1: "relay F lg (C P) ?m w1"
    by (rule relay_in_filled [OF r fd])
      (rule channel_to_buffer_logs [OF co(1) platform_lawsD(2) [OF pl] platform_stream_logs(1) [OF l] copy(1)])
  have drop: "relay F lg (C P) (discard_output ?m) w1" if "stdin_fd (C P) (child m) = None"
    using relay_discard [OF r1] co(2) that by simp
  have av: "relay F lg (C P) (?m\<lparr>client_socket := z\<rparr>) w1" for z by (rule relay_same [OF r1]) simp_all
  have readable: "client_socket_readable m" using run by (simp add: read_client_def split: if_splits)
  note run = run [unfolded read_client_def, simplified copy(1) readable, simplified]
  consider e where "res = Err e" | (close) ch where "res = Ok (True, ch)"
    | (more) "res = Ok (False, BecameNonEmpty)" | (same) ch where "res = Ok (False, ch)" "ch \<noteq> BecameNonEmpty"
    by (metis io_result.exhaust surj_pair)
  then show ?thesis
  proof cases
    case 1
    then show ?thesis using run r1 by (auto simp: Let_def)
  next
    case close
    show ?thesis
    proof (cases "availability c = ReadOnly")
      case True
      then have "on_hangup P (C P) fd ?m s w1 = Some (x, m', s', w')" using run close by (simp add: Let_def)
      then show ?thesis by (rule on_hangup_relay [OF l core1 r1])
    next
      case False
      then show ?thesis using run close av by (auto simp: Let_def split: bind_splits)
    qed
  next
    case more
    then show ?thesis using run r1 drop by (auto simp: Let_def split: option.splits bind_splits)
  next
    case same
    then show ?thesis using run r1 drop by (auto simp: Let_def split: if_splits)
  qed
qed

text \<open>The three writing branches end in the same ways.\<close>

lemma write_end_relay:
  assumes l: "logs P lg" and core: "mgr_core K cinv (C P) m1 s w1" and r1: "relay F lg (C P) m1 w1"
    and run: "(m', w') = (m1, w1) \<or> on_hangup P (C P) fd m1 s w1 = Some (x, m', s', w') \<or>
      (\<exists>z. m' = m1\<lparr>client_socket := z\<rparr> \<and> w' = w1)"
  shows "relay F lg (C P) m' w'"
proof -
  have "relay F lg (C P) (m1\<lparr>client_socket := z\<rparr>) w1" for z by (rule relay_same [OF r1]) simp_all
  then show ?thesis using run r1 on_hangup_relay [OF l core r1] by auto
qed

lemma on_writable_relay:
  assumes l: "logs P lg" and laws: "kernel_laws P ep K" and core: "mgr_core K cinv (C P) m s w" and r: "relay F lg (C P) m w"
    and run: "on_writable P (C P) fd m s w = Some (x, m', s', w')"
  shows "relay F lg (C P) m' w'"
proof -
  note co = mgr_coreD [OF core] and pl = kernel_lawsD(1) [OF laws]
  have out: "mgr_core K cinv (C P) (m\<lparr>out_buffer := b\<rparr>) s w1 \<and> relay F lg (C P) (m\<lparr>out_buffer := b\<rparr>) w1"
    if "buffer_to_channel (out_buffer m) (fd_writer P f) w = Some (res, b, w1)" "f \<notin> child_fds (C P) (child m)" for f res b w1
  proof -
    have "drained (out_buffer m) res b" "io_on P {f} w w1"
      using buffer_to_channel_fd [OF pl co(2), of f w] that(1) by auto
    then show ?thesis
      using mgr_core_buffers(1) [OF core _ io_world [OF laws]] relay_out_drained [OF r that(2)]
        buffer_to_channel_logs [OF co(2) platform_lawsD(3) [OF pl] platform_stream_logs(2) [OF l] that(1)]
      by (auto simp: drained_def)
  qed
  show ?thesis
  proof (cases "client_stream m fd")
    case (Some c)
    then have c: "client_socket m = Some c" "stream c = fd" by (simp_all add: client_stream_Some)
    have run: "write_client P (C P) fd c m s w = Some (x, m', s', w')" using run Some by (simp add: on_writable_def)
    obtain res b w1 where copy: "buffer_to_channel (out_buffer m) (fd_writer P (stream c)) w = Some (res, b, w1)"
      using buffer_to_channel_fd [OF pl co(2)] by blast
    have "stream c \<notin> child_fds (C P) (child m)" using roles_distinctD(2) [OF co(4) c(1)] by simp
    note o1 = out [OF copy this]
    show ?thesis
      by (rule write_end_relay [OF l conjunct1 [OF o1] conjunct2 [OF o1], of m' w' fd x s'])
        (use run copy in \<open>auto simp: write_client_def Let_def split: io_result.splits prod.splits if_splits bind_splits\<close>)
  next
    case None
    note run = run [unfolded on_writable_def, simplified None, simplified]
    consider (con) "console m = Some fd" | (child) "console m \<noteq> Some fd" "stdin_fd (C P) (child m) = Some fd"
      | (none) "m' = m" "w' = w"
      using run by (auto split: if_splits)
    then show ?thesis
    proof cases
      case con
      obtain res b w1 where copy: "buffer_to_channel (out_buffer m) (fd_writer P fd) w = Some (res, b, w1)"
        using buffer_to_channel_fd [OF pl co(2)] by blast
      have "fd \<notin> child_fds (C P) (child m)" using roles_distinctD(1) [OF co(4) con] by simp
      note o1 = out [OF copy this]
      show ?thesis
        by (rule write_end_relay [OF l conjunct1 [OF o1] conjunct2 [OF o1], of m' w' fd x s'])
          (use run con copy in \<open>auto simp: write_console_def Let_def split: io_result.splits prod.splits if_splits bind_splits\<close>)
    next
      case child
      obtain res b w1 where copy: "write_stdin (C P) (child m) (in_buffer m) w = Some (res, b, w1)"
          "drained (in_buffer m) res b" "io_on P {fd} w w1"
        using write_stdin_law [OF pl co(1) child(2)] by blast
      have "mgr_core K cinv (C P) (m\<lparr>in_buffer := b\<rparr>) s w1"
        using mgr_core_buffers(2) [OF core _ io_world [OF laws copy(3)]] copy(2) by (simp add: drained_def)
      moreover have "relay F lg (C P) (m\<lparr>in_buffer := b\<rparr>) w1"
        by (rule relay_in_drained [OF r child_fdsI(1) [OF child(2)] write_stdin_logs [OF pl l co(1) child(2) copy(1)]])
      ultimately show ?thesis
        by (rule write_end_relay [OF l, of _ _ _ _ _ m' w' fd x s'])
          (use run child copy in \<open>auto simp: write_child_def Let_def split: io_result.splits prod.splits if_splits bind_splits\<close>)
    qed (use r in simp)
  qed
qed

lemma on_readable_relay:
  assumes l: "logs P lg" and laws: "kernel_laws P ep K" and core: "mgr_core K cinv (C P) m s w" and r: "relay F lg (C P) m w"
    and run: "on_readable P (C P) fd m s w = Some (x, m', s', w')"
  shows "relay F lg (C P) m' w'"
proof -
  note co = mgr_coreD [OF core] and pl = kernel_lawsD(1) [OF laws]
  consider (server) "fd = server_socket m"
    | (client) c where "fd \<noteq> server_socket m" "client_stream m fd = Some c"
    | (out) "fd \<noteq> server_socket m" "client_stream m fd = None" "stdout_fd (C P) (child m) = Some fd"
    | (err) "fd \<noteq> server_socket m" "client_stream m fd = None" "stdout_fd (C P) (child m) \<noteq> Some fd"
        "stderr_fd (C P) (child m) = Some fd"
    | (other) "fd \<noteq> server_socket m" "client_stream m fd = None" "stdout_fd (C P) (child m) \<noteq> Some fd"
        "stderr_fd (C P) (child m) \<noteq> Some fd"
    by (cases "client_stream m fd") auto
  then show ?thesis
  proof cases
    case server
    then show ?thesis using run accept_client_relay [OF l laws core r] by (simp add: on_readable_def)
  next
    case client
    then show ?thesis using run read_client_relay [OF l laws core r client(2)] by (simp add: on_readable_def)
  next
    case out
    obtain res b w1 where copy: "read_stdout (C P) (child m) (out_buffer m) w = Some (res, b, w1)"
        "filled (out_buffer m) res b" "io_on P {fd} w w1"
      using read_stdout_law [OF pl co(2) out(3)] by blast
    have "read_child P (C P) (read_stdout (C P)) fd m s w = Some (x, m', s', w')"
      using run out by (simp add: on_readable_def)
    then show ?thesis
      by (rule read_child_relay [where copy = "read_stdout (C P)", OF l laws core r copy child_fdsI(2) [OF out(3)] read_stdout_logs [OF pl l co(2) out(3) copy(1)]])
  next
    case err
    obtain res b w1 where copy: "read_stderr (C P) (child m) (out_buffer m) w = Some (res, b, w1)"
        "filled (out_buffer m) res b" "io_on P (child_fds (C P) (child m)) w w1"
      using read_stderr_law [OF pl co(2) err(4)] by blast
    obtain src where src: "src \<in> child_fds (C P) (child m)" "copied_in lg src (out_buffer m) w b w1"
      using read_stderr_logs [OF pl l co(2) err(4) copy(1)] by blast
    have "read_child P (C P) (read_stderr (C P)) fd m s w = Some (x, m', s', w')"
      using run err by (simp add: on_readable_def)
    then show ?thesis by (rule read_child_relay [where copy = "read_stderr (C P)", OF l laws core r copy src])
  next
    case other
    then show ?thesis using run r by (simp add: on_readable_def)
  qed
qed

lemma handlers_relay:
  assumes "logs P lg" and "kernel_laws P ep K"
  shows "handlers_preserve (iosock_manager P (C P)) (\<lambda>m s w. mgr_inv P K cinv (C P) m s w \<and> relay F lg (C P) m w)"
proof -
  have "handler_preserves (\<lambda>m s w. mgr_inv P K cinv (C P) m s w \<and> relay F lg (C P) m w) h"
    if "\<And>fd m s w r m' s' w'. mgr_inv P K cinv (C P) m s w \<Longrightarrow> h fd m s w = Some (r, m', s', w') \<Longrightarrow>
        mgr_inv P K cinv (C P) m' s' w'"
      "\<And>fd m s w r m' s' w'. mgr_core K cinv (C P) m s w \<Longrightarrow> relay F lg (C P) m w \<Longrightarrow>
        h fd m s w = Some (r, m', s', w') \<Longrightarrow> relay F lg (C P) m' w'" for h
    unfolding handler_preserves_def using that mgr_invD(1) by meson
  note keep = this
  show ?thesis
    unfolding handlers_preserve_def
  proof (intro conjI)
    show "handler_preserves (\<lambda>m s w. mgr_inv P K cinv (C P) m s w \<and> relay F lg (C P) m w)
        (cm_on_readable (iosock_manager P (C P)))"
      unfolding iosock_manager_def ChannelManager.simps
      by (rule keep) (erule (1) on_readable_inv [OF assms(2)], erule (2) on_readable_relay [OF assms])
    show "handler_preserves (\<lambda>m s w. mgr_inv P K cinv (C P) m s w \<and> relay F lg (C P) m w)
        (cm_on_writable (iosock_manager P (C P)))"
      unfolding iosock_manager_def ChannelManager.simps
      by (rule keep) (erule (1) on_writable_inv [OF assms(2)], erule (2) on_writable_relay [OF assms])
    show "handler_preserves (\<lambda>m s w. mgr_inv P K cinv (C P) m s w \<and> relay F lg (C P) m w)
        (cm_on_hangup (iosock_manager P (C P)))"
      unfolding iosock_manager_def ChannelManager.simps
      by (rule keep) (rule conjunct2, erule (1) on_hangup_inv [OF assms(2)], erule (2) on_hangup_relay [OF assms(1)])
  qed
qed

lemma new_log:
  assumes l: "logs P lg" and new: "pollster_new P (iosock_manager P (C P)) m cfd w = Some (Ok p, w')"
  shows "lg w' = lg w \<and> channel_mgr p = m"
proof -
  obtain ep w1 where 1: "epoll_create P True w = (Ok ep, w1)"
    using new by (auto simp: pollster_new_def split: prod.splits io_result.splits)
  let ?ev = "event_new (EPOLLIN (plat_events P)) (fd_data cfd)"
  obtain w2 where 2: "epoll_ctl P ep EPOLL_CTL_ADD cfd ?ev w1 = (Ok (), w2)"
    using new 1 by (auto simp: pollster_new_def split: prod.splits io_result.splits)
  obtain s where 3: "initialize P (C P) m fd_set_new w2 = Some (m, s, w2)"
    using new 1 2 by (auto simp: pollster_new_def iosock_manager_def initialize_def split: bind_splits)
  let ?p = "\<lparr>poll_fd = ep, close_fd = cfd, poll_events = replicate POLLSTER_MAX_FDS
    (event_new (ev_empty (plat_events P)) 0), fd_set = s, channel_mgr = m\<rparr>"
  have up: "apply_poll_updates P ?p w2 = (Ok (), p, w')"
    using new 1 2 3
    by (auto simp: pollster_new_def iosock_manager_def Let_def split: prod.splits io_result.splits)
  have "lg w' = lg w2"
    by (rule apply_poll_updates_preserves [where Q = "\<lambda>w. lg w = lg w2", OF _ up]) (simp_all add: logsD(7) [OF l])
  then show ?thesis
    using logsD(6) [OF l, of True w] logsD(7) [OF l, of ep EPOLL_CTL_ADD cfd ?ev w1] 1 2 up
    by (auto simp: apply_poll_updates_def split: prod.splits)
qed

text \<open>The loop, from its construction to the end of any of its iterations.\<close>

lemma run_relays:
  assumes create: "creates_epoll P K w0" and start: "mgr_startable K cinv started (C P) m0 w0"
    and foreign: "kv_foreign K = [cfd \<mapsto> event_new (EPOLLIN (plat_events P)) (fd_data cfd)]"
    and l: "logs P lg" "lg w0 = []"
    and new: "pollster_new P (iosock_manager P (C P)) m0 cfd w0 = Some (Ok p0, w1)"
    and reach: "reaches P (iosock_manager P (C P)) p0 w1 p w"
    and run: "run_iteration P (iosock_manager P (C P)) p w = Some (x, p', w')"
  shows "relay (child_fds (C P) (child m0)) lg (C P) (channel_mgr p') w'"
proof -
  let ?cm = "\<lambda>P. iosock_manager P (C P)" and ?J = "relay (child_fds (C P) (child m0)) lg (C P)"
  note cm = iosock_channel_manager
  have p0: "kernel_laws P (poll_fd p0) K" "mgr_inv P K cinv (C P) (channel_mgr p0) (fd_set p0) w1"
      "polled_as_requested (plat_events P) K (fd_set p0) w1"
    using channel_manager.new_establishes [OF cm create start foreign] new by auto
  have "?J m0 w0"
    using start l(2) by (simp add: relay_def direction_ok_def mgr_startable_def)
  then have J0: "?J (channel_mgr p0) w1"
    using new_log [OF l(1) new] l(2) by (simp add: relay_def)
  note side = handlers_relay [OF l(1) p0(1), of "child_fds (C P) (child m0)"]
  have quiet: "?J m (snd (epoll_ctl P ep op fd ev v))" "?J m (snd (epoll_wait P ep t evs v))" if "?J m v" for m v ep op fd ev t evs
    using that logsD(7,8) [OF l(1)] by (auto intro: relay_same)
  have p: "kernel_laws P (poll_fd p) K" "mgr_inv P K cinv (C P) (channel_mgr p) (fd_set p) w"
    using channel_manager.reaches_keeps [OF cm reach p0] p0(1) by simp_all
  have "?J (channel_mgr p) w"
    by (rule channel_manager.reaches_keeps_side [where J = ?J, OF cm reach p0 J0 side]) (fact quiet)+
  then show ?thesis
    by (rule channel_manager.iteration_keeps_side [where J = ?J, OF cm p _ side _ _ run]) (fact quiet)+
qed

end

end
