(* ===== verification/End_To_End.thy ===== *)
theory End_To_End
  imports Relay Sample_Run
begin

text \<open>
  What a trace of the system calls of a run shows: the bytes of the child reach the outside, and the
  bytes of the clients reach the child, in order and each at most once.
\<close>

definition relayed ::
  "('c, 'w) ChildStdio \<Rightarrow> RawFd set \<Rightarrow> 'c IOSockChannelManager \<Rightarrow> io_call list \<Rightarrow> bool" where
  "relayed C F m log \<longleftrightarrow>
     subseq (delivered F log @ contents (out_buffer m)) (produced F log) \<and>
     (console m \<noteq> None \<and> stdin_fd C (child m) \<noteq> None \<and> length (produced F log) \<le> BUFFER_CAPACITY \<longrightarrow>
        delivered F log @ contents (out_buffer m) = produced F log) \<and>
     subseq (fed F log @ contents (in_buffer m)) (received F log) \<and>
     (length (received F log) \<le> BUFFER_CAPACITY \<longrightarrow>
        fed F log @ contents (in_buffer m) = received F log)"

lemma relay_relayed: "relay F lg C m w \<Longrightarrow> relayed C F m (lg w)"
  by (auto simp: relay_def direction_ok_def relayed_def)

lemma startable_logged:
  assumes "mgr_startable K cinv started C m w" and "child_fds C' (child m) = child_fds C (child m)"
  shows "mgr_startable (logged_view K) cinv started C' m (w, l)"
  using assms by (auto simp: mgr_startable_def roles_distinct_def role_defs)

lemma child_fds_logged [simp]:
  "child_fds (pipes_stdio (logged P)) c = child_fds (pipes_stdio P) c"
  "child_fds (pty_stdio (logged P)) c' = child_fds (pty_stdio P) c'"
  by (simp_all add: child_fds_def pipes_stdio_def pty_stdio_def)

lemma relayed_logged [simp]:
  "relayed (pipes_stdio (logged P)) F m log = relayed (pipes_stdio P) F m log"
  "relayed (pty_stdio (logged P)) F m' log = relayed (pty_stdio P) F m' log"
  by (simp_all add: relayed_def pipes_stdio_def pty_stdio_def)

section \<open>A logged run\<close>

text \<open>The child writes two bytes, the loop reads them, then the console takes them.\<close>

definition logged_sim :: "(sim_world \<times> io_call list) platform" where
  "logged_sim = logged sim_platform"

definition relay_world :: sim_world where
  "relay_world = sample_world\<lparr>sim_batches := [[\<lparr>events = 1, event_data = 4\<rparr>], [\<lparr>events = 4, event_data = 1\<rparr>]]\<rparr>"

definition relay_world1 :: sim_world where
  "relay_world1 = sample_world1\<lparr>sim_batches := [[\<lparr>events = 1, event_data = 4\<rparr>], [\<lparr>events = 4, event_data = 1\<rparr>]]\<rparr>"

definition relay_world2 :: sim_world where
  "relay_world2 = sample_world2\<lparr>sim_batches := [[\<lparr>events = 4, event_data = 1\<rparr>]]\<rparr>"

definition drained_buffer :: FlipBuffer where
  "drained_buffer = new_buffer\<lparr>read_page := 104 # 105 # replicate 32766 0, read_cursor := 2, read_max := 2\<rparr>"

definition relay_pollster3 :: "ChildPipes IOSockChannelManager Pollster" where
  "relay_pollster3 = sample_pollster\<lparr>
     poll_events := \<lparr>events = 4, event_data = 1\<rparr> # replicate 4 \<lparr>events = 0, event_data = 0\<rparr>,
     channel_mgr := sample_manager\<lparr>out_buffer := drained_buffer\<rparr>\<rparr>"

definition relay_world3 :: sim_world where
  "relay_world3 = relay_world2\<lparr>sim_interest := sample_interest, sim_out := (\<lambda>_. [])(1 := [104, 105]), sim_batches := []\<rparr>"

lemma logged_sim_call_simps [simp]:
  "plat_events logged_sim = linux_events"
  "sys_read logged_sim fd s x = (let n = min (length s) (length (sim_in (fst x) fd))
     in ((Ok n, take n (sim_in (fst x) fd) @ drop n s),
         (fst x)\<lparr>sim_in := (sim_in (fst x))(fd := drop n (sim_in (fst x) fd))\<rparr>,
         snd x @ [Call_read fd (take n (take n (sim_in (fst x) fd) @ drop n s))]))"
  "sys_write logged_sim fd s x = (Ok (length s), (fst x)\<lparr>sim_out := (sim_out (fst x))(fd := sim_out (fst x) fd @ s)\<rparr>,
     snd x @ [Call_write fd s])"
  "sys_flush logged_sim fd x = (Ok (), x)"
  "epoll_create logged_sim b x = unlogged (epoll_create sim_platform b) x"
  "epoll_ctl logged_sim ep op fd ev x = unlogged (epoll_ctl sim_platform ep op fd ev) x"
  "epoll_wait logged_sim ep t evs x = unlogged (epoll_wait sim_platform ep t evs) x"
  by (simp_all add: logged_sim_def logged_def unlogged_def Let_def read_calls_def write_calls_def)

lemma relay_new:
  "pollster_new logged_sim (iosock_manager logged_sim (pipes_stdio logged_sim)) sample_manager 7 (relay_world, []) =
     Some (Ok sample_pollster, relay_world1, [])"
  by (simp add: manager_ops registry_ops loop_ops sample_defs Let_def POLLSTER_MAX_FDS_def unlogged_def
      relay_world_def relay_world1_def)

lemma relay_read:
  assumes "sim_in (fst x) fd = [104, 105]"
  shows "channel_to_buffer (sys_read logged_sim fd) new_buffer x =
    Some (Ok (False, BecameNonEmpty), sample_buffer, (fst x)\<lparr>sim_in := (sim_in (fst x))(fd := [])\<rparr>,
      snd x @ [Call_read fd [104, 105]])"
  using assms
  by (simp add: channel_to_buffer_def read_or_drain_def read_from_def new_buffer_def heap_buffer_def
      BUFFER_CAPACITY_def slice_range_def Let_def usize_sub_def usize_add_def is_read_empty_def is_write_empty_def
      overwrite_def copy_outcome_def sample_buffer_def)

lemma relay_iteration:
  "run_iteration logged_sim (iosock_manager logged_sim (pipes_stdio logged_sim)) sample_pollster (relay_world1, []) =
     Some (Continue, sample_pollster2, relay_world2, [Call_read 4 [104, 105]])"
  by (simp add: manager_ops registry_ops loop_ops sample_defs Let_def on_readable_def client_stream_def
      read_child_def relay_read request_primary_output_writable_def sample_pollster2_def sample_fd_set2_def
      sample_world2_def fun_upd_idem unlogged_def relay_world1_def relay_world2_def)

lemma relay_write:
  "buffer_to_channel sample_buffer (fd_writer logged_sim fd) x =
    Some (Ok (False, BecameEmpty), drained_buffer, (fst x)\<lparr>sim_out := (sim_out (fst x))(fd := sim_out (fst x) fd @ [104, 105])\<rparr>,
      snd x @ [Call_write fd [104, 105]])"
  by (simp add: buffer_to_channel_def write_to_def new_buffer_def heap_buffer_def flip_buffers_def fd_writer_def
      BUFFER_CAPACITY_def slice_range_def Let_def usize_sub_def usize_add_def is_read_empty_def is_write_empty_def
      copy_outcome_def sample_buffer_def drained_buffer_def)

lemma relay_iteration2:
  "run_iteration logged_sim (iosock_manager logged_sim (pipes_stdio logged_sim)) sample_pollster2
      (relay_world2, [Call_read 4 [104, 105]]) =
     Some (Continue, relay_pollster3, relay_world3, [Call_read 4 [104, 105], Call_write 1 [104, 105]])"
  by (simp add: manager_ops registry_ops loop_ops sample_defs Let_def on_writable_def client_stream_def
      write_console_def relay_write sample_pollster2_def sample_fd_set2_def
      sample_world2_def fun_upd_idem unlogged_def relay_world2_def relay_world3_def relay_pollster3_def)

section \<open>The theorem\<close>

text \<open>C12. End to end, from the trace of the calls that read, write and close (\<open>logged\<close> lets any platform keep one): after
  every iteration of the loop, whatever the kernel, the child and the clients did and however the iteration ended,
  what was written outside the child, followed by what waits in \<^verbatim>\<open>out_buffer\<close>, is a subsequence of what was read from the child, and
  what was written to the child, followed by what waits in \<^verbatim>\<open>in_buffer\<close>, is a subsequence of what was read from clients: no
  byte is invented, duplicated, reordered or sent to the wrong side, also across clients and when
  descriptor numbers are used again. Nothing is lost either while at most 32768 bytes came in on that
  side and, for output, the console and the child's stdin are open. For a child on pipes and on a pty.\<close>

theorem bytes_relayed_in_order:
  assumes create: "creates_epoll P K w0"
    and foreign: "kv_foreign K = [cfd \<mapsto> event_new (EPOLLIN (plat_events P)) (fd_data cfd)]"
  shows "(mgr_startable K pipes_inv pipes_started (pipes_stdio P) m0 w0 \<and>
       pollster_new (logged P) (iosock_manager (logged P) (pipes_stdio (logged P))) m0 cfd (w0, []) = Some (Ok p0, x1) \<and>
       reaches (logged P) (iosock_manager (logged P) (pipes_stdio (logged P))) p0 x1 p x \<and>
       run_iteration (logged P) (iosock_manager (logged P) (pipes_stdio (logged P))) p x = Some (c, p', w', log) \<longrightarrow>
       relayed (pipes_stdio P) (child_fds (pipes_stdio P) (child m0)) (channel_mgr p') log) \<and>
    (mgr_startable K (\<lambda>_. True) pty_started (pty_stdio P) n0 w0 \<and>
       pollster_new (logged P) (iosock_manager (logged P) (pty_stdio (logged P))) n0 cfd (w0, []) = Some (Ok q0, y1) \<and>
       reaches (logged P) (iosock_manager (logged P) (pty_stdio (logged P))) q0 y1 q y \<and>
       run_iteration (logged P) (iosock_manager (logged P) (pty_stdio (logged P))) q y = Some (d, q', v', log') \<longrightarrow>
       relayed (pty_stdio P) (child_fds (pty_stdio P) (child n0)) (channel_mgr q') log')"
proof (intro conjI impI; elim conjE)
  have cr: "creates_epoll (logged P) (logged_view K) (w0, [])" by (rule logged_creates [OF create])
  have f: "kv_foreign (logged_view K) = [cfd \<mapsto> event_new (EPOLLIN (plat_events (logged P))) (fd_data cfd)]"
    using foreign by simp
  assume *: "mgr_startable K pipes_inv pipes_started (pipes_stdio P) m0 w0"
    "pollster_new (logged P) (iosock_manager (logged P) (pipes_stdio (logged P))) m0 cfd (w0, []) = Some (Ok p0, x1)"
    "reaches (logged P) (iosock_manager (logged P) (pipes_stdio (logged P))) p0 x1 p x"
    "run_iteration (logged P) (iosock_manager (logged P) (pipes_stdio (logged P))) p x = Some (c, p', w', log)"
  have "relay (child_fds (pipes_stdio (logged P)) (child m0)) snd (pipes_stdio (logged P)) (channel_mgr p') (w', log)"
    by (rule pipes_log.run_relays [OF cr startable_logged [OF *(1)] f logs_logged _ *(2-4)]) simp_all
  from relay_relayed [OF this] show "relayed (pipes_stdio P) (child_fds (pipes_stdio P) (child m0)) (channel_mgr p') log"
    by simp
next
  have cr: "creates_epoll (logged P) (logged_view K) (w0, [])" by (rule logged_creates [OF create])
  have f: "kv_foreign (logged_view K) = [cfd \<mapsto> event_new (EPOLLIN (plat_events (logged P))) (fd_data cfd)]"
    using foreign by simp
  assume *: "mgr_startable K (\<lambda>_. True) pty_started (pty_stdio P) n0 w0"
    "pollster_new (logged P) (iosock_manager (logged P) (pty_stdio (logged P))) n0 cfd (w0, []) = Some (Ok q0, y1)"
    "reaches (logged P) (iosock_manager (logged P) (pty_stdio (logged P))) q0 y1 q y"
    "run_iteration (logged P) (iosock_manager (logged P) (pty_stdio (logged P))) q y = Some (d, q', v', log')"
  have "relay (child_fds (pty_stdio (logged P)) (child n0)) snd (pty_stdio (logged P)) (channel_mgr q') (v', log')"
    by (rule pty_log.run_relays [OF cr startable_logged [OF *(1)] f logs_logged _ *(2-4)]) simp_all
  from relay_relayed [OF this] show "relayed (pty_stdio P) (child_fds (pty_stdio P) (child n0)) (channel_mgr q') log'"
    by simp
qed

theorem bytes_relayed_in_order_witness:
  "relayed (pipes_stdio sim_platform) {3, 4, 5} (channel_mgr relay_pollster3) [Call_read 4 [104, 105], Call_write 1 [104, 105]] \<and>
   delivered {3, 4, 5} [Call_read 4 [104, 105], Call_write 1 [104, 105]] = [104, 105]"
proof -
  have start: "mgr_startable sample_view pipes_inv pipes_started (pipes_stdio sim_platform) sample_manager relay_world"
    using sample_startable by (simp add: relay_world_def mgr_startable_def sample_view_def)
  have create: "creates_epoll sim_platform sample_view relay_world"
    by (auto simp: creates_epoll_def sample_view_def relay_world_def sample_world_def)
  have fds: "child_fds (pipes_stdio sim_platform) (child sample_manager) = {3, 4, 5}"
    by (auto simp: child_fds_def pipes_stdio_def sample_manager_defs)
  have "relayed (pipes_stdio sim_platform) (child_fds (pipes_stdio sim_platform) (child sample_manager))
      (channel_mgr relay_pollster3) [Call_read 4 [104, 105], Call_write 1 [104, 105]]"
    using bytes_relayed_in_order [OF create sample_foreign] start relay_new reaches_step [OF reaches_refl relay_iteration]
      relay_iteration2
    unfolding logged_sim_def by blast
  then show ?thesis unfolding fds by simp
qed

end
