(* ===== verification/Delivery.thy ===== *)
theory Delivery
  imports Loop_Properties End_To_End
begin

text \<open>
  Liveness of the event loop: buffered bytes reach a descriptor that accepts them, within as many iterations as there are
  bytes, and the loop then stops asking for writability.
\<close>

section \<open>A descriptor that accepts bytes\<close>

text \<open>\<open>J n\<close> describes the worlds in which, for the next \<open>n\<close> waits, nothing happens but that the descriptor \<open>fd\<close> accepts
  bytes: a wait reports \<open>fd\<close>, and only \<open>fd\<close>, as writable if epoll polls it for writing; a write takes some of what it is
  given; a flush succeeds; the mask of a descriptor that epoll knows can be changed.\<close>

definition only_writable :: "events_api \<Rightarrow> Events \<Rightarrow> bool" where
  "only_writable E a \<longleftrightarrow> ev_contains E a (EPOLLOUT E) \<and>
     \<not> ev_contains E a (EPOLLIN E) \<and> \<not> ev_contains E a (EPOLLERR E) \<and> \<not> ev_contains E a (EPOLLHUP E)"

definition accepts_bytes ::
  "'w platform \<Rightarrow> 'w kernel_view \<Rightarrow> RawFd \<Rightarrow> RawFd \<Rightarrow> (nat \<Rightarrow> 'w \<Rightarrow> bool) \<Rightarrow> bool" where
  "accepts_bytes P K ep fd J \<longleftrightarrow>
     (\<forall>n evs w. J (Suc n) w \<and> evs \<noteq> [] \<and> kernel_polls (plat_events P) K w fd (EPOLLOUT (plat_events P)) \<longrightarrow>
        (\<exists>ev evs' w'. epoll_wait P ep (-1) evs w = ((Ok 1, ev # evs'), w') \<and> J n w' \<and>
           data_fd (event_data ev) = fd \<and> only_writable (plat_events P) (events ev))) \<and>
     (\<forall>n s w. J n w \<and> s \<noteq> [] \<longrightarrow> (\<exists>k w'. sys_write P fd s w = (Ok k, w') \<and> 0 < k \<and> J n w')) \<and>
     (\<forall>n w. J n w \<longrightarrow> (\<exists>w'. sys_flush P fd w = (Ok (), w') \<and> J n w')) \<and>
     (\<forall>n x ev w. J n w \<and> kv_interest K w x \<noteq> None \<longrightarrow> (\<exists>w'. epoll_ctl P ep EPOLL_CTL_MOD x ev w = (Ok (), w') \<and> J n w'))"

lemma accepts_bytesD:
  assumes "accepts_bytes P K ep fd J" and "J n w"
  shows "s \<noteq> [] \<Longrightarrow> \<exists>k w'. sys_write P fd s w = (Ok k, w') \<and> 0 < k \<and> J n w'"
    "\<exists>w'. sys_flush P fd w = (Ok (), w') \<and> J n w'"
    "kv_interest K w x \<noteq> None \<Longrightarrow> \<exists>w'. epoll_ctl P ep EPOLL_CTL_MOD x ev w = (Ok (), w') \<and> J n w'"
  using assms unfolding accepts_bytes_def by blast+

section \<open>The two directions\<close>

text \<open>\<open>To_outside\<close> are the bytes of the child on their way to the client or the console, \<open>To_child\<close> those of the client on their
  way to the child's stdin. \<open>may_write\<close> excludes what \<open>Known_Defects\<close> is about: output to a client that was marked read-only, and
  input of a client that has gone.\<close>

datatype side = To_outside | To_child

fun held :: "side \<Rightarrow> 'c IOSockChannelManager \<Rightarrow> u8 list" where
  "held To_outside m = contents (out_buffer m)"
| "held To_child m = contents (in_buffer m)"

fun side_buffer :: "side \<Rightarrow> FlipBuffer \<Rightarrow> 'c IOSockChannelManager \<Rightarrow> 'c IOSockChannelManager" where
  "side_buffer To_outside b m = m\<lparr>out_buffer := b\<rparr>"
| "side_buffer To_child b m = m\<lparr>in_buffer := b\<rparr>"

fun target :: "('c, 'w) ChildStdio \<Rightarrow> side \<Rightarrow> 'c IOSockChannelManager \<Rightarrow> RawFd option" where
  "target C To_outside m = primary_output m"
| "target C To_child m = stdin_fd C (child m)"

fun may_write :: "side \<Rightarrow> 'c IOSockChannelManager \<Rightarrow> bool" where
  "may_write To_outside m \<longleftrightarrow> client_socket m = None \<or> client_socket_writable m"
| "may_write To_child m \<longleftrightarrow> client_socket_readable m"

lemma side_buffer_simps [simp]:
  "held d (side_buffer d b m) = contents b" "target C d (side_buffer e b m) = target C d m"
  "may_write d (side_buffer e b m) = may_write d m" "side_buffer d b (side_buffer d b' m) = side_buffer d b m"
  by (cases d; cases e; simp add: client_socket_writable_def client_socket_readable_def)+

text \<open>Some number of iterations that continue, and where they should lead: nothing is left in the buffer, what was in it was
  written to \<open>fd\<close> in its order, nothing else was read, written or closed, nothing else of the manager changed, and epoll no longer
  polls \<open>fd\<close> for writing.\<close>

primrec turns ::
  "'w platform \<Rightarrow> ('m, 'w) ChannelManager \<Rightarrow> nat \<Rightarrow> 'm Pollster \<Rightarrow> 'w \<Rightarrow> ('m Pollster \<times> 'w) option" where
  "turns P cm 0 p w = Some (p, w)"
| "turns P cm (Suc n) p w =
     (case run_iteration P cm p w of
        Some (Continue, p, w) \<Rightarrow> turns P cm n p w
      | _ \<Rightarrow> None)"

definition delivered_all ::
  "'w platform \<Rightarrow> 'w kernel_view \<Rightarrow> ('w \<Rightarrow> io_call list) \<Rightarrow> side \<Rightarrow> RawFd \<Rightarrow> 'c IOSockChannelManager Pollster \<Rightarrow> 'w \<Rightarrow>
     'c IOSockChannelManager Pollster \<Rightarrow> 'w \<Rightarrow> bool" where
  "delivered_all P K lg d fd p w p' w' \<longleftrightarrow>
     held d (channel_mgr p') = [] \<and>
     (\<exists>chunks. lg w' = lg w @ map (Call_write fd) chunks \<and> concat chunks = held d (channel_mgr p)) \<and>
     (\<exists>b. channel_mgr p' = side_buffer d b (channel_mgr p)) \<and>
     \<not> kernel_polls (plat_events P) K w' fd (EPOLLOUT (plat_events P))"

section \<open>One write\<close>

definition took ::
  "('w \<Rightarrow> io_call list) \<Rightarrow> RawFd \<Rightarrow> u8 list \<Rightarrow> 'w \<Rightarrow> nat \<Rightarrow> u8 list \<Rightarrow> 'w \<Rightarrow> bool" where
  "took lg fd xs w k ys w' \<longleftrightarrow> 0 < k \<and> k \<le> length xs \<and> ys = drop k xs \<and> lg w' = lg w @ [Call_write fd (take k xs)]"

definition after_write :: "u8 list \<Rightarrow> copy_outcome" where
  "after_write ys = Ok (False, if ys = [] then BecameEmpty else NoChange)"

lemma accepted_write:
  assumes W: "write_contract W" "flush_fn W = sys_flush P fd"
      "\<And>s w k w'. sys_write P fd s w = (Ok k, w') \<Longrightarrow> write_fn W s w = (Ok k, w')"
    and lg: "logs P lg" and acc: "accepts_bytes P K ep fd J" and b: "buf_inv b" "contents b \<noteq> []" and J: "J n w"
  shows "\<exists>k b' w'. buffer_to_channel b W w = Some (after_write (contents b'), b', w') \<and>
    took lg fd (contents b) w k (contents b') w' \<and> J n w'"
proof -
  from write_to_total [OF b(1) W(1), of w] obtain cr ch b' w' where
    r: "write_to W b w = Some ((cr, ch), b', w')" "drain_spec W b w (cr, ch) b' w'" by auto
  have ne: "data_slice b \<noteq> []" using data_slice_nonempty [OF b(1)] b(2) by blast
  obtain k w1 where wr: "sys_write P fd (data_slice b) w = (Ok k, w1)" "0 < k" "J n w1"
    using accepts_bytesD(1) [OF acc J ne] by blast
  obtain w2 where fl: "sys_flush P fd w1 = (Ok (), w2)" "J n w2"
    using accepts_bytesD(2) [OF acc wr(3)] by blast
  note sp = r(2) [unfolded drain_spec_def, simplified b(2) W(2) W(3) [OF wr(1)], simplified, unfolded fl(1), simplified]
  obtain rest where c: "contents b = data_slice b @ rest"
    using contents_data_slice [OF b(1)] by blast
  have k: "k \<le> length (data_slice b)" "contents b' = drop k (contents b)" using sp by simp_all
  have "buffer_to_channel b W w = Some (after_write (contents b'), b', w2)"
    using r(1) sp wr(2) by (simp add: buffer_to_channel_def copy_outcome_def after_write_def)
  moreover have "lg w2 = lg w @ [Call_write fd (take k (contents b))]"
    using logsD(2) [OF lg wr(1)] logsD(4) [OF lg, of fd w1] fl(1) k(1) c by (simp add: write_calls_def)
  moreover have "k \<le> length (contents b)" using k(1) c by simp
  ultimately show ?thesis using wr(2) k(2) fl(2) unfolding took_def by blast
qed

text \<open>The child's stdin takes bytes like any descriptor.\<close>

locale delivering_stdio = logged_stdio C cinv started
  for C :: "'w platform \<Rightarrow> ('c, 'w) ChildStdio" and cinv :: "'c \<Rightarrow> bool" and started :: "'c \<Rightarrow> bool" +
  assumes write_stdin_accepted: "platform_laws P opened \<Longrightarrow> logs P lg \<Longrightarrow> accepts_bytes P K ep fd J \<Longrightarrow> buf_inv b \<Longrightarrow>
      contents b \<noteq> [] \<Longrightarrow> J n w \<Longrightarrow> stdin_fd (C P) c = Some fd \<Longrightarrow>
      \<exists>k b' w'. write_stdin (C P) c b w = Some (after_write (contents b'), b', w') \<and>
        took lg fd (contents b) w k (contents b') w' \<and> J n w'"

interpretation pipes_delivery: delivering_stdio pipes_stdio pipes_inv pipes_started
proof (unfold_locales, goal_cases)
  case (1 P opened lg K ep fd J b n w c)
  then show ?case
    using accepted_write [OF platform_lawsD(3) [OF 1(1)] _ _ 1(2-6)] by (simp add: pipes_ops fd_writer_def)
qed

interpretation pty_delivery: delivering_stdio pty_stdio "\<lambda>_. True" pty_started
proof (unfold_locales, goal_cases)
  case (1 P opened lg K ep fd J b n w c)
  then show ?case
    using accepted_write [OF pty_writer_contract [OF platform_lawsD(3) [OF 1(1)]] _ _ 1(2-6)]
    by (simp add: pty_ops pty_writer_def ignore_eio_def)
qed

section \<open>One iteration\<close>

lemma update_existing_accepted:
  assumes laws: "kernel_laws P ep K" and lg: "logs P lg" and acc: "accepts_bytes P K ep fd J"
  shows "J n w \<Longrightarrow> (\<forall>p \<in> set ps. kv_interest K w (pfd_fd p) \<noteq> None) \<Longrightarrow>
    \<exists>ps' w'. update_existing (update_fd P ep) ps w = (Ok (), ps', w') \<and> J n w' \<and> lg w' = lg w"
proof (induction ps arbitrary: w)
  case (Cons p ps)
  show ?case
  proof (cases "pfd_apply_updates p")
    case (Pair change p')
    have fd: "pfd_fd p' = pfd_fd p"
      using Pair by (auto simp: pfd_apply_updates_def Let_def split: if_splits)
    show ?thesis
    proof (cases change)
      case None
      have "\<forall>q \<in> set ps. kv_interest K w (pfd_fd q) \<noteq> None" using Cons.prems(2) by simp
      from Cons.IH [OF Cons.prems(1) this] show ?thesis using Pair None by auto
    next
      case (Some ev)
      obtain w1 where w1: "epoll_ctl P ep EPOLL_CTL_MOD (pfd_fd p) ev w = (Ok (), w1)" "J n w1"
        using accepts_bytesD(3) [OF acc Cons.prems(1), of "pfd_fd p" ev] Cons.prems(2) by auto
      have "lg w1 = lg w" using logsD(7) [OF lg, of ep EPOLL_CTL_MOD "pfd_fd p" ev w] w1(1) by simp
      moreover have "\<forall>q \<in> set ps. kv_interest K w1 (pfd_fd q) \<noteq> None"
        using epoll_lawsD(2) [OF laws w1(1)] Cons.prems(2) by auto
      from Cons.IH [OF w1(2) this] obtain ps' w2 where
        "update_existing (update_fd P ep) ps w1 = (Ok (), ps', w2)" "J n w2" "lg w2 = lg w1" by blast
      ultimately show ?thesis
        using Pair Some w1(1) fd by (simp add: update_fd_def [of P ep "pfd_fd p" ev w])
    qed
  qed
qed simp

lemma nothing_pending:
  assumes "reg_inv s" and "processed s = dom (requested s)"
  shows "new s = []"
proof -
  have "fst ` set (new s) \<subseteq> processed s" using assms(2) dom_requested [of s] by blast
  moreover have "fst ` set (new s) \<inter> processed s = {}"
    using assms(1) by (simp add: reg_inv_def processed_def) blast
  ultimately have "fst ` set (new s) = {}" by (simp only: Int_absorb2)
  then show ?thesis by simp
qed

context delivering_stdio
begin

lemma writes_held:
  assumes laws: "kernel_laws P ep K" and lg: "logs P lg" and acc: "accepts_bytes P K ep' fd J" and J: "J n w"
    and core: "mgr_core K cinv (C P) m s w" and pr: "processed s = dom (requested s)"
    and out: "target (C P) d m = Some fd" and wr: "may_write d m" and ne: "held d m \<noteq> []"
  shows "\<exists>k b s' w'. on_writable P (C P) fd m s w = Some (Ok (), side_buffer d b m, s', w') \<and>
    took lg fd (held d m) w k (contents b) w' \<and> J n w' \<and>
    (if contents b = [] then modify fd (poll_for_write (plat_events P) False) s = Some s' else s' = s)"
proof -
  note co = mgr_coreD [OF core] and pl = kernel_lawsD(1) [OF laws]
  have "fd \<in> processed s"
    using out co(6) pr by (cases d) (auto simp: primary_output_def role_defs split: option.splits)
  then obtain s1 where s1: "modify fd (poll_for_write (plat_events P) False) s = Some s1"
    by (rule set_write_total [OF core])
  have step: ?thesis
    if "on_writable P (C P) fd m s w = Some (Ok (), side_buffer d b m, if contents b = [] then s1 else s, w')"
      "took lg fd (held d m) w k (contents b) w'" "J n w'" for k b w'
    using that s1 by (intro exI [of _ k] exI [of _ b] exI [of _ "if contents b = [] then s1 else s"] exI [of _ w']) simp
  show ?thesis
  proof (cases d)
    case To_outside
    obtain k b w' where c: "buffer_to_channel (out_buffer m) (fd_writer P fd) w = Some (after_write (contents b), b, w')"
      "took lg fd (contents (out_buffer m)) w k (contents b) w'" "J n w'"
      using accepted_write [OF platform_lawsD(3) [OF pl, of fd] _ _ lg acc co(2) _ J] ne To_outside by (auto simp: fd_writer_def)
    show ?thesis
      by (rule step [of b w' k], cases "client_socket m")
        (use To_outside c s1 out wr in \<open>simp_all add: primary_output_def on_writable_def client_stream_def
          write_console_def write_client_def after_write_def\<close>)
  next
    case To_child
    then have i: "stdin_fd (C P) (child m) = Some fd" using out by simp
    obtain k b w' where c: "write_stdin (C P) (child m) (in_buffer m) w = Some (after_write (contents b), b, w')"
      "took lg fd (contents (in_buffer m)) w k (contents b) w'" "J n w'"
      using write_stdin_accepted [OF pl lg acc co(1) _ J i] ne To_child by auto
    have "console m \<noteq> Some fd" "client_stream m fd = None"
      using roles_distinctD(1,2) [OF co(4)] child_fdsI(1) [OF i] by (auto simp: client_stream_def split: option.splits)
    then show ?thesis
      by (intro step [of b w' k])
        (use To_child c s1 i wr in \<open>simp_all add: on_writable_def write_child_def after_write_def\<close>)
  qed
qed

lemma delivery_turn:
  assumes laws: "kernel_laws P (poll_fd p) K" and lg: "logs P lg" and acc: "accepts_bytes P K (poll_fd p) fd J"
    and J: "J (Suc n) w"
    and inv: "mgr_inv P K cinv (C P) (channel_mgr p) (fd_set p) w" and pol: "polled_as_requested (plat_events P) K (fd_set p) w"
    and out: "target (C P) d (channel_mgr p) = Some fd" and wr: "may_write d (channel_mgr p)"
    and ne: "held d (channel_mgr p) \<noteq> []" and cfd: "close_fd p \<noteq> fd" and evs: "poll_events p \<noteq> []"
  shows "\<exists>k b p' w'. run_iteration P (iosock_manager P (C P)) p w = Some (Continue, p', w') \<and>
    took lg fd (held d (channel_mgr p)) w k (contents b) w' \<and> J n w' \<and>
    channel_mgr p' = side_buffer d b (channel_mgr p) \<and> poll_events p' \<noteq> [] \<and>
    (contents b = [] \<longrightarrow> \<not> wants_write (plat_events P) (requested (fd_set p')) fd)"
proof -
  let ?E = "plat_events P" and ?m = "channel_mgr p"
  note E = kernel_lawsD(3) [OF laws] and core = mgr_invD(1) [OF inv]
  have "kernel_polls ?E K w fd (EPOLLOUT ?E)"
    using wakeups_inv(1) [OF inv pol] ne out by (cases d) (simp_all add: streams_polled_def Let_def)
  then obtain ev evs' w1 where wait: "epoll_wait P (poll_fd p) (-1) (poll_events p) w = ((Ok 1, ev # evs'), w1)"
    and J1: "J n w1" and ev: "data_fd (event_data ev) = fd" "only_writable ?E (events ev)"
    using acc J evs unfolding accepts_bytes_def by blast
  have k1: "kv_opened K w1 = kv_opened K w" "kv_interest K w1 = kv_interest K w" "lg w1 = lg w"
    using epoll_lawsD(4,5) [OF laws, of "-1" "poll_events p" w] logsD(8) [OF lg, of "poll_fd p" "-1" "poll_events p" w]
    by (simp_all add: wait)
  have pr: "processed (fd_set p) = dom (requested (fd_set p))" "gone (fd_set p) = {}"
    using pol by (simp_all add: polled_as_requested_def)
  have inv1: "mgr_inv P K cinv (C P) ?m (fd_set p) w1" by (rule mgr_inv_world [OF inv k1(1,2)])
  obtain k b s' w2 where h: "on_writable P (C P) fd ?m (fd_set p) w1 = Some (Ok (), side_buffer d b ?m, s', w2)"
    "took lg fd (held d ?m) w1 k (contents b) w2" "J n w2"
    "if contents b = [] then modify fd (poll_for_write ?E False) (fd_set p) = Some s' else s' = fd_set p"
    using writes_held [OF laws lg acc J1 mgr_invD(1) [OF inv1] pr(1) out wr ne] by (elim exE conjE)
  have inv2: "mgr_inv P K cinv (C P) (side_buffer d b ?m) s' w2"
    by (rule on_writable_inv [OF laws inv1 h(1)])
  have act: "ev_contains ?E (from_bits_truncate ?E (events ev)) f = ev_contains ?E (events ev) f" if "f \<in> ev_flags ?E" for f
    by (rule events_lawsD(7) [OF E that])
  have "dispatch P (iosock_manager P (C P)) (from_bits_truncate ?E (events ev)) fd ?m (fd_set p) w1 =
      Some (Ok (), side_buffer d b ?m, s', w2)"
    using ev(2) h(1) by (simp add: dispatch_def only_writable_def act ev_flags_def call_if_def and_then_def Let_def iosock_manager_def)
  then have pe: "process_events P (iosock_manager P (C P)) (close_fd p) (first_events 1 (ev # evs')) False ?m (fd_set p) w1 =
      Some (Ok False, side_buffer d b ?m, s', w2)"
    using ev(1) cfd by (simp add: first_events_def Let_def)
  let ?p = "p\<lparr>poll_events := ev # evs', channel_mgr := side_buffer d b ?m, fd_set := s'\<rparr>"
  have st: "processed s' = processed (fd_set p)" "dom (requested s') = dom (requested (fd_set p))" "gone s' = {}"
    "contents b = [] \<Longrightarrow> \<not> wants_write ?E (requested s') fd"
    using h(4) pr(2) fdset.set_write_SomeD [OF mgr_coreD(5) [OF core] _ E] by (auto split: if_splits)
  have sync: "syncable K (fd_set ?p) w2" using mgr_inv_syncable [OF inv2] by simp
  have "processed s' = dom (requested s')" using st(1,2) pr(1) by simp
  then have none: "new s' = []" "removed s' = []"
    using nothing_pending [OF mgr_coreD(5) [OF mgr_invD(1) [OF inv2]]] st(3) by (simp_all add: gone_def)
  have "\<forall>q \<in> set (existing s'). kv_interest K w2 (pfd_fd q) \<noteq> None"
    using sync st(3) dom_applied [of s'] by (auto simp: syncable_def map_add_def processed_def split: option.splits)
  then obtain ps' w3 where "update_existing (update_fd P (poll_fd p)) (existing s') w2 = (Ok (), ps', w3)" "J n w3" "lg w3 = lg w2"
    using update_existing_accepted [OF laws lg acc h(3)] by blast
  then obtain p3 where ap: "apply_poll_updates P ?p w2 = (Ok (), p3, w3)" and p3: "J n w3" "lg w3 = lg w2"
    by (simp add: apply_poll_updates_def apply_updates_def none)
  from apply_poll_updates_settles [OF _ sync ap] laws
  have eq: "p3 = ?p\<lparr>fd_set := fd_set p3\<rparr>" and "settled_as ?E K s' (fd_set p3) w2 w3" by simp_all
  then have "wants_write ?E (requested (fd_set p3)) = wants_write ?E (requested s')" by (simp add: settled_as_def)
  moreover have "run_iteration P (iosock_manager P (C P)) p w = Some (Continue, p3, w3)"
    using wait pe ap by (simp add: run_iteration_def wait_result_def Let_def)
  moreover have "channel_mgr p3 = side_buffer d b ?m" "poll_events p3 \<noteq> []"
    by (subst eq, simp)+
  moreover have "took lg fd (held d ?m) w k (contents b) w3" using h(2) p3(2) k1(3) by (simp add: took_def)
  ultimately show ?thesis
    using st(4) p3(1) by (intro exI [of _ k] exI [of _ b] exI [of _ p3] exI [of _ w3]) simp
qed

text \<open>The iterations until the buffer is empty.\<close>

lemma delivery_turns:
  assumes laws: "kernel_laws P ep K" and lg: "logs P lg" and acc: "accepts_bytes P K ep fd J"
  shows "poll_fd p = ep \<Longrightarrow> close_fd p \<noteq> fd \<Longrightarrow> mgr_inv P K cinv (C P) (channel_mgr p) (fd_set p) w \<Longrightarrow>
    polled_as_requested (plat_events P) K (fd_set p) w \<Longrightarrow> target (C P) d (channel_mgr p) = Some fd \<Longrightarrow>
    may_write d (channel_mgr p) \<Longrightarrow> held d (channel_mgr p) \<noteq> [] \<Longrightarrow> poll_events p \<noteq> [] \<Longrightarrow>
    length (held d (channel_mgr p)) \<le> n \<Longrightarrow> J n w \<Longrightarrow>
    \<exists>i p' w'. i \<le> length (held d (channel_mgr p)) \<and>
      turns P (iosock_manager P (C P)) i p w = Some (p', w') \<and> delivered_all P K lg d fd p w p' w'"
proof (induction n arbitrary: p w)
  case (Suc n)
  note laws' = laws [folded Suc.prems(1)]
  let ?xs = "held d (channel_mgr p)"
  obtain k b p1 w1 where t: "run_iteration P (iosock_manager P (C P)) p w = Some (Continue, p1, w1)"
    "took lg fd ?xs w k (contents b) w1" "J n w1" "channel_mgr p1 = side_buffer d b (channel_mgr p)" "poll_events p1 \<noteq> []"
    "contents b = [] \<longrightarrow> \<not> wants_write (plat_events P) (requested (fd_set p1)) fd"
    using delivery_turn [OF laws' lg acc [folded Suc.prems(1)] Suc.prems(10,3,4,5,6,7,2,8)] by (elim exE conjE)
  note tk = t(2) [unfolded took_def]
  from channel_manager.iteration_keeps [OF iosock_channel_manager laws' Suc.prems(3,4) t(1)]
  have keeps: "poll_fd p1 = ep" "close_fd p1 \<noteq> fd" "mgr_inv P K cinv (C P) (channel_mgr p1) (fd_set p1) w1"
    "polled_as_requested (plat_events P) K (fd_set p1) w1" using Suc.prems(1,2) by simp_all
  have m1: "target (C P) d (channel_mgr p1) = Some fd" "may_write d (channel_mgr p1)" "held d (channel_mgr p1) = contents b"
    using Suc.prems(5,6) t(4) by simp_all
  show ?case
  proof (cases "contents b = []")
    case True
    have "fd \<in> dom (requested (fd_set p1))"
      using m1(1) mgr_coreD(6) [OF mgr_invD(1) [OF keeps(3)]]
      by (cases d) (auto simp: primary_output_def role_defs split: option.splits)
    then have "\<not> kernel_polls (plat_events P) K w1 fd (EPOLLOUT (plat_events P))"
      using kernel_polls_requested(2) [OF keeps(4)] t(6) True by simp
    moreover have "lg w1 = lg w @ map (Call_write fd) [?xs]" using True tk by simp
    ultimately have "delivered_all P K lg d fd p w p1 w1"
      unfolding delivered_all_def using t(4) True m1(3) by (intro conjI exI [of _ "[?xs]"] exI [of _ b]) simp_all
    then show ?thesis using t(1) tk by (intro exI [of _ 1] exI [of _ p1] exI [of _ w1]) simp
  next
    case False
    have len: "length (held d (channel_mgr p1)) + k = length ?xs" using tk m1(3) by simp
    have ne: "held d (channel_mgr p1) \<noteq> []" using False m1(3) by simp
    have "length (held d (channel_mgr p1)) \<le> n" using len Suc.prems(9) conjunct1 [OF tk] by linarith
    from Suc.IH [OF keeps m1(1,2) ne t(5) this t(3)] obtain i p' w' where
      IH: "i \<le> length (held d (channel_mgr p1))" "turns P (iosock_manager P (C P)) i p1 w1 = Some (p', w')"
      "delivered_all P K lg d fd p1 w1 p' w'" by blast
    note fin = IH(3) [unfolded delivered_all_def]
    from fin obtain chunks where "lg w' = lg w1 @ map (Call_write fd) chunks" "concat chunks = contents b"
      using m1(3) by auto
    then have ch: "lg w' = lg w @ map (Call_write fd) (take k ?xs # chunks)" "concat (take k ?xs # chunks) = ?xs"
      using tk by simp_all
    obtain b' where "channel_mgr p' = side_buffer d b' (channel_mgr p)" using fin t(4) by auto
    then have "delivered_all P K lg d fd p w p' w'"
      unfolding delivered_all_def using fin ch by (intro conjI exI [of _ "take k ?xs # chunks"] exI [of _ b']) simp_all
    moreover have "turns P (iosock_manager P (C P)) (Suc i) p w = Some (p', w')" using t(1) IH(2) by simp
    ultimately show ?thesis using IH(1) len tk by (intro exI [of _ "Suc i"] exI [of _ p'] exI [of _ w']) simp
  qed
qed simp

end

section \<open>Delivery\<close>

text \<open>A state in which bytes wait for a descriptor that accepts them for as many waits as there are bytes.\<close>

definition delivery_ready ::
  "'w platform \<Rightarrow> 'w kernel_view \<Rightarrow> ('c, 'w) ChildStdio \<Rightarrow> (nat \<Rightarrow> 'w \<Rightarrow> bool) \<Rightarrow> side \<Rightarrow> RawFd \<Rightarrow>
     'c IOSockChannelManager Pollster \<Rightarrow> 'w \<Rightarrow> bool" where
  "delivery_ready P K C J d fd p w \<longleftrightarrow>
     (let m = channel_mgr p in
      held d m \<noteq> [] \<and> target C d m = Some fd \<and> may_write d m \<and> poll_events p \<noteq> [] \<and>
      accepts_bytes P K (poll_fd p) fd J \<and> J (length (held d m)) w)"

context delivering_stdio
begin

lemma ready_delivered:
  assumes laws: "kernel_laws P (poll_fd p) K" and lg: "logs P lg"
    and inv: "mgr_inv P K cinv (C P) (channel_mgr p) (fd_set p) w" and pol: "polled_as_requested (plat_events P) K (fd_set p) w"
    and foreign: "close_fd p \<in> dom (kv_foreign K)" and rdy: "delivery_ready P K (C P) J d fd p w"
  shows "\<exists>i p' w'. i \<le> length (held d (channel_mgr p)) \<and>
    turns P (iosock_manager P (C P)) i p w = Some (p', w') \<and> delivered_all P K lg d fd p w p' w'"
proof -
  note r = rdy [unfolded delivery_ready_def Let_def]
  have "fd \<in> role_fds (C P) (channel_mgr p)"
    using r by (cases d) (auto simp: primary_output_def role_defs split: option.splits)
  then have "close_fd p \<noteq> fd" using foreign mgr_coreD(12) [OF mgr_invD(1) [OF inv]] by blast
  then show ?thesis
    using delivery_turns [OF laws lg _ refl _ inv pol _ _ _ _ order.refl] r by blast
qed

end

text \<open>C23. Buffered bytes are delivered. In any state that the loop reaches, let output of the child wait for the primary output (the
  client, else the console), or input of the client for the child's stdin, and let the descriptor accept bytes, at least one with
  each write, while nothing else happens. Then within at most as many iterations as there are bytes the loop has written all of
  them, in order and each once, to that descriptor, has read, written and closed nothing else, has changed nothing else of
  the manager, and no longer polls the descriptor for writing. Excepted are output for a client that was marked read-only and
  input of a client that has gone or sends no more. Stated for a child on pipes and for a child on a pty.\<close>

theorem buffered_bytes_are_delivered:
  assumes "creates_epoll P K w0" and "logs P lg"
    and "kv_foreign K = [cfd \<mapsto> event_new (EPOLLIN (plat_events P)) (fd_data cfd)]"
  shows "(mgr_startable K pipes_inv pipes_started (pipes_stdio P) m0 w0 \<and>
       pollster_new P (iosock_manager P (pipes_stdio P)) m0 cfd w0 = Some (Ok p0, w1) \<and>
       reaches P (iosock_manager P (pipes_stdio P)) p0 w1 p w \<and> delivery_ready P K (pipes_stdio P) J d fd p w \<longrightarrow>
       (\<exists>n p' w'. n \<le> length (held d (channel_mgr p)) \<and>
          turns P (iosock_manager P (pipes_stdio P)) n p w = Some (p', w') \<and> delivered_all P K lg d fd p w p' w')) \<and>
    (mgr_startable K (\<lambda>_. True) pty_started (pty_stdio P) n0 w0 \<and>
       pollster_new P (iosock_manager P (pty_stdio P)) n0 cfd w0 = Some (Ok q0, v1) \<and>
       reaches P (iosock_manager P (pty_stdio P)) q0 v1 q v \<and> delivery_ready P K (pty_stdio P) J d fd q v \<longrightarrow>
       (\<exists>n q' v'. n \<le> length (held d (channel_mgr q)) \<and>
          turns P (iosock_manager P (pty_stdio P)) n q v = Some (q', v') \<and> delivered_all P K lg d fd q v q' v'))"
proof (intro conjI impI; elim conjE)
  assume start: "mgr_startable K pipes_inv pipes_started (pipes_stdio P) m0 w0"
    and run: "pollster_new P (iosock_manager P (pipes_stdio P)) m0 cfd w0 = Some (Ok p0, w1)"
      "reaches P (iosock_manager P (pipes_stdio P)) p0 w1 p w" and rdy: "delivery_ready P K (pipes_stdio P) J d fd p w"
  have p0: "kernel_laws P (poll_fd p0) K" "close_fd p0 = cfd"
    "mgr_inv P K pipes_inv (pipes_stdio P) (channel_mgr p0) (fd_set p0) w1"
    "polled_as_requested (plat_events P) K (fd_set p0) w1"
    using pipes_mgr.new_establishes [OF assms(1) start assms(3)] run(1) by simp_all
  show "\<exists>n p' w'. n \<le> length (held d (channel_mgr p)) \<and>
      turns P (iosock_manager P (pipes_stdio P)) n p w = Some (p', w') \<and> delivered_all P K lg d fd p w p' w'"
    using pipes_delivery.ready_delivered [OF _ assms(2) _ _ _ rdy] pipes_mgr.reaches_keeps [OF run(2) p0(1,3,4)]
      p0(1,2) assms(3) by simp
next
  assume start: "mgr_startable K (\<lambda>_. True) pty_started (pty_stdio P) n0 w0"
    and run: "pollster_new P (iosock_manager P (pty_stdio P)) n0 cfd w0 = Some (Ok q0, v1)"
      "reaches P (iosock_manager P (pty_stdio P)) q0 v1 q v" and rdy: "delivery_ready P K (pty_stdio P) J d fd q v"
  have q0: "kernel_laws P (poll_fd q0) K" "close_fd q0 = cfd"
    "mgr_inv P K (\<lambda>_. True) (pty_stdio P) (channel_mgr q0) (fd_set q0) v1"
    "polled_as_requested (plat_events P) K (fd_set q0) v1"
    using pty_mgr.new_establishes [OF assms(1) start assms(3)] run(1) by simp_all
  show "\<exists>n q' v'. n \<le> length (held d (channel_mgr q)) \<and>
      turns P (iosock_manager P (pty_stdio P)) n q v = Some (q', v') \<and> delivered_all P K lg d fd q v q' v'"
    using pty_delivery.ready_delivered [OF _ assms(2) _ _ _ rdy] pty_mgr.reaches_keeps [OF run(2) q0(1,3,4)]
      q0(1,2) assms(3) by simp
qed

text \<open>On the reference kernel: the child has written two bytes, and two waits report the console as writable.\<close>

definition console_batch :: "Event list" where
  "console_batch = [\<lparr>events = 4, event_data = 1\<rparr>]"

definition delivery_batches :: "Event list list" where
  "delivery_batches = [\<lparr>events = 1, event_data = 4\<rparr>] # replicate 2 console_batch"

definition console_accepts :: "nat \<Rightarrow> sim_world \<times> io_call list \<Rightarrow> bool" where
  "console_accepts n x \<longleftrightarrow> sim_batches (fst x) = replicate n console_batch"

lemma console_accepts_bytes: "accepts_bytes logged_sim (logged_view sample_view) 8 1 console_accepts"
proof -
  have "\<exists>ev evs' x'. epoll_wait logged_sim 8 (-1) evs x = ((Ok 1, ev # evs'), x') \<and> console_accepts n x' \<and>
      data_fd (event_data ev) = 1 \<and> only_writable linux_events (events ev)"
    if "console_accepts (Suc n) x" "evs \<noteq> []" for n evs x
    using that by (cases evs) (simp_all add: console_accepts_def console_batch_def unlogged_def only_writable_def data_fd_def Let_def)
  moreover have "kv_interest (logged_view sample_view) x fd \<noteq> None \<Longrightarrow> console_accepts n x \<Longrightarrow>
      \<exists>x'. epoll_ctl logged_sim 8 EPOLL_CTL_MOD fd ev x = (Ok (), x') \<and> console_accepts n x'" for n x fd ev
    by (simp add: console_accepts_def unlogged_def sample_view_def)
  ultimately show ?thesis
    unfolding accepts_bytes_def by (auto simp: console_accepts_def)
qed

theorem buffered_bytes_are_delivered_witness:
  "\<exists>n p' w'. n \<le> 2 \<and>
     turns logged_sim (iosock_manager logged_sim (pipes_stdio logged_sim)) n sample_pollster2
       (sample_world2\<lparr>sim_batches := replicate 2 console_batch\<rparr>, [Call_read 4 [104, 105]]) = Some (p', w') \<and>
     delivered_all logged_sim (logged_view sample_view) snd To_outside 1 sample_pollster2
       (sample_world2\<lparr>sim_batches := replicate 2 console_batch\<rparr>, [Call_read 4 [104, 105]]) p' w'"
proof -
  let ?cm = "iosock_manager logged_sim (pipes_stdio logged_sim)"
  let ?start = "(sample_world\<lparr>sim_batches := delivery_batches\<rparr>, [])"
  let ?new = "(sample_world1\<lparr>sim_batches := delivery_batches\<rparr>, [])"
  let ?wait = "(sample_world2\<lparr>sim_batches := replicate 2 console_batch\<rparr>, [Call_read 4 [104, 105]])"
  have new: "pollster_new logged_sim ?cm sample_manager 7 ?start = Some (Ok sample_pollster, ?new)"
    by (simp add: manager_ops registry_ops loop_ops sample_defs Let_def POLLSTER_MAX_FDS_def unlogged_def)
  have "run_iteration logged_sim ?cm sample_pollster ?new = Some (Continue, sample_pollster2, ?wait)"
    by (simp add: manager_ops registry_ops loop_ops sample_defs Let_def on_readable_def client_stream_def
      read_child_def relay_read request_primary_output_writable_def sample_pollster2_def sample_fd_set2_def
      sample_world2_def fun_upd_idem unlogged_def delivery_batches_def)
  from reaches_step [OF reaches_refl this] have reach: "reaches logged_sim ?cm sample_pollster ?new sample_pollster2 ?wait" .
  have "creates_epoll sim_platform sample_view (sample_world\<lparr>sim_batches := delivery_batches\<rparr>)"
    by (auto simp: creates_epoll_def sample_view_def sample_world_def)
  then have create: "creates_epoll logged_sim (logged_view sample_view) ?start"
    unfolding logged_sim_def by (rule logged_creates)
  have start: "mgr_startable (logged_view sample_view) pipes_inv pipes_started (pipes_stdio logged_sim) sample_manager ?start"
    unfolding logged_sim_def
    by (rule startable_logged [of _ _ _ "pipes_stdio sim_platform"])
      (use sample_startable in \<open>simp_all add: mgr_startable_def sample_view_def sample_world_def\<close>)
  have foreign: "kv_foreign (logged_view sample_view) = [7 \<mapsto> event_new (EPOLLIN (plat_events logged_sim)) (fd_data 7)]"
    using sample_foreign by simp
  have ready: "delivery_ready logged_sim (logged_view sample_view) (pipes_stdio logged_sim) console_accepts To_outside 1 sample_pollster2 ?wait"
    using console_accepts_bytes
    by (simp add: delivery_ready_def sample_pollster2_def sample_pollster_def primary_output_def sample_manager_defs
        console_accepts_def)
  have "logs logged_sim snd" "length (held To_outside (channel_mgr sample_pollster2)) = 2"
    by (simp_all add: logged_sim_def sample_pollster2_def)
  then show ?thesis
    using mp [OF conjunct1 [OF buffered_bytes_are_delivered [OF create _ foreign]]
        conjI [OF start conjI [OF new conjI [OF reach ready]]], of snd] by simp
qed

end
