(* ===== verification/Unit_Tests.thy ===== *)
theory Unit_Tests
  imports Flip_Buffer Polled_Fd Reference_Kernel
begin

text \<open>
  The unit tests of \<^verbatim>\<open>src/src/buffer.rs\<close> and \<^verbatim>\<open>src/src/polled_fd.rs\<close>, one definition per test, run
  against the definitions of \<^verbatim>\<open>FlipBuffer\<close> and \<^verbatim>\<open>PolledFdSet\<close>. A test is a \<open>unit option\<close>: \<open>None\<close> is a
  panic, that of a failed assertion included. The streams are those of the standard library that
  the tests use: \<^verbatim>\<open>Cursor\<close> for reading and writing and \<^verbatim>\<open>Vec<u8>\<close> for writing. The proofs follow the two
  halves of the buffer's contents through a test, as with a queue made of two lists, so the full
  pages of 32768 bytes are never written out.
\<close>

section \<open>Assertions and streams\<close>

definition assert_eq :: "'a \<Rightarrow> 'a \<Rightarrow> unit option" where
  "assert_eq expected actual = (if expected = actual then Some () else None)"

record Cursor =
  get_ref :: "u8 list"
  cursor_position :: nat

definition cursor_new :: "u8 list \<Rightarrow> Cursor" where
  "cursor_new xs = \<lparr>get_ref = xs, cursor_position = 0\<rparr>"

definition set_position :: "nat \<Rightarrow> Cursor \<Rightarrow> Cursor" where
  "set_position p c = c\<lparr>cursor_position := p\<rparr>"

definition cursor_read :: "Cursor Read" where
  "cursor_read s c = (let rest = drop (cursor_position c) (get_ref c); n = min (length s) (length rest)
     in ((Ok n, take n rest @ drop n s), c\<lparr>cursor_position := cursor_position c + n\<rparr>))"

definition cursor_writer :: "Cursor Write" where
  "cursor_writer = \<lparr>write_fn = (\<lambda>s c. let pos = min (cursor_position c) (length (get_ref c));
        n = min (length s) (length (get_ref c) - pos)
      in (Ok n, c\<lparr>get_ref := overwrite (get_ref c) pos (take n s), cursor_position := cursor_position c + n\<rparr>)),
     flush_fn = (\<lambda>c. (Ok (), c))\<rparr>"

definition vec_writer :: "u8 list Write" where
  "vec_writer = \<lparr>write_fn = (\<lambda>s v. (Ok (length s), v @ s)), flush_fn = (\<lambda>v. (Ok (), v))\<rparr>"

text \<open>\<^verbatim>\<open>(a..b).map(|x| x as u8).collect::<Vec<u8>>()\<close>, and a loop that assigns \<^verbatim>\<open>v[i] = f(i)\<close> for the
  indices of a list.\<close>

definition byte_range :: "nat \<Rightarrow> nat \<Rightarrow> u8 list" where
  "byte_range a b = map of_nat [a..<b]"

primrec assign_loop :: "(nat \<Rightarrow> u8) \<Rightarrow> nat list \<Rightarrow> u8 list \<Rightarrow> u8 list option" where
  "assign_loop f [] v = Some v"
| "assign_loop f (i # is) v = (if i < length v then assign_loop f is (v[i := f i]) else None)"

section \<open>The tests of buffer.rs\<close>

definition input_empty_buffer :: "unit option" where
  "input_empty_buffer = do {
     let cursor = cursor_new [];
     (r, buffer, cursor) \<leftarrow> read_from cursor_read new_buffer cursor;
     assert_eq (IOCompleted 0, NoChange) r
   }"

definition input_empty_read_page :: "unit option" where
  "input_empty_read_page = do {
     let cursor = cursor_new (byte_range 0 10);
     (r, buffer, cursor) \<leftarrow> read_from cursor_read new_buffer cursor;
     assert_eq (IOCompleted 10, BecameNonEmpty) r
   }"

definition input_with_partial_read_page :: "unit option" where
  "input_with_partial_read_page = do {
     let input1 = byte_range 0 10;
     let input2 = byte_range 10 20;
     (r, buffer, cursor) \<leftarrow> read_from cursor_read new_buffer (cursor_new input1);
     assert_eq (IOCompleted 10, BecameNonEmpty) r;
     (r, buffer, cursor) \<leftarrow> read_from cursor_read buffer (cursor_new input2);
     assert_eq (IOCompleted 10, NoChange) r
   }"

definition input_with_full_read_page :: "unit option" where
  "input_with_full_read_page = do {
     let input1 = byte_range 0 BUFFER_CAPACITY;
     let input2 = byte_range 0 10;
     (r, buffer, cursor) \<leftarrow> read_from cursor_read new_buffer (cursor_new input1);
     assert_eq (IOCompleted BUFFER_CAPACITY, BecameNonEmpty) r;
     (r, buffer, cursor) \<leftarrow> read_from cursor_read buffer (cursor_new input2);
     assert_eq (IOCompleted 10, NoChange) r
   }"

definition input_split_across_read_and_write_page :: "unit option" where
  "input_split_across_read_and_write_page = do {
     let buffer_and_half = BUFFER_CAPACITY + BUFFER_CAPACITY div 2;
     let input1 = byte_range 0 buffer_and_half;
     (r, buffer, cursor) \<leftarrow> read_from cursor_read new_buffer (cursor_new input1);
     assert_eq (IOCompleted BUFFER_CAPACITY, BecameNonEmpty) r;
     (r, buffer, cursor) \<leftarrow> read_from cursor_read buffer cursor;
     assert_eq (IOCompleted (buffer_and_half - BUFFER_CAPACITY), NoChange) r
   }"

definition input_full_read_and_write_pages :: "unit option" where
  "input_full_read_and_write_pages = do {
     let input1 = byte_range 0 BUFFER_CAPACITY;
     let input2 = input1;
     let input3 = byte_range 0 10;
     (r, buffer, cursor) \<leftarrow> read_from cursor_read new_buffer (cursor_new input1);
     assert_eq (IOCompleted BUFFER_CAPACITY, BecameNonEmpty) r;
     (r, buffer, cursor) \<leftarrow> read_from cursor_read buffer (cursor_new input2);
     assert_eq (IOCompleted BUFFER_CAPACITY, NoChange) r;
     (r, buffer, cursor) \<leftarrow> read_from cursor_read buffer (cursor_new input3);
     assert_eq (BufferNotReady, NoChange) r
   }"

definition output_empty_buffer :: "unit option" where
  "output_empty_buffer = do {
     (r, buffer, output) \<leftarrow> write_to vec_writer new_buffer [];
     assert_eq (BufferNotReady, NoChange) r
   }"

definition output_partial_write_page :: "unit option" where
  "output_partial_write_page = do {
     let input = byte_range 0 10;
     let output = cursor_new (replicate 10 0);
     (r, buffer, cursor) \<leftarrow> read_from cursor_read new_buffer (cursor_new input);
     assert_eq (IOCompleted 10, BecameNonEmpty) r;
     (r, buffer, output) \<leftarrow> write_to cursor_writer buffer output;
     assert_eq (IOCompleted 10, BecameEmpty) r;
     assert_eq (byte_range 0 10) (get_ref output)
   }"

definition output_partial_write_page_small_buffer :: "unit option" where
  "output_partial_write_page_small_buffer = do {
     let input1 = byte_range 0 7;
     let input2 = byte_range 7 10;
     let output = cursor_new (replicate 5 0);
     (r, buffer, cursor) \<leftarrow> read_from cursor_read new_buffer (cursor_new input1);
     assert_eq (IOCompleted 7, BecameNonEmpty) r;
     (r, buffer, cursor) \<leftarrow> read_from cursor_read buffer (cursor_new input2);
     assert_eq (IOCompleted 3, NoChange) r;
     (r, buffer, output) \<leftarrow> write_to cursor_writer buffer output;
     assert_eq (IOCompleted 5, NoChange) r;
     assert_eq (byte_range 0 5) (get_ref output);
     let output = set_position 0 output;
     (r, buffer, output) \<leftarrow> write_to cursor_writer buffer output;
     assert_eq (IOCompleted 5, BecameEmpty) r;
     assert_eq (byte_range 5 10) (get_ref output)
   }"

definition output_split_across_write_and_read_page :: "unit option" where
  "output_split_across_write_and_read_page = do {
     let buffer_and_half = BUFFER_CAPACITY + BUFFER_CAPACITY div 2;
     let input = byte_range 0 buffer_and_half;
     (r, buffer, cursor1) \<leftarrow> read_from cursor_read new_buffer (cursor_new input);
     assert_eq (IOCompleted BUFFER_CAPACITY, BecameNonEmpty) r;
     (r, buffer, cursor1) \<leftarrow> read_from cursor_read buffer cursor1;
     assert_eq (IOCompleted (buffer_and_half - BUFFER_CAPACITY), NoChange) r;
     let cursor2 = cursor_new (heap_buffer buffer_and_half);
     let cursor2_check = heap_buffer buffer_and_half;
     (r, buffer, cursor2) \<leftarrow> write_to cursor_writer buffer cursor2;
     assert_eq (IOCompleted BUFFER_CAPACITY, NoChange) r;
     cursor2_check \<leftarrow> assign_loop of_nat [0..<BUFFER_CAPACITY] cursor2_check;
     assert_eq cursor2_check (get_ref cursor2);
     let cursor2 = set_position 0 cursor2;
     (r, buffer, cursor2) \<leftarrow> write_to cursor_writer buffer cursor2;
     assert_eq (IOCompleted (buffer_and_half - BUFFER_CAPACITY), BecameEmpty) r;
     let filled = buffer_and_half - BUFFER_CAPACITY;
     cursor2_check \<leftarrow> assign_loop (\<lambda>i. of_nat (i + BUFFER_CAPACITY)) [0..<filled] cursor2_check;
     assert_eq cursor2_check (get_ref cursor2)
   }"

definition discard_empty :: "unit option" where
  "discard_empty = do {
     let (change, buffer) = discard new_buffer;
     assert_eq NoChange change;
     (r, buffer, output) \<leftarrow> write_to vec_writer new_buffer [];
     assert_eq (BufferNotReady, NoChange) r
   }"

definition discard_write_buffer_no_flip :: "unit option" where
  "discard_write_buffer_no_flip = do {
     let input = byte_range 0 10;
     (r, buffer, cursor) \<leftarrow> read_from cursor_read new_buffer (cursor_new input);
     assert_eq (IOCompleted 10, BecameNonEmpty) r;
     let (change, buffer) = discard buffer;
     assert_eq BecameEmpty change;
     (r, buffer, output) \<leftarrow> write_to vec_writer buffer [];
     assert_eq (BufferNotReady, NoChange) r
   }"

definition discard_write_buffer_with_flip :: "unit option" where
  "discard_write_buffer_with_flip = do {
     let input1 = byte_range 0 BUFFER_CAPACITY;
     let input2 = byte_range 0 10;
     (r, buffer, cursor) \<leftarrow> read_from cursor_read new_buffer (cursor_new input1);
     assert_eq (IOCompleted BUFFER_CAPACITY, BecameNonEmpty) r;
     (r, buffer, cursor) \<leftarrow> read_from cursor_read buffer (cursor_new input2);
     assert_eq (IOCompleted 10, NoChange) r;
     let (change, buffer) = discard buffer;
     assert_eq NoChange change;
     (r, buffer, output) \<leftarrow> write_to vec_writer buffer [];
     assert_eq (IOCompleted BUFFER_CAPACITY, BecameEmpty) r;
     assert_eq (byte_range 0 BUFFER_CAPACITY) output
   }"

section \<open>The tests of polled_fd.rs\<close>

text \<open>The event sets are the parameter \<open>E\<close>. \<open>updates_apply\<close> is \<^verbatim>\<open>updates.apply_updates(&mut fd_set).unwrap()\<close>.\<close>

fun unwrap :: "'a io_result \<Rightarrow> 'a option" where
  "unwrap (Ok x) = Some x"
| "unwrap (Err _) = None"

definition updates_apply ::
  "events_api \<Rightarrow> FdSetUpdates \<Rightarrow> PolledFdSet \<Rightarrow> (FdSetUpdates \<times> PolledFdSet) option" where
  "updates_apply E updates fd_set =
     (case recorded_apply_updates E updates fd_set of (r, fd_set', updates') \<Rightarrow>
        do { unwrap r; Some (updates', fd_set') })"

definition updates_reset :: "FdSetUpdates \<Rightarrow> FdSetUpdates" where
  "updates_reset u = u\<lparr>upd_new := [], upd_updates := [], upd_removed := []\<rparr>"

definition new_pfd_has_no_updates :: "events_api \<Rightarrow> unit option" where
  "new_pfd_has_no_updates E = do {
     let event = event_new (ev_empty E) 0;
     let pfd = polled_fd_new E 0 event;
     assert_eq None (fst (pfd_apply_updates pfd))
   }"

definition enable_write_polling_sets_epollout :: "events_api \<Rightarrow> unit option" where
  "enable_write_polling_sets_epollout E = do {
     let event = event_new (ev_empty E) 0;
     let pfd = polled_fd_new E 0 event;
     let pfd = poll_for_write E True pfd;
     let new_events = event_new (EPOLLOUT E) 0;
     assert_eq (Some new_events) (fst (pfd_apply_updates pfd))
   }"

definition disable_write_polling_clears_epollout :: "events_api \<Rightarrow> unit option" where
  "disable_write_polling_clears_epollout E = do {
     let event = event_new (EPOLLOUT E) 0;
     let pfd = polled_fd_new E 0 event;
     let pfd = poll_for_write E False pfd;
     let new_events = event_new (ev_empty E) 0;
     assert_eq (Some new_events) (fst (pfd_apply_updates pfd))
   }"

definition enable_write_polling_noop :: "events_api \<Rightarrow> unit option" where
  "enable_write_polling_noop E = do {
     let event = event_new (EPOLLOUT E) 0;
     let pfd = polled_fd_new E 0 event;
     let pfd = poll_for_write E True pfd;
     assert_eq None (fst (pfd_apply_updates pfd))
   }"

definition disable_write_polling_noop :: "events_api \<Rightarrow> unit option" where
  "disable_write_polling_noop E = do {
     let event = event_new (ev_empty E) 0;
     let pfd = polled_fd_new E 0 event;
     let pfd = poll_for_write E False pfd;
     assert_eq None (fst (pfd_apply_updates pfd))
   }"

definition enable_read_polling_sets_epollin :: "events_api \<Rightarrow> unit option" where
  "enable_read_polling_sets_epollin E = do {
     let event = event_new (ev_empty E) 0;
     let pfd = polled_fd_new E 0 event;
     let pfd = poll_for_read E True pfd;
     let new_events = event_new (EPOLLIN E) 0;
     assert_eq (Some new_events) (fst (pfd_apply_updates pfd))
   }"

definition disable_read_polling_clears_epollin :: "events_api \<Rightarrow> unit option" where
  "disable_read_polling_clears_epollin E = do {
     let event = event_new (EPOLLIN E) 0;
     let pfd = polled_fd_new E 0 event;
     let pfd = poll_for_read E False pfd;
     let new_events = event_new (ev_empty E) 0;
     assert_eq (Some new_events) (fst (pfd_apply_updates pfd))
   }"

definition enable_read_polling_noop :: "events_api \<Rightarrow> unit option" where
  "enable_read_polling_noop E = do {
     let event = event_new (EPOLLIN E) 0;
     let pfd = polled_fd_new E 0 event;
     let pfd = poll_for_read E True pfd;
     assert_eq None (fst (pfd_apply_updates pfd))
   }"

definition disable_read_polling_noop :: "events_api \<Rightarrow> unit option" where
  "disable_read_polling_noop E = do {
     let event = event_new (ev_empty E) 0;
     let pfd = polled_fd_new E 0 event;
     let pfd = poll_for_read E False pfd;
     assert_eq None (fst (pfd_apply_updates pfd))
   }"

definition fdset_empty_apply_updates :: "events_api \<Rightarrow> unit option" where
  "fdset_empty_apply_updates E = do {
     let fd_set = fd_set_new;
     let updates = updates_new;
     (updates, fd_set) \<leftarrow> updates_apply E updates fd_set;
     assert_eq 0 (length (upd_new updates));
     assert_eq 0 (length (upd_updates updates));
     assert_eq 0 (length (upd_removed updates))
   }"

definition fdset_register_passed_to_newfn :: "events_api \<Rightarrow> unit option" where
  "fdset_register_passed_to_newfn E = do {
     let fd_set = fd_set_new;
     fd_set \<leftarrow> register 0 (EPOLLIN E) fd_set;
     let updates = updates_new;
     (updates, fd_set) \<leftarrow> updates_apply E updates fd_set;
     assert_eq [(0, EPOLLIN E)] (upd_new updates);
     assert_eq 0 (length (upd_updates updates))
   }"

definition fdset_register_multiple :: "events_api \<Rightarrow> unit option" where
  "fdset_register_multiple E = do {
     let fd_set = fd_set_new;
     fd_set \<leftarrow> register 0 (EPOLLIN E) fd_set;
     fd_set \<leftarrow> register 1 (EPOLLOUT E) fd_set;
     let updates = updates_new;
     (updates, fd_set) \<leftarrow> updates_apply E updates fd_set;
     assert_eq [(0, EPOLLIN E), (1, EPOLLOUT E)] (upd_new updates);
     assert_eq 0 (length (upd_updates updates))
   }"

definition fdset_modify_passed_to_updatefn :: "events_api \<Rightarrow> unit option" where
  "fdset_modify_passed_to_updatefn E = do {
     let fd_set = fd_set_new;
     fd_set \<leftarrow> register 0 (EPOLLIN E) fd_set;
     let updates = updates_new;
     (updates, fd_set) \<leftarrow> updates_apply E updates fd_set;
     let updates = updates_reset updates;
     fd_set \<leftarrow> modify 0 (poll_for_write E True) fd_set;
     (updates, fd_set) \<leftarrow> updates_apply E updates fd_set;
     let new_events = ev_set E (EPOLLIN E) (EPOLLOUT E) True;
     let new_event = event_new new_events 0;
     assert_eq 0 (length (upd_new updates));
     assert_eq [(0, new_event)] (upd_updates updates)
   }"

definition fdset_modify_nochange :: "events_api \<Rightarrow> unit option" where
  "fdset_modify_nochange E = do {
     let fd_set = fd_set_new;
     fd_set \<leftarrow> register 0 (EPOLLIN E) fd_set;
     let updates = updates_new;
     (updates, fd_set) \<leftarrow> updates_apply E updates fd_set;
     let updates = updates_reset updates;
     fd_set \<leftarrow> modify 0 (poll_for_read E True) fd_set;
     (updates, fd_set) \<leftarrow> updates_apply E updates fd_set;
     assert_eq 0 (length (upd_new updates));
     assert_eq 0 (length (upd_updates updates))
   }"

definition fdset_unregister_passed_to_deletefn :: "events_api \<Rightarrow> unit option" where
  "fdset_unregister_passed_to_deletefn E = do {
     let fd_set = fd_set_new;
     fd_set \<leftarrow> register 0 (EPOLLIN E) fd_set;
     let updates = updates_new;
     (updates, fd_set) \<leftarrow> updates_apply E updates fd_set;
     let updates = updates_reset updates;
     fd_set \<leftarrow> unregister 0 fd_set;
     (updates, fd_set) \<leftarrow> updates_apply E updates fd_set;
     assert_eq 0 (length (upd_new updates));
     assert_eq 0 (length (upd_updates updates));
     assert_eq [0] (upd_removed updates);
     fd_set \<leftarrow> register 0 (EPOLLIN E) fd_set;
     Some ()
   }"

definition fdset_duplicate_register_panics :: "events_api \<Rightarrow> unit option" where
  "fdset_duplicate_register_panics E = do {
     let fd_set = fd_set_new;
     fd_set \<leftarrow> register 0 (EPOLLIN E) fd_set;
     fd_set \<leftarrow> register 0 (EPOLLIN E) fd_set;
     Some ()
   }"

definition fdset_register_after_updates_panics :: "events_api \<Rightarrow> unit option" where
  "fdset_register_after_updates_panics E = do {
     let fd_set = fd_set_new;
     let updates = updates_new;
     fd_set \<leftarrow> register 0 (EPOLLIN E) fd_set;
     (updates, fd_set) \<leftarrow> updates_apply E updates fd_set;
     fd_set \<leftarrow> register 0 (EPOLLIN E) fd_set;
     Some ()
   }"

definition fdset_unregister_nonexisting_panics :: "events_api \<Rightarrow> unit option" where
  "fdset_unregister_nonexisting_panics E = do {
     let fd_set = fd_set_new;
     fd_set \<leftarrow> unregister 1 fd_set;
     Some ()
   }"

definition fdset_unregister_just_registered_panics :: "events_api \<Rightarrow> unit option" where
  "fdset_unregister_just_registered_panics E = do {
     let fd_set = fd_set_new;
     fd_set \<leftarrow> register 0 (EPOLLIN E) fd_set;
     fd_set \<leftarrow> unregister 0 fd_set;
     Some ()
   }"

section \<open>The buffer as two lists of bytes\<close>

text \<open>\<open>holds b R W\<close>: \<open>R\<close> is what is left of the read page, \<open>W\<close> what was put into the write page.\<close>

definition holds :: "FlipBuffer \<Rightarrow> u8 list \<Rightarrow> u8 list \<Rightarrow> bool" where
  "holds b R W \<longleftrightarrow> buf_inv b \<and> readable_part b = R \<and> take (write_cursor b) (write_page b) = W"

lemma holds_new: "holds new_buffer [] []"
  using contents_new by (simp add: holds_def contents_def new_buffer_def readable_part_def buf_inv_new [unfolded new_buffer_def])

lemma holds_lengths:
  assumes "holds b R W"
  shows "length W = write_cursor b" "length R = read_max b - read_cursor b"
    "R = [] \<longleftrightarrow> read_cursor b = read_max b" "contents b = R @ W"
  using assms length_readable_part [of b] buf_invD [of b]
  by (auto simp: holds_def contents_def simp flip: length_0_conv)

lemma holds_flip:
  assumes "holds b [] W" shows "holds (flip_buffers b) W []"
proof -
  have "readable_part (flip_buffers b) = W" "write_cursor (flip_buffers b) = 0"
    using assms by (simp_all add: holds_def flip_buffers_def readable_part_def)
  then show ?thesis using assms by (simp add: holds_def buf_inv_flip)
qed

lemma read_flip_holds:
  assumes "holds b R W"
  shows "holds (read_flip b) (if length W = BUFFER_CAPACITY \<and> R = [] then W else R)
           (if length W = BUFFER_CAPACITY \<and> R = [] then [] else W)"
  using assms holds_lengths [OF assms] holds_flip [of b W] by (auto simp: read_flip_def)

lemma write_flip_holds:
  assumes "holds b R W"
  shows "holds (write_flip b) (if R = [] then W else R) (if R = [] then [] else W)"
  using assms holds_lengths [OF assms] holds_flip [of b W] by (auto simp: write_flip_def)

lemma holds_fill:
  assumes b: "holds b R W" and len: "length s' = BUFFER_CAPACITY - length W" and n: "n \<le> length s'"
  shows "holds (b\<lparr>write_page := overwrite (write_page b) (write_cursor b) s',
            write_cursor := write_cursor b + n\<rparr>) R (W @ take n s')"
proof -
  have wc: "write_cursor b = length W" using holds_lengths [OF b] by simp
  have inv: "buf_inv b" and parts: "readable_part b = R" "take (length W) (write_page b) = W"
    using b wc by (simp_all add: holds_def)
  have "take (length W + n) (overwrite (write_page b) (length W) s') = W @ take n s'"
    using take_overwrite_into [of "length W" "write_page b" n s'] n buf_invD [OF inv] wc parts by simp
  then show ?thesis
    using contents_overwrite(1) [OF inv, of s' n] len n wc parts by (simp add: holds_def readable_part_def)
qed

section \<open>Stepping through a test\<close>

text \<open>One rule per operation: if the rest of the test succeeds on what the operation leaves, the
  test succeeds from here.\<close>

lemma fill_step:
  assumes b: "holds b R W" and room: "length W < BUFFER_CAPACITY \<or> R = []"
    and W': "W' = (if length W = BUFFER_CAPACITY then [] else W)"
    and R': "R' = (if length W = BUFFER_CAPACITY then W else R)"
    and rest: "rest = drop (cursor_position c) (get_ref c)"
    and n: "n = min (BUFFER_CAPACITY - length W') (length rest)"
    and goal: "\<And>b'. holds b' R' (W' @ take n rest) \<Longrightarrow>
       k ((IOCompleted n, if 0 < n \<and> R = [] \<and> W = [] then BecameNonEmpty else NoChange), b',
          c\<lparr>cursor_position := cursor_position c + n\<rparr>) = Some ()"
  shows "Option.bind (read_from cursor_read b c) k = Some ()"
proof -
  have inv: "buf_inv b" using b by (simp add: holds_def)
  have Wle: "length W \<le> BUFFER_CAPACITY" using holds_lengths(1) [OF b] buf_invD(5) [OF inv] by simp
  have nf: "\<not> buffer_full b" using holds_lengths [OF b] room by (auto simp: buffer_full_def)
  have f: "holds (read_flip b) R' W'"
  proof -
    have *: "(length W = BUFFER_CAPACITY \<and> R = []) = (length W = BUFFER_CAPACITY)"
      using room Wle by auto
    show ?thesis using read_flip_holds [OF b] unfolding * W' R' by simp
  qed
  have sp: "length (space_slice b) = BUFFER_CAPACITY - length W'"
    using space_slice_length [OF inv] holds_lengths(1) [OF f] by simp
  let ?s' = "take n rest @ drop n (space_slice b)"
  have rd: "cursor_read (space_slice b) c = ((Ok n, ?s'), c\<lparr>cursor_position := cursor_position c + n\<rparr>)"
    by (simp add: cursor_read_def Let_def sp n rest)
  have len: "length ?s' = BUFFER_CAPACITY - length W'" "n \<le> length ?s'" "take n ?s' = take n rest"
    using n sp by (auto simp: min_def)
  have add: "usize_add (write_cursor (read_flip b)) n = Some (write_cursor (read_flip b) + n)"
    using holds_lengths(1) [OF f] n buf_invD(5) [OF flip_keeps(1) [OF inv]] by (intro usize_add_capacity) auto
  have e: "contents b = [] \<longleftrightarrow> R = [] \<and> W = []" using holds_lengths(4) [OF b] by simp
  show ?thesis
    using goal holds_fill [OF f len(1,2)] unfolding len(3)
    by (simp add: read_from_not_full [OF inv nf] rd Let_def add e)
qed

lemma full_step:
  assumes b: "holds b R W" and "length W = BUFFER_CAPACITY" "R \<noteq> []"
    and goal: "k ((BufferNotReady, NoChange), b, c) = Some ()"
  shows "Option.bind (read_from cursor_read b c) k = Some ()"
proof -
  have "buffer_full b" "buf_inv b"
    using assms(2,3) b holds_lengths [OF b] by (auto simp: buffer_full_def holds_def simp flip: length_0_conv)
  then show ?thesis using goal by (simp add: read_from_full)
qed

lemma drain_step:
  assumes b: "holds b R W" and ne: "R @ W \<noteq> []"
    and D: "D = (if R = [] then W else R)" and Q: "Q = (if R = [] then [] else W)"
    and wr: "write_fn S D c = (Ok n, c')" "flush_fn S c' = (Ok (), c')" and n: "n \<le> length D"
    and goal: "\<And>b'. holds b' (drop n D) Q \<Longrightarrow>
       k ((IOCompleted n, if drop n D @ Q = [] then BecameEmpty else NoChange), b', c') = Some ()"
  shows "Option.bind (write_to S b c) k = Some ()"
proof -
  have inv: "buf_inv b" using b by (simp add: holds_def)
  have f: "holds (write_flip b) D Q" using write_flip_holds [OF b] by (simp add: D Q)
  define b1 where "b1 = write_flip b"
  have b1: "holds b1 D Q" "buf_inv b1" using f by (simp_all add: b1_def holds_def)
  note l = holds_lengths [OF b1(1)] and i = buf_invD [OF b1(2)]
  have Dne: "D \<noteq> []" using ne by (auto simp: D)
  have fold: "(if read_cursor b = read_max b \<and> write_cursor b > 0 then flip_buffers b else b) = b1"
    by (simp add: b1_def write_flip_def)
  have sub: "usize_sub (read_max b1) (read_cursor b1) = Some (length D)" "length D \<noteq> 0"
    using l i Dne by simp_all
  have sl: "slice_range (read_page b1) (read_cursor b1) (read_max b1) = Some D"
    using b1(1) i by (simp add: holds_def readable_part_def)
  have add: "usize_add (read_cursor b1) n = Some (read_cursor b1 + n)"
    using n l i by (intro usize_add_capacity) auto
  let ?b = "b1\<lparr>read_cursor := read_cursor b1 + n\<rparr>"
  have "readable_part ?b = drop n D"
    using b1(1) by (auto simp: readable_part_def holds_def drop_take ac_simps)
  then have h: "holds ?b (drop n D) Q"
    using b1 n l i by (auto simp: holds_def buf_inv_def)
  have e: "is_read_empty ?b \<and> is_write_empty ?b \<longleftrightarrow> drop n D @ Q = []"
    using holds_lengths [OF h] by (auto simp: is_read_empty_def is_write_empty_def)
  show ?thesis
    unfolding write_to_def Let_def fold
    using sub(2) goal [OF h] e by (simp add: sub(1) sl wr add split: if_splits)
qed

text \<open>The two cases of each rule that the tests go through: the write page has room or is turned
  into the read page; a write takes from the read page or from the page that was just turned.\<close>

lemma fill_room:
  assumes "holds b R W" and "length W < BUFFER_CAPACITY"
    and "n = min (BUFFER_CAPACITY - length W) (length (get_ref c) - cursor_position c)"
    and "\<And>b'. holds b' R (W @ take n (drop (cursor_position c) (get_ref c))) \<Longrightarrow>
       k ((IOCompleted n, if 0 < n \<and> R = [] \<and> W = [] then BecameNonEmpty else NoChange), b',
          c\<lparr>cursor_position := cursor_position c + n\<rparr>) = Some ()"
  shows "Option.bind (read_from cursor_read b c) k = Some ()"
  using assms by (intro fill_step [OF assms(1), of W R _ c n]) auto

lemma fill_turned:
  assumes "holds b [] W" and "length W = BUFFER_CAPACITY"
    and "n = min BUFFER_CAPACITY (length (get_ref c) - cursor_position c)"
    and "\<And>b'. holds b' W (take n (drop (cursor_position c) (get_ref c))) \<Longrightarrow>
       k ((IOCompleted n, NoChange), b', c\<lparr>cursor_position := cursor_position c + n\<rparr>) = Some ()"
  shows "Option.bind (read_from cursor_read b c) k = Some ()"
proof -
  have "W \<noteq> []" using assms(2) capacity_bounds(1) by (metis length_0_conv less_irrefl)
  then show ?thesis
    using assms by (intro fill_step [OF assms(1), of "[]" W _ c n]) auto
qed

lemma drain_read_page:
  assumes "holds b R W" and "R \<noteq> []"
    and "write_fn S R c = (Ok n, snd (write_fn S R c))" and "n \<le> length R"
    and "flush_fn S (snd (write_fn S R c)) = (Ok (), snd (write_fn S R c))"
    and "\<And>b'. holds b' (drop n R) W \<Longrightarrow>
       k ((IOCompleted n, if n = length R \<and> W = [] then BecameEmpty else NoChange), b', snd (write_fn S R c)) = Some ()"
  shows "Option.bind (write_to S b c) k = Some ()"
  using assms by (intro drain_step [OF assms(1), of R W S c n "snd (write_fn S R c)"]) auto

lemma drain_turned:
  assumes "holds b [] W" and "W \<noteq> []"
    and "write_fn S W c = (Ok n, snd (write_fn S W c))" and "n \<le> length W"
    and "flush_fn S (snd (write_fn S W c)) = (Ok (), snd (write_fn S W c))"
    and "\<And>b'. holds b' (drop n W) [] \<Longrightarrow>
       k ((IOCompleted n, if n = length W then BecameEmpty else NoChange), b', snd (write_fn S W c)) = Some ()"
  shows "Option.bind (write_to S b c) k = Some ()"
  using assms by (intro drain_step [OF assms(1), of W "[]" S c n "snd (write_fn S W c)"]) auto

lemma empty_step:
  assumes b: "holds b [] []" and goal: "k ((BufferNotReady, NoChange), b, c) = Some ()"
  shows "Option.bind (write_to S b c) k = Some ()"
  using goal holds_lengths [OF b] by (simp add: write_to_def Let_def)

lemma discard_step:
  assumes b: "holds b R W"
    and goal: "\<And>b'. holds b' R [] \<Longrightarrow> k (if R = [] \<and> W \<noteq> [] then BecameEmpty else NoChange) b' = Some ()"
  shows "case_prod k (discard b) = Some ()"
proof -
  have "holds (b\<lparr>write_cursor := 0\<rparr>) R []"
    using b by (auto simp: holds_def buf_inv_def readable_part_def)
  from goal [OF this] show ?thesis
    using holds_lengths [OF b] by (auto simp: discard_def Let_def is_read_empty_def is_write_empty_def split: if_splits)
qed

section \<open>The tests of buffer.rs pass\<close>

lemma length_byte_range [simp]: "length (byte_range a b) = b - a"
  by (simp add: byte_range_def)

lemma byte_range_eq_Nil [simp]: "byte_range a b = [] \<longleftrightarrow> b \<le> a"
  by (auto simp: byte_range_def)

lemma byte_range_empty [simp]: "byte_range a a = []"
  by simp

lemma take_byte_range [simp]: "a + n \<le> b \<Longrightarrow> take n (byte_range a b) = byte_range a (a + n)"
  by (simp add: byte_range_def take_map)

lemma drop_byte_range [simp]: "drop n (byte_range a b) = byte_range (a + n) b"
  by (simp add: byte_range_def drop_map)

lemma append_byte_range: "a \<le> b \<Longrightarrow> b \<le> c \<Longrightarrow> byte_range a b @ byte_range b c = byte_range a c"
  using upt_add_eq_append [of a b "c - b"] by (simp add: byte_range_def flip: map_append)

lemma length_heap_buffer [simp]: "length (heap_buffer n) = n"
  by (simp add: heap_buffer_def)

lemma cursor_simps [simp]: "get_ref (cursor_new xs) = xs" "cursor_position (cursor_new xs) = 0"
    "get_ref (set_position p c) = get_ref c" "cursor_position (set_position p c) = p"
  by (simp_all add: cursor_new_def set_position_def)

lemma assert_eq_pass [simp]: "Option.bind (assert_eq a a) k = k ()" "assert_eq a a = Some ()"
  by (simp_all add: assert_eq_def)

lemma assign_loop_eq:
  "n \<le> length v \<Longrightarrow> assign_loop f [0..<n] v = Some (map f [0..<n] @ drop n v)"
proof (induction n)
  case (Suc n)
  have app: "assign_loop f (xs @ [i]) v = Option.bind (assign_loop f xs v)
      (\<lambda>v. if i < length v then Some (v[i := f i]) else None)" for xs i
    by (induction xs arbitrary: v) auto
  have "drop n v = v ! n # drop (Suc n) v" using Suc.prems by (simp add: Cons_nth_drop_Suc)
  then show ?case using Suc by (simp add: app list_update_append)
qed simp

lemma capacity_facts: "BUFFER_CAPACITY = 32768" by (simp add: BUFFER_CAPACITY_def)

lemma byte_range_shift: "map (\<lambda>i. word_of_nat i + word_of_nat m) [0..<n] = byte_range m (m + n)"
proof -
  have "byte_range m (m + n) = map word_of_nat (map (\<lambda>i. i + m) [0..<n])"
    by (simp only: map_add_upt byte_range_def add.commute)
  then show ?thesis by simp
qed

lemma assign_bytes:
  assumes "n \<le> length v"
  shows "assign_loop word_of_nat [0..<n] v = Some (byte_range 0 n @ drop n v)"
    and "assign_loop (\<lambda>i. word_of_nat i + 32768) [0..<n] v = Some (byte_range 32768 (32768 + n) @ drop n v)"
  using assms byte_range_shift [of 32768 n] by (simp_all add: assign_loop_eq byte_range_def)

lemmas test_simps = capacity_facts cursor_writer_def vec_writer_def overwrite_def append_byte_range
  heap_buffer_def assign_bytes

lemma input_empty_buffer_passes: "input_empty_buffer = Some ()"
  unfolding input_empty_buffer_def Let_def
  apply (rule fill_room [OF holds_new, where n = 0]; simp add: test_simps)
  done

lemma input_empty_read_page_passes: "input_empty_read_page = Some ()"
  unfolding input_empty_read_page_def Let_def
  apply (rule fill_room [OF holds_new, where n = 10]; simp add: test_simps)
  done

lemma input_with_partial_read_page_passes: "input_with_partial_read_page = Some ()"
  unfolding input_with_partial_read_page_def Let_def
  apply (rule fill_room [OF holds_new, where n = 10]; simp add: test_simps)
  apply (erule fill_room [where n = 10]; simp add: test_simps)
  done

lemma input_with_full_read_page_passes: "input_with_full_read_page = Some ()"
  unfolding input_with_full_read_page_def Let_def
  apply (rule fill_room [OF holds_new, where n = 32768]; simp add: test_simps)
  apply (erule fill_turned [where n = 10]; simp add: test_simps)
  done

lemma input_split_across_read_and_write_page_passes: "input_split_across_read_and_write_page = Some ()"
  unfolding input_split_across_read_and_write_page_def Let_def
  apply (rule fill_room [OF holds_new, where n = 32768]; simp add: test_simps)
  apply (erule fill_turned [where n = 16384]; simp add: test_simps)
  done

lemma input_full_read_and_write_pages_passes: "input_full_read_and_write_pages = Some ()"
  unfolding input_full_read_and_write_pages_def Let_def
  apply (rule fill_room [OF holds_new, where n = 32768]; simp add: test_simps)
  apply (erule fill_turned [where n = 32768]; simp add: test_simps)
  apply (erule full_step; simp add: test_simps)
  done

lemma output_empty_buffer_passes: "output_empty_buffer = Some ()"
  unfolding output_empty_buffer_def Let_def
  apply (rule empty_step [OF holds_new]; simp add: test_simps)
  done

lemma output_partial_write_page_passes: "output_partial_write_page = Some ()"
  unfolding output_partial_write_page_def Let_def
  apply (rule fill_room [OF holds_new, where n = 10]; simp add: test_simps)
  apply (erule drain_turned [where n = 10]; simp add: test_simps)
  done

lemma output_partial_write_page_small_buffer_passes: "output_partial_write_page_small_buffer = Some ()"
  unfolding output_partial_write_page_small_buffer_def Let_def
  apply (rule fill_room [OF holds_new, where n = 7]; simp add: test_simps)
  apply (erule fill_room [where n = 3]; simp add: test_simps)
  apply (erule drain_turned [where n = 5]; simp add: test_simps)
  apply (erule drain_read_page [where n = 5]; simp add: test_simps)
  done

lemma output_split_across_write_and_read_page_passes: "output_split_across_write_and_read_page = Some ()"
  unfolding output_split_across_write_and_read_page_def Let_def
  apply (rule fill_room [OF holds_new, where n = 32768]; simp add: test_simps)
  apply (erule fill_turned [where n = 16384]; simp add: test_simps)
  apply (erule drain_read_page [where n = 32768]; simp add: test_simps)
  apply (erule drain_turned [where n = 16384]; simp add: test_simps)
  done

lemma discard_empty_passes: "discard_empty = Some ()"
  unfolding discard_empty_def Let_def
  apply (rule discard_step [OF holds_new]; simp add: test_simps)
  apply (rule empty_step [OF holds_new]; simp add: test_simps)
  done

lemma discard_write_buffer_no_flip_passes: "discard_write_buffer_no_flip = Some ()"
  unfolding discard_write_buffer_no_flip_def Let_def
  apply (rule fill_room [OF holds_new, where n = 10]; simp add: test_simps)
  apply (erule discard_step; simp add: test_simps)
  apply (erule empty_step; simp add: test_simps)
  done

lemma discard_write_buffer_with_flip_passes: "discard_write_buffer_with_flip = Some ()"
  unfolding discard_write_buffer_with_flip_def Let_def
  apply (rule fill_room [OF holds_new, where n = 32768]; simp add: test_simps)
  apply (erule fill_turned [where n = 10]; simp add: test_simps)
  apply (erule discard_step; simp add: test_simps)
  apply (erule drain_read_page [where n = 32768]; simp add: test_simps)
  done

section \<open>The tests of polled_fd.rs pass\<close>

lemmas fd_test_simps = updates_apply_def recorded_apply_updates_def updates_reset_def updates_new_def
  apply_updates_def pfd_apply_updates_def polled_fd_new_def poll_for_read_def poll_for_write_def event_new_def
  fd_set_new_def register_def modify_def unregister_def remove_at_def linux_events_def

lemma new_pfd_has_no_updates_passes: "new_pfd_has_no_updates linux_events = Some ()"
  by (simp add: new_pfd_has_no_updates_def fd_test_simps)

lemma enable_write_polling_sets_epollout_passes: "enable_write_polling_sets_epollout linux_events = Some ()"
  by (simp add: enable_write_polling_sets_epollout_def fd_test_simps)

lemma disable_write_polling_clears_epollout_passes: "disable_write_polling_clears_epollout linux_events = Some ()"
  by (simp add: disable_write_polling_clears_epollout_def fd_test_simps)

lemma enable_write_polling_noop_passes: "enable_write_polling_noop linux_events = Some ()"
  by (simp add: enable_write_polling_noop_def fd_test_simps)

lemma disable_write_polling_noop_passes: "disable_write_polling_noop linux_events = Some ()"
  by (simp add: disable_write_polling_noop_def fd_test_simps)

lemma enable_read_polling_sets_epollin_passes: "enable_read_polling_sets_epollin linux_events = Some ()"
  by (simp add: enable_read_polling_sets_epollin_def fd_test_simps)

lemma disable_read_polling_clears_epollin_passes: "disable_read_polling_clears_epollin linux_events = Some ()"
  by (simp add: disable_read_polling_clears_epollin_def fd_test_simps)

lemma enable_read_polling_noop_passes: "enable_read_polling_noop linux_events = Some ()"
  by (simp add: enable_read_polling_noop_def fd_test_simps)

lemma disable_read_polling_noop_passes: "disable_read_polling_noop linux_events = Some ()"
  by (simp add: disable_read_polling_noop_def fd_test_simps)

lemma fdset_empty_apply_updates_passes: "fdset_empty_apply_updates linux_events = Some ()"
  by (simp add: fdset_empty_apply_updates_def fd_test_simps)

lemma fdset_register_passed_to_newfn_passes: "fdset_register_passed_to_newfn linux_events = Some ()"
  by (simp add: fdset_register_passed_to_newfn_def fd_test_simps)

lemma fdset_register_multiple_passes: "fdset_register_multiple linux_events = Some ()"
  by (simp add: fdset_register_multiple_def fd_test_simps)

lemma fdset_modify_passed_to_updatefn_passes: "fdset_modify_passed_to_updatefn linux_events = Some ()"
  by (simp add: fdset_modify_passed_to_updatefn_def fd_test_simps)

lemma fdset_modify_nochange_passes: "fdset_modify_nochange linux_events = Some ()"
  by (simp add: fdset_modify_nochange_def fd_test_simps)

lemma fdset_unregister_passed_to_deletefn_passes: "fdset_unregister_passed_to_deletefn linux_events = Some ()"
  by (simp add: fdset_unregister_passed_to_deletefn_def fd_test_simps)

lemma fdset_duplicate_register_panics_panics: "fdset_duplicate_register_panics linux_events = None"
  by (simp add: fdset_duplicate_register_panics_def fd_test_simps)

lemma fdset_register_after_updates_panics_panics: "fdset_register_after_updates_panics linux_events = None"
  by (simp add: fdset_register_after_updates_panics_def fd_test_simps)

lemma fdset_unregister_nonexisting_panics_panics: "fdset_unregister_nonexisting_panics linux_events = None"
  by (simp add: fdset_unregister_nonexisting_panics_def fd_test_simps)

lemma fdset_unregister_just_registered_panics_panics: "fdset_unregister_just_registered_panics linux_events = None"
  by (simp add: fdset_unregister_just_registered_panics_def fd_test_simps)

text \<open>A check of the model rather than a property of the program: the definitions of \<^verbatim>\<open>FlipBuffer\<close> and \<^verbatim>\<open>PolledFdSet\<close> pass the repository's own unit tests: every test of
  \<^verbatim>\<open>buffer.rs\<close> returns, its streams and assertions included, every test of \<^verbatim>\<open>polled_fd.rs\<close> returns, and the tests
  marked \<^verbatim>\<open>should_panic\<close> panic.\<close>

lemma unit_tests_pass:
  "list_all (\<lambda>test. test = Some ())
     [input_empty_buffer, input_empty_read_page, input_with_partial_read_page,
      input_with_full_read_page, input_split_across_read_and_write_page,
      input_full_read_and_write_pages, output_empty_buffer, output_partial_write_page,
      output_partial_write_page_small_buffer, output_split_across_write_and_read_page,
      discard_empty, discard_write_buffer_no_flip, discard_write_buffer_with_flip] \<and>
   list_all (\<lambda>test. test linux_events = Some ())
     [new_pfd_has_no_updates, enable_write_polling_sets_epollout,
      disable_write_polling_clears_epollout, enable_write_polling_noop,
      disable_write_polling_noop, enable_read_polling_sets_epollin,
      disable_read_polling_clears_epollin, enable_read_polling_noop,
      disable_read_polling_noop, fdset_empty_apply_updates, fdset_register_passed_to_newfn,
      fdset_register_multiple, fdset_modify_passed_to_updatefn, fdset_modify_nochange,
      fdset_unregister_passed_to_deletefn] \<and>
   list_all (\<lambda>test. test linux_events = None)
     [fdset_duplicate_register_panics, fdset_register_after_updates_panics,
      fdset_unregister_nonexisting_panics, fdset_unregister_just_registered_panics]"
  by (simp add: input_empty_buffer_passes input_empty_read_page_passes
      input_with_partial_read_page_passes input_with_full_read_page_passes
      input_split_across_read_and_write_page_passes input_full_read_and_write_pages_passes
      output_empty_buffer_passes output_partial_write_page_passes
      output_partial_write_page_small_buffer_passes
      output_split_across_write_and_read_page_passes discard_empty_passes
      discard_write_buffer_no_flip_passes discard_write_buffer_with_flip_passes
      new_pfd_has_no_updates_passes enable_write_polling_sets_epollout_passes
      disable_write_polling_clears_epollout_passes enable_write_polling_noop_passes
      disable_write_polling_noop_passes enable_read_polling_sets_epollin_passes
      disable_read_polling_clears_epollin_passes enable_read_polling_noop_passes
      disable_read_polling_noop_passes fdset_empty_apply_updates_passes
      fdset_register_passed_to_newfn_passes fdset_register_multiple_passes
      fdset_modify_passed_to_updatefn_passes fdset_modify_nochange_passes
      fdset_unregister_passed_to_deletefn_passes fdset_duplicate_register_panics_panics
      fdset_register_after_updates_panics_panics
      fdset_unregister_nonexisting_panics_panics
      fdset_unregister_just_registered_panics_panics)

end
