(* ===== verification/Terminal.thy ===== *)
theory Terminal
  imports Pty
begin

unbundle bit_operations_syntax

text \<open>
  A terminal for the kernel of \<open>Test_Kernel\<close>, which is an instance to run tests on and models no code of the repository. It is the
  pseudo-terminal that the pty tests of \<^verbatim>\<open>src/src/pollster.rs\<close> and \<^verbatim>\<open>src/src/pty.rs\<close> run on, as \<^verbatim>\<open>pty(7)\<close> and
  \<^verbatim>\<open>termios(3)\<close> have it in canonical mode with echo, and the process that runs on its slave. What a program does
  is a parameter of the tests; here is only what a program can do.
\<close>

section \<open>State\<close>

text \<open>A process reads its standard input, writes its standard output, asks for the window size of its
  standard input (nothing, if that is no terminal), or ends.\<close>

codatatype process_image =
    Get "u8 list \<Rightarrow> process_image"
  | Put "u8 list" process_image
  | Get_size "winsize option \<Rightarrow> process_image"
  | Exit

text \<open>The input of the slave is a list of completed lines, where an empty one is the end of the input, and the line
  that is being typed. \<open>t_slave\<close> are the descriptors that the child has on the slave, \<open>t_hung\<close> says that it had some and
  has none now. \<open>t_pace\<close> is not state of the kernel but the child's schedule: how many steps it makes before each
  coming wait of the parent, one if it does not say.\<close>

record tty =
  t_master :: RawFd
  t_open :: bool
  t_locked :: bool
  t_size :: winsize
  t_termios :: termios
  t_line :: "u8 list"
  t_input :: "u8 list list"
  t_output :: "u8 list"
  t_slave :: "RawFd list"
  t_leader :: bool
  t_ctty :: bool
  t_hung :: bool
  t_child :: "process_image option"
  t_killed :: bool
  t_pace :: "nat list"

section \<open>The line discipline\<close>

definition linux_OPOST :: u32 where
  "linux_OPOST = 1"

definition linux_ONLCR :: u32 where
  "linux_ONLCR = 4"

definition NL :: u8 where
  "NL = 10"

definition VEOF :: u8 where
  "VEOF = 4"

text \<open>What the master reads for a byte that the slave writes or that is echoed.\<close>

definition out_char :: "tty \<Rightarrow> u8 \<Rightarrow> u8 list" where
  "out_char t b =
     (if b = NL \<and> c_oflag (t_termios t) AND linux_OPOST \<noteq> 0 \<and> c_oflag (t_termios t) AND linux_ONLCR \<noteq> 0
      then [13, NL] else [b])"

text \<open>A byte written to the master: \<^verbatim>\<open>^D\<close> completes the line and is neither kept nor echoed. The other control
  characters have meanings that no test uses; here they are an error.\<close>

definition plain_char :: "u8 \<Rightarrow> bool" where
  "plain_char b \<longleftrightarrow> b = NL \<or> b = VEOF \<or> 32 \<le> b \<and> b < 127"

definition type_char :: "u8 \<Rightarrow> tty \<Rightarrow> tty" where
  "type_char b t =
     (if b = VEOF then t\<lparr>t_line := [], t_input := t_input t @ [t_line t]\<rparr>
      else if b = NL then t\<lparr>t_line := [], t_input := t_input t @ [t_line t @ [NL]], t_output := t_output t @ out_char t NL\<rparr>
      else t\<lparr>t_line := t_line t @ [b], t_output := t_output t @ out_char t b\<rparr>)"

definition tty_error :: "int \<Rightarrow> io_error" where
  "tty_error errno = \<lparr>kind = OtherKind (nat errno), raw_os_error = Some errno\<rparr>"

definition tty_write :: "u8 list \<Rightarrow> tty \<Rightarrow> nat io_result \<times> tty" where
  "tty_write bs t =
     (if list_all plain_char bs then (Ok (length bs), fold type_char bs t) else (Err (tty_error 22), t))"

text \<open>Reading the master when nothing is left: \<^verbatim>\<open>EIO\<close> once the slave has hung up, \<^verbatim>\<open>EAGAIN\<close> for a read that would
  have to wait.\<close>

definition tty_read :: "u8 list \<Rightarrow> tty \<Rightarrow> (nat io_result \<times> u8 list) \<times> tty" where
  "tty_read s t =
     (if t_output t \<noteq> []
      then (let n = min (length s) (length (t_output t)) in
            ((Ok n, take n (t_output t) @ drop n s), t\<lparr>t_output := drop n (t_output t)\<rparr>))
      else ((Err (tty_error (if t_hung t then 5 else 11)), s), t))"

text \<open>The events of the master. Writing what the tests write never has to wait.\<close>

definition tty_events :: "events_api \<Rightarrow> tty \<Rightarrow> Events" where
  "tty_events E t =
     (if t_output t \<noteq> [] then EPOLLIN E else 0) OR EPOLLOUT E OR (if t_hung t then EPOLLHUP E else 0)"

section \<open>The child\<close>

definition tty_capacity :: nat where
  "tty_capacity = 4096"

definition child_ends :: "tty \<Rightarrow> tty" where
  "child_ends t = t\<lparr>t_child := None, t_slave := [], t_hung := t_hung t \<or> t_slave t \<noteq> []\<rparr>"

text \<open>One step of the child, if it can make one: a read takes one line, a write one byte. Descriptors other than
  the slave's are \<^verbatim>\<open>/dev/null\<close>.\<close>

definition child_step :: "tty \<Rightarrow> tty" where
  "child_step t =
     (case t_child t of
        None \<Rightarrow> t
      | Some p \<Rightarrow>
          if t_killed t then child_ends t
          else (case p of
             Get f \<Rightarrow>
               if 0 \<notin> set (t_slave t) then t\<lparr>t_child := Some (f [])\<rparr>
               else (case t_input t of
                  [] \<Rightarrow> t
                | l # ls \<Rightarrow> t\<lparr>t_input := ls, t_child := Some (f l)\<rparr>)
           | Put bs p \<Rightarrow>
               (case bs of
                  [] \<Rightarrow> t\<lparr>t_child := Some p\<rparr>
                | b # bs \<Rightarrow>
                    (let p = (if bs = [] then p else Put bs p) in
                     if 1 \<notin> set (t_slave t) then t\<lparr>t_child := Some p\<rparr>
                     else if length (t_output t) + 2 \<le> tty_capacity
                     then t\<lparr>t_child := Some p, t_output := t_output t @ out_char t b\<rparr>
                     else t))
           | Get_size f \<Rightarrow> t\<lparr>t_child := Some (f (if 0 \<in> set (t_slave t) then Some (t_size t) else None))\<rparr>
           | Exit \<Rightarrow> child_ends t))"

text \<open>The steps that the child makes before a wait of the parent.\<close>

definition child_turn :: "tty \<Rightarrow> tty" where
  "child_turn t =
     (case t_pace t of
        [] \<Rightarrow> child_step t
      | n # ns \<Rightarrow> (child_step ^^ n) (t\<lparr>t_pace := ns\<rparr>))"

end
