(* ===== verification/Test_Kernel.thy ===== *)
theory Test_Kernel
  imports Pollster Reference_Kernel Terminal
begin

text \<open>
  One kernel, an instance of the parameter \<open>platform\<close>, on which the tests of \<^verbatim>\<open>src/src/pollster.rs\<close> can be run. It models no code of
  the repository, and no property of the program rests on it: pipes as in \<^verbatim>\<open>pipe(7)\<close>, connected stream
  sockets as in \<^verbatim>\<open>unix(7)\<close>, a pseudo-terminal and one level-triggered instance of \<^verbatim>\<open>epoll(7)\<close>. A call that would wait for ever
  fails with \<open>would_block\<close>.
\<close>

section \<open>State\<close>

record kernel_pipe =
  p_read :: RawFd
  p_write :: RawFd
  p_queue :: "u8 list"
  p_reader :: bool
  p_writer :: bool

text \<open>One end of a connection: its descriptor while it is open, the bytes sent to it, and in which directions it
  is shut down. A connection is the connecting end and the accepted one.\<close>

record endpoint =
  e_fd :: "RawFd option"
  e_queue :: "u8 list"
  e_receive :: bool
  e_send :: bool

text \<open>\<open>k_listeners\<close> are the listening sockets with the connections (by position) that wait to be accepted;
  \<open>k_connecting\<close> is the listener of a connection that a thread is about to make and \<open>k_connected\<close> the stream that
  it got.\<close>

record test_kernel =
  k_pipes :: "kernel_pipe list"
  k_conns :: "(endpoint \<times> endpoint) list"
  k_listeners :: "(RawFd \<times> nat list) list"
  k_connecting :: "RawFd option"
  k_connected :: "RawFd option"
  k_tty :: "tty option"
  k_interest :: "(RawFd \<times> Event) list"
  k_next :: RawFd

definition boot :: test_kernel where
  "boot = \<lparr>k_pipes = [], k_conns = [], k_listeners = [], k_connecting = None, k_connected = None, k_tty = None,
     k_interest = [], k_next = 3\<rparr>"

section \<open>Terminals\<close>

text \<open>An operation on the master if \<open>fd\<close> is its descriptor, and \<open>other\<close> if it is not.\<close>

definition on_master ::
  "RawFd \<Rightarrow> (tty \<Rightarrow> 'a \<times> tty) \<Rightarrow> (test_kernel \<Rightarrow> 'a \<times> test_kernel) \<Rightarrow> test_kernel \<Rightarrow> 'a \<times> test_kernel" where
  "on_master fd f other k =
     (case k_tty k of
        None \<Rightarrow> other k
      | Some t \<Rightarrow>
          if t_open t \<and> t_master t = fd then (case f t of (r, t) \<Rightarrow> (r, k\<lparr>k_tty := Some t\<rparr>)) else other k)"

definition in_tty :: "(tty \<Rightarrow> tty) \<Rightarrow> test_kernel \<Rightarrow> test_kernel" where
  "in_tty f k = (case k_tty k of None \<Rightarrow> k | Some t \<Rightarrow> k\<lparr>k_tty := Some (f t)\<rparr>)"

lemma in_tty_simps [simp]:
  "k_tty k = None \<Longrightarrow> in_tty f k = k"
  "k_tty k = Some t \<Longrightarrow> in_tty f k = k\<lparr>k_tty := Some (f t)\<rparr>"
  by (simp_all add: in_tty_def)

section \<open>Pipes\<close>

definition pipe_capacity :: nat where
  "pipe_capacity = 65536"

definition would_block :: io_error where
  "would_block = error_of_kind (OtherKind 1)"

definition k_pipe :: "test_kernel \<Rightarrow> (RawFd \<times> RawFd) \<times> test_kernel" where
  "k_pipe k = (let r = k_next k; w = k_next k + 1 in
     ((r, w), k\<lparr>k_pipes := k_pipes k @ [\<lparr>p_read = r, p_write = w, p_queue = [], p_reader = True, p_writer = True\<rparr>],
                k_next := k_next k + 2\<rparr>))"

text \<open>The first element that \<open>Q\<close> holds of is updated by \<open>f\<close>.\<close>

fun update_first :: "('b \<Rightarrow> bool) \<Rightarrow> ('b \<Rightarrow> 'a \<times> 'b) \<Rightarrow> 'b list \<Rightarrow> 'a option \<times> 'b list" where
  "update_first Q f [] = (None, [])"
| "update_first Q f (p # ps) =
     (if Q p then (case f p of (r, p') \<Rightarrow> (Some r, p' # ps))
      else (case update_first Q f ps of (r, ps') \<Rightarrow> (r, p # ps')))"

definition on_pipe ::
  "(kernel_pipe \<Rightarrow> bool) \<Rightarrow> (kernel_pipe \<Rightarrow> 'a \<times> kernel_pipe) \<Rightarrow> 'a \<Rightarrow> test_kernel \<Rightarrow> 'a \<times> test_kernel" where
  "on_pipe Q f other k =
     (case update_first Q f (k_pipes k) of
        (r, ps) \<Rightarrow> (case r of Some x \<Rightarrow> x | None \<Rightarrow> other, k\<lparr>k_pipes := ps\<rparr>))"

definition k_write :: "RawFd \<Rightarrow> u8 list \<Rightarrow> test_kernel \<Rightarrow> nat io_result \<times> test_kernel" where
  "k_write fd bs = on_master fd (tty_write bs) (on_pipe (\<lambda>p. p_write p = fd \<and> p_writer p)
     (\<lambda>p. if \<not> p_reader p then (Err (error_of_kind BrokenPipe), p)
          else (let n = min (length bs) (pipe_capacity - length (p_queue p)) in
                if n = 0 \<and> bs \<noteq> [] then (Err would_block, p) else (Ok n, p\<lparr>p_queue := p_queue p @ take n bs\<rparr>)))
     (Err would_block))"

definition k_read :: "RawFd \<Rightarrow> u8 list \<Rightarrow> test_kernel \<Rightarrow> (nat io_result \<times> u8 list) \<times> test_kernel" where
  "k_read fd s = on_master fd (tty_read s) (on_pipe (\<lambda>p. p_read p = fd \<and> p_reader p)
     (\<lambda>p. if p_queue p = [] \<and> p_writer p then ((Err would_block, s), p)
          else (let n = min (length s) (length (p_queue p)) in
                ((Ok n, take n (p_queue p) @ drop n s), p\<lparr>p_queue := drop n (p_queue p)\<rparr>)))
     (Err would_block, s))"

section \<open>Sockets\<close>

definition new_endpoint :: "RawFd option \<Rightarrow> endpoint" where
  "new_endpoint fd = \<lparr>e_fd = fd, e_queue = [], e_receive = True, e_send = True\<rparr>"

definition k_listen :: "test_kernel \<Rightarrow> RawFd \<times> test_kernel" where
  "k_listen k = (k_next k, k\<lparr>k_listeners := k_listeners k @ [(k_next k, [])], k_next := k_next k + 1\<rparr>)"

text \<open>The connecting thread: it may run at once, and it has run when it is joined or waited for.\<close>

definition k_connect :: "test_kernel \<Rightarrow> test_kernel" where
  "k_connect k =
     (case k_connecting k of
        None \<Rightarrow> k
      | Some listener \<Rightarrow> k\<lparr>
          k_conns := k_conns k @ [(new_endpoint (Some (k_next k)), new_endpoint None)],
          k_listeners := map (\<lambda>(fd, waiting). (fd, if fd = listener then waiting @ [length (k_conns k)] else waiting))
            (k_listeners k),
          k_connecting := None, k_connected := Some (k_next k), k_next := k_next k + 1\<rparr>)"

definition k_spawn_connect :: "bool \<Rightarrow> RawFd \<Rightarrow> test_kernel \<Rightarrow> test_kernel" where
  "k_spawn_connect at_once listener k =
     (let k = k\<lparr>k_connecting := Some listener\<rparr> in if at_once then k_connect k else k)"

definition k_join :: "test_kernel \<Rightarrow> RawFd io_result \<times> test_kernel" where
  "k_join k = (let k = k_connect k in (case k_connected k of Some fd \<Rightarrow> Ok fd | None \<Rightarrow> Err would_block, k))"

definition k_accept :: "RawFd \<Rightarrow> test_kernel \<Rightarrow> RawFd io_result \<times> test_kernel" where
  "k_accept fd k =
     (let k = k_connect k in
      case update_first (\<lambda>l. fst l = fd \<and> snd l \<noteq> []) (\<lambda>l. (hd (snd l), (fd, tl (snd l)))) (k_listeners k) of
        (Some i, ls) \<Rightarrow> (Ok (k_next k),
           k\<lparr>k_listeners := ls, k_conns := (k_conns k)[i := (fst (k_conns k ! i), (snd (k_conns k ! i))\<lparr>e_fd := Some (k_next k)\<rparr>)],
             k_next := k_next k + 1\<rparr>)
      | (None, _) \<Rightarrow> (Err would_block, k))"

text \<open>An operation on the end that has descriptor \<open>fd\<close>, with the other end.\<close>

definition on_socket ::
  "RawFd \<Rightarrow> (endpoint \<Rightarrow> endpoint \<Rightarrow> 'a \<times> endpoint \<times> endpoint) \<Rightarrow> 'a \<Rightarrow> test_kernel \<Rightarrow> 'a \<times> test_kernel" where
  "on_socket fd f other k =
     (case update_first (\<lambda>(a, b). e_fd a = Some fd \<or> e_fd b = Some fd)
            (\<lambda>(a, b). if e_fd a = Some fd then f a b else (case f b a of (r, b, a) \<Rightarrow> (r, a, b))) (k_conns k) of
        (r, cs) \<Rightarrow> (case r of Some x \<Rightarrow> x | None \<Rightarrow> other, k\<lparr>k_conns := cs\<rparr>))"

definition k_send :: "RawFd \<Rightarrow> u8 list \<Rightarrow> test_kernel \<Rightarrow> nat io_result \<times> test_kernel" where
  "k_send fd bs = on_socket fd
     (\<lambda>a b. if \<not> e_send a then (Err (error_of_kind BrokenPipe), a, b)
            else (let n = min (length bs) (pipe_capacity - length (e_queue b)) in
                  if n = 0 \<and> bs \<noteq> [] then (Err would_block, a, b) else (Ok n, a, b\<lparr>e_queue := e_queue b @ take n bs\<rparr>)))
     (Err would_block)"

definition k_recv :: "RawFd \<Rightarrow> u8 list \<Rightarrow> test_kernel \<Rightarrow> (nat io_result \<times> u8 list) \<times> test_kernel" where
  "k_recv fd s = on_socket fd
     (\<lambda>a b. if e_queue a = [] \<and> e_receive a then ((Err would_block, s), a, b)
            else (let n = min (length s) (length (e_queue a)) in
                  ((Ok n, take n (e_queue a) @ drop n s), a\<lparr>e_queue := drop n (e_queue a)\<rparr>, b)))
     (Err would_block, s)"

text \<open>An end that no longer receives is one that the other end can no longer send to, and the other way round.\<close>

definition k_shutdown :: "bool \<Rightarrow> bool \<Rightarrow> RawFd \<Rightarrow> test_kernel \<Rightarrow> unit io_result \<times> test_kernel" where
  "k_shutdown receive send fd = on_socket fd
     (\<lambda>a b. (Ok (), a\<lparr>e_receive := e_receive a \<and> \<not> receive, e_send := e_send a \<and> \<not> send\<rparr>,
                    b\<lparr>e_send := e_send b \<and> \<not> receive, e_receive := e_receive b \<and> \<not> send\<rparr>))
     (Err would_block)"

section \<open>Closing a descriptor\<close>

definition close_end :: "RawFd \<Rightarrow> endpoint \<Rightarrow> endpoint \<Rightarrow> endpoint \<times> endpoint" where
  "close_end fd a b = (if e_fd a = Some fd
     then (a\<lparr>e_fd := None, e_receive := False, e_send := False\<rparr>, b\<lparr>e_receive := False, e_send := False\<rparr>) else (a, b))"

definition k_close :: "RawFd \<Rightarrow> test_kernel \<Rightarrow> test_kernel" where
  "k_close fd k = k\<lparr>
     k_pipes := map (\<lambda>p. p\<lparr>p_reader := p_reader p \<and> p_read p \<noteq> fd, p_writer := p_writer p \<and> p_write p \<noteq> fd\<rparr>) (k_pipes k),
     k_conns := map (\<lambda>(a, b). case close_end fd a b of (a, b) \<Rightarrow> (case close_end fd b a of (b, a) \<Rightarrow> (a, b))) (k_conns k),
     k_listeners := filter (\<lambda>l. fst l \<noteq> fd) (k_listeners k),
     k_tty := map_option (\<lambda>t. t\<lparr>t_open := t_open t \<and> t_master t \<noteq> fd\<rparr>) (k_tty k),
     k_interest := filter (\<lambda>x. fst x \<noteq> fd) (k_interest k)\<rparr>"

section \<open>Events\<close>

text \<open>Which events of a descriptor are pending: a read end is readable while bytes are queued and hung up once
  no writer is left; a write end is writable while there is space and in error once no reader is left.\<close>

definition pending_of :: "events_api \<Rightarrow> RawFd \<Rightarrow> kernel_pipe \<Rightarrow> Events" where
  "pending_of E fd p =
     (if p_read p = fd \<and> p_reader p then
        (if p_queue p \<noteq> [] then EPOLLIN E else 0) OR (if \<not> p_writer p then EPOLLHUP E else 0)
      else if p_write p = fd \<and> p_writer p then
        (if length (p_queue p) < pipe_capacity then EPOLLOUT E else 0) OR (if \<not> p_reader p then EPOLLERR E else 0)
      else 0)"

text \<open>A socket is readable also when no more can come, writable while there is space, and hung up when it is shut
  down in both directions. A listener is readable while a connection waits.\<close>

definition pending_of_end :: "events_api \<Rightarrow> RawFd \<Rightarrow> endpoint \<Rightarrow> endpoint \<Rightarrow> Events" where
  "pending_of_end E fd a b =
     (if e_fd a = Some fd then
        (if e_queue a \<noteq> [] \<or> \<not> e_receive a then EPOLLIN E else 0) OR
        (if length (e_queue b) < pipe_capacity then EPOLLOUT E else 0) OR
        (if \<not> e_receive a \<and> \<not> e_send a then EPOLLHUP E else 0)
      else 0)"

definition pending_of_tty :: "events_api \<Rightarrow> RawFd \<Rightarrow> tty option \<Rightarrow> Events" where
  "pending_of_tty E fd t =
     (case t of None \<Rightarrow> 0 | Some t \<Rightarrow> if t_open t \<and> t_master t = fd then tty_events E t else 0)"

definition pending :: "events_api \<Rightarrow> test_kernel \<Rightarrow> RawFd \<Rightarrow> Events" where
  "pending E k fd =
     foldr (OR) (map (pending_of E fd) (k_pipes k) @
       map (\<lambda>(a, b). pending_of_end E fd a b OR pending_of_end E fd b a) (k_conns k) @
       map (\<lambda>l. if fst l = fd \<and> snd l \<noteq> [] then EPOLLIN E else 0) (k_listeners k))
       (pending_of_tty E fd (k_tty k))"

definition reported :: "events_api \<Rightarrow> test_kernel \<Rightarrow> RawFd \<times> Event \<Rightarrow> Event" where
  "reported E k x = (snd x)\<lparr>events := pending E k (fst x) AND (events (snd x) OR EPOLLERR E OR EPOLLHUP E)\<rparr>"

definition ready :: "events_api \<Rightarrow> test_kernel \<Rightarrow> Event list" where
  "ready E k = filter (\<lambda>ev. events ev \<noteq> 0) (map (reported E k) (k_interest k))"

definition k_ctl :: "ControlOptions \<Rightarrow> RawFd \<Rightarrow> Event \<Rightarrow> test_kernel \<Rightarrow> unit io_result \<times> test_kernel" where
  "k_ctl op fd ev k =
     (let known = fd \<in> fst ` set (k_interest k) in
      case op of
        EPOLL_CTL_ADD \<Rightarrow> if known then (Err would_block, k) else (Ok (), k\<lparr>k_interest := k_interest k @ [(fd, ev)]\<rparr>)
      | EPOLL_CTL_MOD \<Rightarrow> if \<not> known then (Err would_block, k)
          else (Ok (), k\<lparr>k_interest := map (\<lambda>x. if fst x = fd then (fd, ev) else x) (k_interest k)\<rparr>)
      | EPOLL_CTL_DEL \<Rightarrow> if \<not> known then (Err would_block, k)
          else (Ok (), k\<lparr>k_interest := filter (\<lambda>x. fst x \<noteq> fd) (k_interest k)\<rparr>))"

end
