(* ===== verification/Pollster_Tests.thy ===== *)
theory Pollster_Tests
  imports Test_Kernel "HOL-Library.While_Combinator"
begin

text \<open>
  How the tests of \<^verbatim>\<open>src/src/pollster.rs\<close> are run: the test's channel manager (\<^verbatim>\<open>BlockingChannelManager\<close>),
  the worker thread that each test is, and the function that runs a test against \<^verbatim>\<open>Pollster::run\<close>.

  A worker is a \<open>task\<close>: receive a request, send a response, make a call, in the order of the source.
  The channels are rendezvous channels, so a request is received only when the worker has reached its next
  \<^verbatim>\<open>recv\<close>; what it does between a response and that \<^verbatim>\<open>recv\<close> runs beside the event loop. How far it gets
  before each wait of the loop, and in which order the wait reports the ready descriptors, is an arbitrary
  schedule.
\<close>

section \<open>Workers\<close>

datatype ChannelManagerReq =
    Initialize
  | OnReadable RawFd
  | OnWritable RawFd
  | OnHangup RawFd
  | Drop

datatype ChannelManagerResp =
    PollReadable RawFd bool
  | PollWritable RawFd bool
  | Register RawFd Events
  | Unregister RawFd
  | IoError ErrorKind

text \<open>What a worker does to the kernel, with whether its assertions hold.\<close>

type_synonym act = "test_kernel \<Rightarrow> bool \<times> test_kernel"

text \<open>A \<^verbatim>\<open>loop\<close> or \<^verbatim>\<open>while\<close> around \<^verbatim>\<open>match req_recv.recv().unwrap()\<close> has as its state three flags, the local
  variables \<^verbatim>\<open>seen_readable\<close>, \<^verbatim>\<open>seen_writable\<close> and \<^verbatim>\<open>seen_hup\<close> where it has them, and the bytes that it has read. A
  round of it may act first; then it responds, acts and goes on, or leaves the loop, or panics.\<close>

type_synonym seen = "bool \<times> bool \<times> bool \<times> u8 list"

datatype 'a round =
    Again "ChannelManagerResp list" "act list" seen
  | Break 'a
  | Panic
  | Acting "test_kernel \<Rightarrow> test_kernel" "test_kernel \<Rightarrow> 'a round"

datatype task =
    Recv "ChannelManagerReq \<Rightarrow> task"
  | Recv_loop seen "seen \<Rightarrow> ChannelManagerReq \<Rightarrow> task round"
  | Send "ChannelManagerResp list" task
  | Call "test_kernel \<Rightarrow> test_kernel" "test_kernel \<Rightarrow> task"
  | Worker_done
  | Worker_failed

definition call :: "(test_kernel \<Rightarrow> 'a \<times> test_kernel) \<Rightarrow> ('a \<Rightarrow> task) \<Rightarrow> task" where
  "call f k = Call (\<lambda>w. snd (f w)) (\<lambda>w. k (fst (f w)))"

definition drop_fd :: "RawFd \<Rightarrow> task \<Rightarrow> task" where
  "drop_fd fd t = Call (k_close fd) (\<lambda>_. t)"

definition expect :: "bool \<Rightarrow> task \<Rightarrow> task" where
  "expect b t = (if b then t else Worker_failed)"

definition recv_eq :: "ChannelManagerReq \<Rightarrow> task \<Rightarrow> task" where
  "recv_eq req t = Recv (\<lambda>r. expect (req = r) t)"

definition is_Ok :: "'a io_result \<Rightarrow> bool" where
  "is_Ok r = (case r of Ok _ \<Rightarrow> True | Err _ \<Rightarrow> False)"

definition checked :: "act \<Rightarrow> task \<Rightarrow> task" where
  "checked f t = call f (\<lambda>ok. expect ok t)"

definition unwrap :: "'a io_result \<Rightarrow> ('a \<Rightarrow> task) \<Rightarrow> task" where
  "unwrap r c = (case r of Ok x \<Rightarrow> c x | Err _ \<Rightarrow> Worker_failed)"

text \<open>Bytes that must all be written, one byte that must be read, the end of a stream, and a write that must fail
  with \<^verbatim>\<open>BrokenPipe\<close>; the first two on pipes and on sockets.\<close>

definition writes :: "RawFd \<Rightarrow> u8 list \<Rightarrow> act" where
  "writes fd bs k = (case k_write fd bs k of (r, k) \<Rightarrow> (r = Ok (length bs), k))"

definition reads :: "RawFd \<Rightarrow> u8 \<Rightarrow> act" where
  "reads fd x k = (case k_read fd [0] k of ((r, s), k) \<Rightarrow> (r = Ok 1 \<and> s = [x], k))"

definition sends :: "RawFd \<Rightarrow> u8 list \<Rightarrow> act" where
  "sends fd bs k = (case k_send fd bs k of (r, k) \<Rightarrow> (r = Ok (length bs), k))"

definition receives :: "RawFd \<Rightarrow> u8 \<Rightarrow> act" where
  "receives fd x k = (case k_recv fd [0] k of ((r, s), k) \<Rightarrow> (r = Ok 1 \<and> s = [x], k))"

definition receives_end :: "RawFd \<Rightarrow> act" where
  "receives_end fd k = (case k_recv fd [0] k of ((r, s), k) \<Rightarrow> (r = Ok 0, k))"

definition send_breaks :: "RawFd \<Rightarrow> act" where
  "send_breaks fd k =
     (case k_send fd [42] k of (r, k) \<Rightarrow> (case r of Ok _ \<Rightarrow> False | Err e \<Rightarrow> kind e = BrokenPipe, k))"

definition shuts_down :: "bool \<Rightarrow> bool \<Rightarrow> RawFd \<Rightarrow> act" where
  "shuts_down receive send fd k = (case k_shutdown receive send fd k of (r, k) \<Rightarrow> (is_Ok r, k))"

definition write_close_byte :: "RawFd \<Rightarrow> task \<Rightarrow> task" where
  "write_close_byte close_write t =
     call (k_write close_write [1]) (\<lambda>r.
     drop_fd close_write (
     expect (is_Ok r) t))"

text \<open>The loop that ends some of the tests: hangups until the manager is dropped.\<close>

definition unseen :: seen where
  "unseen = (False, False, False, [])"

definition hangups_until_drop :: "RawFd \<Rightarrow> task \<Rightarrow> task" where
  "hangups_until_drop msg_fd t = Recv_loop unseen (\<lambda>_ req.
     case req of
       OnHangup fd \<Rightarrow> if fd = msg_fd then Again [] [] unseen else Panic
     | Drop \<Rightarrow> Break (Send [] t)
     | _ \<Rightarrow> Panic)"

text \<open>A request received: what the worker does next.\<close>

primrec do_round :: "(seen \<Rightarrow> task) \<Rightarrow> task round \<Rightarrow> task" where
  "do_round again (Again resp acts s) = Send resp (foldr checked acts (again s))"
| "do_round again (Break t) = t"
| "do_round again Panic = Worker_failed"
| "do_round again (Acting g c) = Call g (\<lambda>k. do_round again (c k))"

fun take_request :: "ChannelManagerReq \<Rightarrow> task \<Rightarrow> task option" where
  "take_request req (Recv f) = Some (f req)"
| "take_request req (Recv_loop s f) = Some (do_round (\<lambda>s. Recv_loop s f) (f s req))"
| "take_request req _ = None"

text \<open>A worker up to its next exchange with the loop.\<close>

primrec run_calls :: "task \<Rightarrow> test_kernel \<Rightarrow> task \<times> test_kernel" where
  "run_calls (Recv f) k = (Recv f, k)"
| "run_calls (Recv_loop s f) k = (Recv_loop s f, k)"
| "run_calls (Send resp t) k = (Send resp t, k)"
| "run_calls (Call g c) k = run_calls (c k) (g k)"
| "run_calls Worker_done k = (Worker_done, k)"
| "run_calls Worker_failed k = (Worker_failed, k)"

text \<open>The worker beside a wait of the event loop: the wait does not end before a descriptor is ready, and by
  the time it ends the worker may have made \<open>n\<close> more calls.\<close>

primrec beside_wait :: "events_api \<Rightarrow> nat \<Rightarrow> task \<Rightarrow> test_kernel \<Rightarrow> task \<times> test_kernel" where
  "beside_wait E n (Recv f) k = (Recv f, k)"
| "beside_wait E n (Recv_loop s f) k = (Recv_loop s f, k)"
| "beside_wait E n (Send resp t) k = (Send resp t, k)"
| "beside_wait E n (Call g c) k =
     (if ready E k = [] then beside_wait E n (c k) (g k)
      else if n = 0 then (Call g c, k) else beside_wait E (n - 1) (c k) (g k))"
| "beside_wait E n Worker_done k = (Worker_done, k)"
| "beside_wait E n Worker_failed k = (Worker_failed, k)"

text \<open>A thread that has yet to connect does so when nothing else can happen.\<close>

definition last_resort :: "events_api \<Rightarrow> test_kernel \<Rightarrow> test_kernel" where
  "last_resort E k = (if ready E k = [] then k_connect k else k)"

text \<open>The child on the terminal, if there is one: it makes some steps before the wait, and more if nothing becomes
  ready otherwise; \<open>None\<close> is a wait for ever.\<close>

definition child_until_ready :: "events_api \<Rightarrow> test_kernel \<Rightarrow> test_kernel option" where
  "child_until_ready E k =
     while_option (\<lambda>k. ready E k = []) (in_tty child_step) k"

section \<open>The platform of a test\<close>

record test_world =
  kernel :: test_kernel
  worker :: task
  schedule :: "(nat \<times> bool) list"

definition in_kernel :: "(test_kernel \<Rightarrow> 'a \<times> test_kernel) \<Rightarrow> test_world \<Rightarrow> 'a \<times> test_world" where
  "in_kernel f w = (case f (kernel w) of (r, k) \<Rightarrow> (r, w\<lparr>kernel := k\<rparr>))"

text \<open>A wait for ever on descriptors of which none becomes ready is an error here.\<close>

definition next_choice :: "(nat \<times> bool) list \<Rightarrow> nat \<times> bool" where
  "next_choice sched = (case sched of [] \<Rightarrow> (0, False) | c # _ \<Rightarrow> c)"

definition k_wait :: "events_api \<Rightarrow> Event list \<Rightarrow> test_world \<Rightarrow> (nat io_result \<times> Event list) \<times> test_world" where
  "k_wait E evs w =
     (let (n, flip) = next_choice (schedule w);
          (t, k) = beside_wait E n (worker w) (in_tty child_turn (kernel w));
          k = last_resort E k;
          w = w\<lparr>kernel := k, worker := t, schedule := tl (schedule w)\<rparr>
      in case child_until_ready E k of
           None \<Rightarrow> ((Err would_block, evs), w)
         | Some k \<Rightarrow>
             (let found = (if flip then rev (ready E k) else ready E k);
                  n = min (length found) (length evs)
              in if n = 0 then ((Err would_block, evs), w) else ((Ok n, take n found @ drop n evs), w\<lparr>kernel := k\<rparr>)))"

definition test_platform :: "events_api \<Rightarrow> test_world platform" where
  "test_platform E =
     \<lparr>plat_events = E, EIO = 5,
      sys_read = (\<lambda>fd s. in_kernel (k_read fd s)),
      sys_write = (\<lambda>fd s. in_kernel (k_write fd s)),
      sys_flush = (\<lambda>fd w. (Ok (), w)),
      sys_accept = (\<lambda>fd w. (Err would_block, w)),
      sys_close = (\<lambda>fd w. w\<lparr>kernel := k_close fd (kernel w)\<rparr>),
      epoll_create = (\<lambda>_ w. (Ok (k_next (kernel w)), w\<lparr>kernel := (kernel w)\<lparr>k_next := k_next (kernel w) + 1\<rparr>\<rparr>)),
      epoll_ctl = (\<lambda>ep op fd ev. in_kernel (k_ctl op fd ev)),
      epoll_wait = (\<lambda>ep t evs. k_wait E evs)\<rparr>"

section \<open>BlockingChannelManager\<close>

text \<open>The two channel ends; what they are connected to is the worker in the world.\<close>

datatype BlockingChannelManager = Blocking_channel_manager

fun process_resp ::
  "events_api \<Rightarrow> ChannelManagerResp list \<Rightarrow> unit io_result \<Rightarrow> PolledFdSet \<Rightarrow> (unit io_result \<times> PolledFdSet) option" where
  "process_resp E [] result s = Some (result, s)"
| "process_resp E (PollReadable fd enable # resp) result s = do {
     s \<leftarrow> modify fd (poll_for_read E enable) s;
     process_resp E resp result s
   }"
| "process_resp E (PollWritable fd enable # resp) result s = do {
     s \<leftarrow> modify fd (poll_for_write E enable) s;
     process_resp E resp result s
   }"
| "process_resp E (Register fd es # resp) result s = do {
     s \<leftarrow> register fd es s;
     process_resp E resp result s
   }"
| "process_resp E (Unregister fd # resp) result s = do {
     s \<leftarrow> unregister fd s;
     process_resp E resp result s
   }"
| "process_resp E (IoError error_kind # resp) result s =
     process_resp E resp (Err (error_of_kind error_kind)) s"

text \<open>\<^verbatim>\<open>req_send.send(req)\<close> followed by \<^verbatim>\<open>resp_recv.recv().unwrap()\<close>: \<open>Some (None, w)\<close> if the worker is gone when the
  request is sent, \<open>None\<close> if it ends before it responds.\<close>

definition exchange :: "ChannelManagerReq \<Rightarrow> test_world \<Rightarrow> (ChannelManagerResp list option \<times> test_world) option" where
  "exchange req w =
     (case run_calls (worker w) (kernel w) of
        (t, k) \<Rightarrow>
          (case take_request req t of
             Some t \<Rightarrow>
               (case run_calls t k of
                  (Send resp t, k) \<Rightarrow> Some (Some resp, w\<lparr>kernel := k, worker := t\<rparr>)
                | _ \<Rightarrow> None)
           | None \<Rightarrow>
               (case t of
                  Send _ _ \<Rightarrow> None
                | _ \<Rightarrow> Some (None, w\<lparr>kernel := k, worker := t\<rparr>))))"

definition blocking_initialize ::
  "events_api \<Rightarrow> BlockingChannelManager \<Rightarrow> PolledFdSet \<Rightarrow> test_world \<Rightarrow> (BlockingChannelManager \<times> PolledFdSet \<times> test_world) option" where
  "blocking_initialize E m s w = do {
     (reply, w) \<leftarrow> exchange Initialize w;
     (case reply of
        Some resp \<Rightarrow> do {
          (r, s) \<leftarrow> process_resp E resp (Ok ()) s;
          (case r of Ok _ \<Rightarrow> Some (m, s, w) | Err _ \<Rightarrow> None)
        }
      | None \<Rightarrow> Some (m, s, w))
   }"

definition blocking_handler :: "events_api \<Rightarrow> (RawFd \<Rightarrow> ChannelManagerReq) \<Rightarrow> (BlockingChannelManager, test_world) handler" where
  "blocking_handler E req fd m s w = do {
     (reply, w) \<leftarrow> exchange (req fd) w;
     (case reply of
        Some resp \<Rightarrow> do {
          (r, s) \<leftarrow> process_resp E resp (Ok ()) s;
          Some (r, m, s, w)
        }
      | None \<Rightarrow> Some (Ok (), m, s, w))
   }"

definition blocking_manager :: "events_api \<Rightarrow> (BlockingChannelManager, test_world) ChannelManager" where
  "blocking_manager E =
     \<lparr>cm_initialize = blocking_initialize E, cm_on_readable = blocking_handler E OnReadable,
      cm_on_writable = blocking_handler E OnWritable, cm_on_hangup = blocking_handler E OnHangup\<rparr>"

definition drop_manager :: "test_world \<Rightarrow> test_world option" where
  "drop_manager w = do {
     (reply, w) \<leftarrow> exchange Drop w;
     resp \<leftarrow> reply;
     Some w
   }"

section \<open>Running a test\<close>

text \<open>\<^verbatim>\<open>child.wait().unwrap()\<close>, with which the pty tests end.\<close>

definition child_waited :: "test_kernel \<Rightarrow> bool" where
  "child_waited k =
     (case k_tty k of
        None \<Rightarrow> True
      | Some t \<Rightarrow> while_option (\<lambda>t. t_child t \<noteq> None) child_step t \<noteq> None)"

lemma child_waited_simps [simp]:
  "k_tty k = None \<Longrightarrow> child_waited k"
  "k_tty k = Some t \<Longrightarrow> t_child t = None \<Longrightarrow> child_waited k"
  by (simp_all add: child_waited_def while_option_unfold)

text \<open>From \<^verbatim>\<open>pollster.run().unwrap()\<close> on: \<open>Some ()\<close> is a test that ends and passes.\<close>

definition run_and_join :: "events_api \<Rightarrow> BlockingChannelManager Pollster \<Rightarrow> test_world \<Rightarrow> unit option" where
  "run_and_join E pollster w =
     (case run (test_platform E) (blocking_manager E) pollster w of
        Some (Some (Ok _, pollster, w)) \<Rightarrow> do {
          w \<leftarrow> drop_manager w;
          (case run_calls (worker w) (kernel w) of
             (Worker_done, k) \<Rightarrow> if child_waited k then Some () else None
           | _ \<Rightarrow> None)
        }
      | _ \<Rightarrow> None)"

definition run_channel_test ::
  "events_api \<Rightarrow> (nat \<times> bool) list \<Rightarrow> test_kernel \<Rightarrow> (RawFd \<Rightarrow> task) \<Rightarrow> unit option" where
  "run_channel_test E sched k test =
     (case k_pipe k of ((close_read, close_write), k) \<Rightarrow>
        (case pollster_new (test_platform E) (blocking_manager E) Blocking_channel_manager close_read
                \<lparr>kernel = k, worker = test close_write, schedule = sched\<rparr> of
           Some (Ok pollster, w) \<Rightarrow> run_and_join E pollster w
         | _ \<Rightarrow> None))"

section \<open>Evaluation\<close>

lemma next_choice_cases:
  obtains f where "next_choice sched = (0, f)" | f where "next_choice sched = (1, f)"
    | m f where "next_choice sched = (Suc (Suc m), f)"
  by (metis (no_types) One_nat_def not0_implies_Suc surj_pair)

lemma next_choice_zero:
  obtains f where "next_choice sched = (0, f)" | m f where "next_choice sched = (Suc m, f)"
  by (metis (no_types) not0_implies_Suc surj_pair)

lemma next_choice_flip:
  obtains m where "next_choice sched = (m, True)" | m where "next_choice sched = (m, False)"
  by (metis (full_types) surj_pair)

lemma is_Ok_simps [simp]: "is_Ok (Ok x)" "\<not> is_Ok (Err e)"
  by (simp_all add: is_Ok_def)

lemma expect_simps [simp]: "expect True t = t" "expect False t = Worker_failed"
  by (simp_all add: expect_def)

lemma unwrap_simps [simp]: "unwrap (Ok x) c = c x" "unwrap (Err e) c = Worker_failed"
  by (simp_all add: unwrap_def)

text \<open>The rules for a worker as the tests write it, so that a run does not unfold what is still to be done.
  While nothing is ready it makes no difference whether a call comes before the wait or during it.\<close>

lemma run_calls_simps [simp]:
  "run_calls (recv_eq req t) k = (recv_eq req t, k)"
  "run_calls (hangups_until_drop fd t) k = (hangups_until_drop fd t, k)"
  "run_calls (call f c) k = (case f k of (r, k) \<Rightarrow> run_calls (c r) k)"
  "run_calls (drop_fd fd t) k = run_calls t (k_close fd k)"
  "run_calls (checked a t) k = (case a k of (ok, k) \<Rightarrow> run_calls (expect ok t) k)"
  "run_calls (write_close_byte fd t) k = (case k_write fd [1] k of (r, k) \<Rightarrow>
     run_calls (drop_fd fd (expect (is_Ok r) t)) k)"
  by (simp_all add: recv_eq_def hangups_until_drop_def call_def drop_fd_def checked_def write_close_byte_def
      case_prod_unfold)

lemma take_request_simps [simp]:
  "take_request req (recv_eq r t) = Some (expect (r = req) t)"
  "take_request req (hangups_until_drop fd t) = Some
     (case req of
        OnHangup fd' \<Rightarrow> if fd' = fd then Send [] (hangups_until_drop fd t) else Worker_failed
      | Drop \<Rightarrow> Send [] t
      | _ \<Rightarrow> Worker_failed)"
  by (auto simp: recv_eq_def hangups_until_drop_def split: ChannelManagerReq.splits)

lemma beside_wait_simps [simp]:
  "beside_wait E n (recv_eq req t) k = (recv_eq req t, k)"
  "beside_wait E n (hangups_until_drop fd t) k = (hangups_until_drop fd t, k)"
  "beside_wait E n (call f c) k = (case f k of (r, k') \<Rightarrow>
     if ready E k = [] then beside_wait E n (c r) k'
     else if n = 0 then (call f c, k) else beside_wait E (n - 1) (c r) k')"
  "beside_wait E n (drop_fd fd t) k =
     (if ready E k = [] then beside_wait E n t (k_close fd k)
      else if n = 0 then (drop_fd fd t, k) else beside_wait E (n - 1) t (k_close fd k))"
  "beside_wait E n (checked a t) k = (case a k of (ok, k') \<Rightarrow>
     if ready E k = [] then beside_wait E n (expect ok t) k'
     else if n = 0 then (checked a t, k) else beside_wait E (n - 1) (expect ok t) k')"
  "beside_wait E n (write_close_byte fd t) k = (case k_write fd [1] k of (r, k') \<Rightarrow>
     if ready E k = [] then beside_wait E n (drop_fd fd (expect (is_Ok r) t)) k'
     else if n = 0 then (write_close_byte fd t, k)
     else beside_wait E (n - 1) (drop_fd fd (expect (is_Ok r) t)) k')"
  by (simp_all add: recv_eq_def hangups_until_drop_def call_def drop_fd_def checked_def write_close_byte_def
      case_prod_unfold)

lemma test_platform_simps [simp]:
  "plat_events (test_platform E) = E" "epoll_wait (test_platform E) ep t evs w = k_wait E evs w"
  "epoll_ctl (test_platform E) ep op fd ev w = in_kernel (k_ctl op fd ev) w"
  "epoll_create (test_platform E) b w =
     (Ok (k_next (kernel w)), w\<lparr>kernel := (kernel w)\<lparr>k_next := k_next (kernel w) + 1\<rparr>\<rparr>)"
  by (simp_all add: test_platform_def)

lemma blocking_manager_simps [simp]:
  "cm_initialize (blocking_manager E) = blocking_initialize E"
  "cm_on_readable (blocking_manager E) = blocking_handler E OnReadable"
  "cm_on_writable (blocking_manager E) = blocking_handler E OnWritable"
  "cm_on_hangup (blocking_manager E) = blocking_handler E OnHangup"
  by (simp_all add: blocking_manager_def)

text \<open>A test that is \<open>x\<close> after an iteration of the loop.\<close>

definition after_iteration :: "events_api \<Rightarrow> control \<times> BlockingChannelManager Pollster \<times> test_world \<Rightarrow> unit option" where
  "after_iteration E x =
     (case x of
        (Continue, p, w) \<Rightarrow> run_and_join E p w
      | (Return (Ok _), p, w) \<Rightarrow> do {
          w \<leftarrow> drop_manager w;
          (case run_calls (worker w) (kernel w) of
             (Worker_done, k) \<Rightarrow> if child_waited k then Some () else None
           | _ \<Rightarrow> None)
        }
      | _ \<Rightarrow> None)"

lemma run_and_join_step:
  assumes "run_iteration (test_platform E) (blocking_manager E) p w = Some x"
  shows "run_and_join E p w = after_iteration E x"
  using assms by (subst run_and_join_def, subst run.simps)
    (auto simp: run_and_join_def after_iteration_def split: prod.split control.split io_result.split option.split)

lemma after_iteration_simps [simp]:
  "after_iteration E (Continue, p, w) = run_and_join E p w"
  "after_iteration E (Return (Ok u), p, w) = do {
     w \<leftarrow> drop_manager w;
     (case run_calls (worker w) (kernel w) of
        (Worker_done, k) \<Rightarrow> if child_waited k then Some () else None
      | _ \<Rightarrow> None)
   }"
  by (simp_all add: after_iteration_def)

lemma last_resort_simps [simp]:
  "k_connecting k = None \<Longrightarrow> last_resort E k = k"
  "k_connecting k = Some l \<Longrightarrow> last_resort E k = (if ready E k = [] then k_connect k else k)"
  by (simp_all add: last_resort_def k_connect_def)

lemma child_until_ready_simps [simp]: "ready E k \<noteq> [] \<Longrightarrow> child_until_ready E k = Some k"
  by (simp add: child_until_ready_def while_option_unfold)

text \<open>A wait, once it is known how far the worker gets and what is ready then.\<close>

lemma k_wait_eq [simp]:
  assumes "next_choice (schedule w) = (n, flip)" "in_tty child_turn (kernel w) = k0" "beside_wait E n (worker w) k0 = (t, k)"
    "last_resort E k = k1" "child_until_ready E k1 = Some k'" "(if flip then rev (ready E k') else ready E k') = found" "found \<noteq> []" "evs \<noteq> []"
  shows "k_wait E evs w =
    ((Ok (min (length found) (length evs)),
      take (min (length found) (length evs)) found @ drop (min (length found) (length evs)) evs),
     w\<lparr>kernel := k', worker := t, schedule := tl (schedule w)\<rparr>)"
  using assms unfolding k_wait_def by (auto simp: Let_def)

lemmas kernel_ops = boot_def k_pipe_def on_pipe_def k_write_def k_read_def k_close_def pending_of_def pending_def
  reported_def ready_def k_ctl_def in_kernel_def on_master_def pending_of_tty_def pipe_capacity_def would_block_def
lemmas worker_ops = exchange_def blocking_initialize_def blocking_handler_def drop_manager_def writes_def reads_def
lemmas test_ops = kernel_ops worker_ops registry_ops unregister_def remove_at_def loop_ops Let_def POLLSTER_MAX_FDS_def
lemmas start_ops = run_channel_test_def test_ops

end
