(* ===== verification/Pipe_Tests.thy ===== *)
theory Pipe_Tests
  imports Pollster_Tests
begin

text \<open>
  The tests of \<^verbatim>\<open>src/src/pollster.rs\<close> that use pipes, and that each of them passes under every schedule of
  its worker beside the event loop.
\<close>

section \<open>The tests\<close>

definition can_stop_via_channel :: "events_api \<Rightarrow> RawFd \<Rightarrow> task" where
  "can_stop_via_channel E close_write =
     recv_eq Initialize (
     Send [] (
     write_close_byte close_write (
     recv_eq Drop (
     Send [] Worker_done))))"

definition pipe_readable_and_hangup :: "events_api \<Rightarrow> RawFd \<Rightarrow> task" where
  "pipe_readable_and_hangup E close_write =
     call k_pipe (\<lambda>(msg_read, msg_write).
     recv_eq Initialize (
     Send [Register msg_read (EPOLLIN E)] (
     checked (writes msg_write [42]) (
     recv_eq (OnReadable msg_read) (
     checked (reads msg_read 42) (
     Send [] (
     drop_fd msg_write (
     recv_eq (OnHangup msg_read) (
     Send [] (
     write_close_byte close_write (
     hangups_until_drop msg_read (
     drop_fd msg_read Worker_done))))))))))))"

definition pipe_readable_unregister :: "events_api \<Rightarrow> RawFd \<Rightarrow> task" where
  "pipe_readable_unregister E close_write =
     call k_pipe (\<lambda>(msg_read, msg_write).
     recv_eq Initialize (
     Send [Register msg_read (EPOLLIN E)] (
     checked (writes msg_write [42]) (
     recv_eq (OnReadable msg_read) (
     checked (reads msg_read 42) (
     Send [Unregister msg_read] (
     drop_fd msg_write (
     write_close_byte close_write (
     recv_eq Drop (
     Send [] (
     drop_fd msg_read Worker_done)))))))))))"

definition pipe_readable_partial_read :: "events_api \<Rightarrow> RawFd \<Rightarrow> task" where
  "pipe_readable_partial_read E close_write =
     call k_pipe (\<lambda>(msg_read, msg_write).
     recv_eq Initialize (
     Send [Register msg_read (EPOLLIN E)] (
     checked (writes msg_write [42, 43]) (
     recv_eq (OnReadable msg_read) (
     checked (reads msg_read 42) (
     Send [] (
     drop_fd msg_write (
     recv_eq (OnReadable msg_read) (
     checked (reads msg_read 43) (
     Send [] (
     recv_eq (OnHangup msg_read) (
     Send [Unregister msg_read] (
     write_close_byte close_write (
     recv_eq Drop (
     Send [] (
     drop_fd msg_read Worker_done))))))))))))))))"

definition pipe_writable :: "events_api \<Rightarrow> RawFd \<Rightarrow> task" where
  "pipe_writable E close_write =
     call k_pipe (\<lambda>(msg_read, msg_write).
     recv_eq Initialize (
     Send [Register msg_write (EPOLLOUT E)] (
     checked (writes msg_write [42, 43]) (
     recv_eq (OnWritable msg_write) (
     checked (writes msg_write [42]) (
     Send [] (
     checked (reads msg_read 42) (
     recv_eq (OnWritable msg_write) (
     Send [PollWritable msg_write False] (
     drop_fd msg_read (
     recv_eq (OnHangup msg_write) (
     Send [] (
     write_close_byte close_write (
     hangups_until_drop msg_write (
     drop_fd msg_write Worker_done)))))))))))))))"

definition pipe_writable_no_hangup :: "events_api \<Rightarrow> RawFd \<Rightarrow> task" where
  "pipe_writable_no_hangup E close_write =
     call k_pipe (\<lambda>(msg_read, msg_write).
     recv_eq Initialize (
     Send [Register msg_write (EPOLLOUT E)] (
     checked (writes msg_write [42, 43]) (
     recv_eq (OnWritable msg_write) (
     checked (writes msg_write [42]) (
     Send [Unregister msg_write] (
     checked (reads msg_read 42) (
     drop_fd msg_read (
     write_close_byte close_write (
     recv_eq Drop (
     Send [] (
     drop_fd msg_write Worker_done))))))))))))"

definition pipe_tests :: "(events_api \<Rightarrow> RawFd \<Rightarrow> task) list" where
  "pipe_tests = [can_stop_via_channel, pipe_readable_and_hangup, pipe_readable_unregister,
     pipe_readable_partial_read, pipe_writable, pipe_writable_no_hangup]"

section \<open>The tests pass\<close>

lemma can_stop_via_channel_passes: "run_channel_test linux_events sched boot (can_stop_via_channel linux_events) = Some ()"
  by (cases rule: next_choice_cases [of sched]) (simp_all add: can_stop_via_channel_def start_ops run_and_join_step)

text \<open>A test at its final loop: the hung-up descriptor may be reported again before, with or after the close
  notification.\<close>

definition at_hangup :: "Event list \<Rightarrow> Events \<Rightarrow> RawFd \<Rightarrow> BlockingChannelManager Pollster" where
  "at_hangup evs es fd =
     \<lparr>poll_fd = 5, close_fd = 3, poll_events = evs,
      fd_set = \<lparr>existing = [\<lparr>pfd_fd = fd, pfd_event = \<lparr>events = es, event_data = fd_data fd\<rparr>, new_events = es\<rparr>],
                new = [], removed = []\<rparr>,
      channel_mgr = Blocking_channel_manager\<rparr>"

definition hangup_world :: "kernel_pipe \<Rightarrow> Events \<Rightarrow> RawFd \<Rightarrow> (nat \<times> bool) list \<Rightarrow> test_world" where
  "hangup_world msg es fd sched =
     \<lparr>kernel = \<lparr>k_pipes = [\<lparr>p_read = 3, p_write = 4, p_queue = [], p_reader = True, p_writer = True\<rparr>, msg],
        k_conns = [], k_listeners = [], k_connecting = None, k_connected = None, k_tty = None,
        k_interest = [(3, \<lparr>events = 1, event_data = 3\<rparr>), (fd, \<lparr>events = es, event_data = fd_data fd\<rparr>)], k_next = 8\<rparr>,
      worker = write_close_byte 4 (hangups_until_drop fd (drop_fd fd Worker_done)), schedule = sched\<rparr>"

lemmas hangup_defs = at_hangup_def hangup_world_def

lemma hangups_of_reader:
  assumes "length evs = 5" "evs \<noteq> []"
  shows "run_and_join linux_events (at_hangup evs 1 6)
     (hangup_world \<lparr>p_read = 6, p_write = 7, p_queue = [], p_reader = True, p_writer = False\<rparr> 1 6 sched) = Some ()"
proof (cases rule: next_choice_cases [of sched])
  case (1 f)
  then show ?thesis
    using assms by (cases rule: next_choice_flip [of "tl sched"]) (simp_all add: hangup_defs run_and_join_step test_ops)
next
  case (2 f)
  then show ?thesis using assms by (cases f) (simp_all add: hangup_defs run_and_join_step test_ops)
next
  case (3 m f)
  then show ?thesis using assms by (cases f) (simp_all add: hangup_defs run_and_join_step test_ops)
qed

lemma hangups_of_writer:
  assumes "length evs = 5" "evs \<noteq> []"
  shows "run_and_join linux_events (at_hangup evs 0 7)
     (hangup_world \<lparr>p_read = 6, p_write = 7, p_queue = q, p_reader = False, p_writer = True\<rparr> 0 7 sched) = Some ()"
proof (cases rule: next_choice_cases [of sched])
  case (1 f)
  then show ?thesis
    using assms by (cases rule: next_choice_flip [of "tl sched"]) (simp_all add: hangup_defs run_and_join_step test_ops)
next
  case (2 f)
  then show ?thesis using assms by (cases f) (simp_all add: hangup_defs run_and_join_step test_ops)
next
  case (3 m f)
  then show ?thesis using assms by (cases f) (simp_all add: hangup_defs run_and_join_step test_ops)
qed

lemma pipe_readable_and_hangup_passes:
  "run_channel_test linux_events sched boot (pipe_readable_and_hangup linux_events) = Some ()"
proof -
  obtain n f n' f' where "next_choice sched = (n, f)" "next_choice (tl sched) = (n', f')" by fastforce
  note ops = pipe_readable_and_hangup_def start_ops this and finish = hangups_of_reader [unfolded hangup_defs fd_data_def, simplified]
  show ?thesis
    by (simp add: ops run_and_join_step finish)
qed

lemma pipe_readable_unregister_passes:
  "run_channel_test linux_events sched boot (pipe_readable_unregister linux_events) = Some ()"
  by (cases rule: next_choice_cases [of sched]; cases rule: next_choice_cases [of "tl sched"])
    (simp_all add: pipe_readable_unregister_def start_ops run_and_join_step)

lemma pipe_readable_partial_read_passes:
  "run_channel_test linux_events sched boot (pipe_readable_partial_read linux_events) = Some ()"
proof -
  obtain n f where 1: "next_choice sched = (n, f)" by fastforce
  obtain n' f' where 3: "next_choice (tl (tl sched)) = (n', f')" by fastforce
  note ops = pipe_readable_partial_read_def start_ops run_and_join_step
  show ?thesis
  proof (cases rule: next_choice_zero [of "tl sched"])
    case (1 g)
    then show ?thesis
      using \<open>next_choice sched = (n, f)\<close> 3
      by (cases rule: next_choice_zero [of "tl (tl (tl sched))"]) (simp_all add: ops)
  next
    case (2 m g)
    then show ?thesis
      using \<open>next_choice sched = (n, f)\<close> by (cases rule: next_choice_zero [of "tl (tl sched)"]) (simp_all add: ops)
  qed
qed

lemma pipe_writable_no_hangup_passes:
  "run_channel_test linux_events sched boot (pipe_writable_no_hangup linux_events) = Some ()"
  by (cases rule: next_choice_cases [of sched]; cases rule: next_choice_cases [of "tl sched"])
    (simp_all add: pipe_writable_no_hangup_def start_ops run_and_join_step)

lemma pipe_writable_passes: "run_channel_test linux_events sched boot (pipe_writable linux_events) = Some ()"
proof -
  obtain n f where "next_choice (tl (tl sched)) = (n, f)" by fastforce
  note ops = pipe_writable_def start_ops this and finish = hangups_of_writer [unfolded hangup_defs fd_data_def, simplified]
  show ?thesis
    by (cases rule: next_choice_zero [of sched]; cases rule: next_choice_zero [of "tl sched"])
      (simp_all add: ops run_and_join_step finish)
qed

lemma pipe_tests_pass:
  "list_all (\<lambda>test. run_channel_test linux_events sched boot (test linux_events) = Some ()) pipe_tests"
  by (simp add: pipe_tests_def can_stop_via_channel_passes pipe_readable_and_hangup_passes
      pipe_readable_unregister_passes pipe_readable_partial_read_passes pipe_writable_passes
      pipe_writable_no_hangup_passes)

end
