(* ===== verification/Socket_Tests.thy ===== *)
theory Socket_Tests
  imports Pipe_Tests
begin

text \<open>
  The tests of \<^verbatim>\<open>src/src/pollster.rs\<close> that use a listening socket and a thread that connects to it, and that each
  of them passes under every schedule. The path of the socket in the file system is not part of the model.
\<close>

section \<open>The tests\<close>

definition run_socket_test ::
  "events_api \<Rightarrow> bool \<Rightarrow> (nat \<times> bool) list \<Rightarrow> (RawFd \<Rightarrow> RawFd \<Rightarrow> task) \<Rightarrow> unit option" where
  "run_socket_test E at_once sched test =
     run_channel_test E sched boot (\<lambda>close_write.
       call k_listen (\<lambda>listener.
       call (\<lambda>k. ((), k_spawn_connect at_once listener k)) (\<lambda>_.
       test close_write listener)))"

definition socket_accept_recv_send :: "events_api \<Rightarrow> RawFd \<Rightarrow> RawFd \<Rightarrow> task" where
  "socket_accept_recv_send E close_write listener =
     recv_eq Initialize (
     Send [Register listener (EPOLLIN E)] (
     recv_eq (OnReadable listener) (
     call (k_accept listener) (\<lambda>r. unwrap r (\<lambda>client.
     Send [Register client (EPOLLIN E)] (
     call k_join (\<lambda>r. unwrap r (\<lambda>peer.
     checked (sends peer [42]) (
     recv_eq (OnReadable client) (
     checked (receives client 42) (
     Send [PollWritable client True] (
     recv_eq (OnWritable client) (
     checked (sends client [43]) (
     Send [PollWritable client False] (
     checked (receives peer 43) (
     drop_fd peer (
     recv_eq (OnReadable client) (
     checked (receives_end client) (
     Send [Unregister client] (
     recv_eq (OnHangup client) (
     Send [] (
     write_close_byte close_write (
     recv_eq Drop (
     Send [] (
     drop_fd client (drop_fd listener Worker_done))))))))))))))))))))))))))"

text \<open>The loops that two of the tests end with. In the first, every event must be seen, a writable one only if the
  test asked for it; what a test does about an event follows its response.\<close>

definition seen_next :: "act list \<Rightarrow> task \<Rightarrow> seen \<Rightarrow> task round" where
  "seen_next acts t s =
     (case s of (seen_readable, seen_writable, seen_hup, bytes) \<Rightarrow>
        if seen_readable \<and> seen_writable \<and> seen_hup then Break (Send [] (foldr checked acts t)) else Again [] acts s)"

definition seen_round :: "bool \<Rightarrow> RawFd \<Rightarrow> task \<Rightarrow> seen \<Rightarrow> ChannelManagerReq \<Rightarrow> task round" where
  "seen_round writable client t s req =
     (case s of (seen_readable, seen_writable, seen_hup, bytes) \<Rightarrow>
      case req of
        OnReadable fd \<Rightarrow>
          if fd = client then seen_next [receives_end client] t (True, seen_writable, seen_hup, bytes) else Panic
      | OnWritable fd \<Rightarrow>
          if writable \<and> fd = client then seen_next [send_breaks client] t (seen_readable, True, seen_hup, bytes) else Panic
      | OnHangup fd \<Rightarrow>
          if fd = client then seen_next [] t (seen_readable, seen_writable, True, bytes) else Panic
      | _ \<Rightarrow> Panic)"

definition until_all_seen :: "bool \<Rightarrow> RawFd \<Rightarrow> seen \<Rightarrow> task \<Rightarrow> task" where
  "until_all_seen writable client s t = Recv_loop s (seen_round writable client t)"

definition events_until_drop :: "bool \<Rightarrow> RawFd \<Rightarrow> task \<Rightarrow> task" where
  "events_until_drop writable client t = Recv_loop unseen (\<lambda>_ req.
     case req of
       OnReadable fd \<Rightarrow> if fd = client then Again [] [receives_end client] unseen else Panic
     | OnWritable fd \<Rightarrow> if writable \<and> fd = client then Again [] [send_breaks client] unseen else Panic
     | OnHangup fd \<Rightarrow> if fd = client then Again [] [] unseen else Panic
     | Drop \<Rightarrow> Break (Send [] t)
     | _ \<Rightarrow> Panic)"

definition writable_until_byte :: "RawFd \<Rightarrow> u8 \<Rightarrow> task \<Rightarrow> task" where
  "writable_until_byte client x t = Recv_loop unseen (\<lambda>_ req.
     case req of
       OnWritable fd \<Rightarrow> if fd = client then Again [] [] unseen else Panic
     | OnReadable fd \<Rightarrow> if fd = client then Break (checked (receives client x) (Send [] t)) else Panic
     | _ \<Rightarrow> Panic)"

definition socket_read_shutdown :: "events_api \<Rightarrow> RawFd \<Rightarrow> RawFd \<Rightarrow> task" where
  "socket_read_shutdown E close_write listener =
     recv_eq Initialize (
     Send [Register listener (EPOLLIN E)] (
     recv_eq (OnReadable listener) (
     call (k_accept listener) (\<lambda>r. unwrap r (\<lambda>client.
     Send [Register client (ev_set E (EPOLLIN E) (EPOLLOUT E) True)] (
     call k_join (\<lambda>r. unwrap r (\<lambda>peer.
     checked (shuts_down True False peer) (
     recv_eq (OnWritable client) (
     Send [] (
     checked (send_breaks client) (
     checked (sends peer [42]) (
     writable_until_byte client 42 (
     drop_fd peer (
     until_all_seen True client unseen (
     write_close_byte close_write (
     events_until_drop True client (
     drop_fd client (drop_fd listener Worker_done)))))))))))))))))))"

definition socket_write_shutdown :: "events_api \<Rightarrow> RawFd \<Rightarrow> RawFd \<Rightarrow> task" where
  "socket_write_shutdown E close_write listener =
     recv_eq Initialize (
     Send [Register listener (EPOLLIN E)] (
     recv_eq (OnReadable listener) (
     call (k_accept listener) (\<lambda>r. unwrap r (\<lambda>client.
     Send [Register client (EPOLLIN E)] (
     call k_join (\<lambda>r. unwrap r (\<lambda>peer.
     checked (shuts_down False True peer) (
     recv_eq (OnReadable client) (
     Send [] (
     checked (receives_end client) (
     drop_fd peer (
     until_all_seen False client (False, True, False, []) (
     write_close_byte close_write (
     events_until_drop False client (
     drop_fd client (drop_fd listener Worker_done)))))))))))))))))"

definition socket_tests :: "(events_api \<Rightarrow> RawFd \<Rightarrow> RawFd \<Rightarrow> task) list" where
  "socket_tests = [socket_accept_recv_send, socket_read_shutdown, socket_write_shutdown]"

section \<open>The tests pass\<close>

lemma run_calls_loops [simp]:
  "run_calls (until_all_seen b fd s t) k = (until_all_seen b fd s t, k)"
  "run_calls (events_until_drop b fd t) k = (events_until_drop b fd t, k)"
  "run_calls (writable_until_byte fd x t) k = (writable_until_byte fd x t, k)"
  by (simp_all add: until_all_seen_def events_until_drop_def writable_until_byte_def)

lemma beside_wait_loops [simp]:
  "beside_wait E n (until_all_seen b fd s t) k = (until_all_seen b fd s t, k)"
  "beside_wait E n (events_until_drop b fd t) k = (events_until_drop b fd t, k)"
  "beside_wait E n (writable_until_byte fd x t) k = (writable_until_byte fd x t, k)"
  by (simp_all add: until_all_seen_def events_until_drop_def writable_until_byte_def)

definition seen_reply :: "bool \<Rightarrow> RawFd \<Rightarrow> act list \<Rightarrow> task \<Rightarrow> seen \<Rightarrow> task" where
  "seen_reply b client acts t s =
     Send [] (foldr checked acts (if s = (True, True, True, []) then t else until_all_seen b client s t))"

lemma take_request_loops [simp]:
  "take_request req (until_all_seen b client (r, w, h, []) t) = Some
     (case req of
        OnReadable fd \<Rightarrow> if fd = client then seen_reply b client [receives_end client] t (True, w, h, []) else Worker_failed
      | OnWritable fd \<Rightarrow> if b \<and> fd = client then seen_reply b client [send_breaks client] t (r, True, h, []) else Worker_failed
      | OnHangup fd \<Rightarrow> if fd = client then seen_reply b client [] t (r, w, True, []) else Worker_failed
      | _ \<Rightarrow> Worker_failed)"
  "take_request req (events_until_drop b client t) = Some
     (case req of
        OnReadable fd \<Rightarrow> if fd = client then Send [] (checked (receives_end client) (events_until_drop b client t)) else Worker_failed
      | OnWritable fd \<Rightarrow> if b \<and> fd = client then Send [] (checked (send_breaks client) (events_until_drop b client t)) else Worker_failed
      | OnHangup fd \<Rightarrow> if fd = client then Send [] (events_until_drop b client t) else Worker_failed
      | Drop \<Rightarrow> Send [] t
      | _ \<Rightarrow> Worker_failed)"
  "take_request req (writable_until_byte client x t) = Some
     (case req of
        OnWritable fd \<Rightarrow> if fd = client then Send [] (writable_until_byte client x t) else Worker_failed
      | OnReadable fd \<Rightarrow> if fd = client then checked (receives client x) (Send [] t) else Worker_failed
      | _ \<Rightarrow> Worker_failed)"
  by (auto simp: until_all_seen_def seen_round_def seen_next_def seen_reply_def events_until_drop_def
      writable_until_byte_def split: ChannelManagerReq.splits)

lemmas socket_ops = k_listen_def k_spawn_connect_def k_connect_def k_join_def k_accept_def new_endpoint_def
  on_socket_def k_send_def k_recv_def k_shutdown_def close_end_def pending_of_end_def sends_def receives_def
  receives_end_def send_breaks_def shuts_down_def unseen_def seen_reply_def

text \<open>The two shutdown tests at their final loop: the peer is gone, and every event asked for is reported with the
  hangup until the close notification ends the run.\<close>

definition at_end :: "bool \<Rightarrow> Event list \<Rightarrow> BlockingChannelManager Pollster" where
  "at_end writable evs =
     (let es = (if writable then 5 else 1) in
      \<lparr>poll_fd = 5, close_fd = 3, poll_events = evs,
       fd_set = \<lparr>existing = [\<lparr>pfd_fd = 6, pfd_event = \<lparr>events = 1, event_data = 6\<rparr>, new_events = 1\<rparr>,
          \<lparr>pfd_fd = 8, pfd_event = \<lparr>events = es, event_data = 8\<rparr>, new_events = es\<rparr>], new = [], removed = []\<rparr>,
       channel_mgr = Blocking_channel_manager\<rparr>)"

definition end_world :: "bool \<Rightarrow> (nat \<times> bool) list \<Rightarrow> test_world" where
  "end_world writable sched =
     \<lparr>kernel = \<lparr>k_pipes = [\<lparr>p_read = 3, p_write = 4, p_queue = [], p_reader = True, p_writer = True\<rparr>],
        k_conns = [(\<lparr>e_fd = None, e_queue = [], e_receive = False, e_send = False\<rparr>,
          \<lparr>e_fd = Some 8, e_queue = [], e_receive = False, e_send = False\<rparr>)],
        k_listeners = [(6, [])], k_connecting = None, k_connected = Some 7, k_tty = None,
        k_interest = [(3, \<lparr>events = 1, event_data = 3\<rparr>), (6, \<lparr>events = 1, event_data = 6\<rparr>),
          (8, \<lparr>events = if writable then 5 else 1, event_data = 8\<rparr>)], k_next = 9\<rparr>,
      worker = write_close_byte 4 (events_until_drop writable 8 (drop_fd 8 (drop_fd 6 Worker_done))),
      schedule = sched\<rparr>"

lemmas end_ops = at_end_def end_world_def test_ops socket_ops run_and_join_step

lemma ends_on_close:
  assumes "length evs = 5" "evs \<noteq> []"
  shows "run_and_join linux_events (at_end writable evs) (end_world writable sched) = Some ()"
proof (cases rule: next_choice_cases [of sched])
  case (1 f)
  then show ?thesis
    using assms by (cases rule: next_choice_flip [of "tl sched"]; cases writable) (simp_all add: end_ops)
next
  case (2 f)
  then show ?thesis using assms by (cases f; cases writable) (simp_all add: end_ops)
next
  case (3 m f)
  then show ?thesis using assms by (cases f; cases writable) (simp_all add: end_ops)
qed

lemma socket_accept_recv_send_passes:
  "run_socket_test linux_events at_once sched (socket_accept_recv_send linux_events) = Some ()"
proof -
  obtain n1 f1 n2 f2 n3 f3 n4 f4 where choices: "next_choice sched = (n1, f1)" "next_choice (tl sched) = (n2, f2)"
    "next_choice (tl (tl sched)) = (n3, f3)" "next_choice (tl (tl (tl sched))) = (n4, f4)" by (metis surj_pair)
  show ?thesis
    by (cases at_once; cases rule: next_choice_zero [of "tl (tl (tl (tl sched)))"];
        simp add: run_socket_test_def socket_accept_recv_send_def socket_ops start_ops run_and_join_step choices)
qed

text \<open>\<open>socket_read_shutdown\<close> once it has seen that the socket is writable.\<close>

definition shut_world :: "(nat \<times> bool) list \<Rightarrow> test_world" where
  "shut_world sched =
     \<lparr>kernel = \<lparr>k_pipes = [\<lparr>p_read = 3, p_write = 4, p_queue = [], p_reader = True, p_writer = True\<rparr>],
        k_conns = [(\<lparr>e_fd = Some 7, e_queue = [], e_receive = False, e_send = True\<rparr>,
          \<lparr>e_fd = Some 8, e_queue = [], e_receive = True, e_send = False\<rparr>)],
        k_listeners = [(6, [])], k_connecting = None, k_connected = Some 7, k_tty = None,
        k_interest = [(3, \<lparr>events = 1, event_data = 3\<rparr>), (6, \<lparr>events = 1, event_data = 6\<rparr>),
          (8, \<lparr>events = 5, event_data = 8\<rparr>)], k_next = 9\<rparr>,
      worker = checked (send_breaks 8) (checked (sends 7 [42]) (writable_until_byte 8 42 (drop_fd 7
        (until_all_seen True 8 unseen (worker (end_world True [])))))),
      schedule = sched\<rparr>"

lemma read_shutdown_ends:
  assumes "length evs = 5" "evs \<noteq> []"
  shows "run_and_join linux_events (at_end True evs) (shut_world sched) = Some ()"
proof -
  note finish = ends_on_close [of _ True, unfolded at_end_def end_world_def, simplified] and ops = shut_world_def end_ops
  obtain n f where 2: "next_choice (tl sched) = (n, f)" by fastforce
  show ?thesis
  proof (cases rule: next_choice_cases [of sched])
    case (3 m f)
    then show ?thesis
      using assms by (cases rule: next_choice_zero [of "tl sched"]) (simp_all add: ops finish)
  qed (use assms 2 in \<open>cases rule: next_choice_zero [of "tl (tl sched)"]; simp add: ops finish\<close>)+
qed

lemma socket_read_shutdown_passes:
  "run_socket_test linux_events at_once sched (socket_read_shutdown linux_events) = Some ()"
proof -
  obtain n f where "next_choice sched = (n, f)" by fastforce
  note ops = this run_socket_test_def socket_read_shutdown_def start_ops end_ops
    read_shutdown_ends [unfolded at_end_def shut_world_def end_world_def unseen_def, simplified]
  show ?thesis
    by (cases at_once; cases rule: next_choice_cases [of "tl sched"]) (simp_all add: ops)
qed

text \<open>\<open>socket_write_shutdown\<close> once it has seen that the socket is readable.\<close>

definition half_world :: "(nat \<times> bool) list \<Rightarrow> test_world" where
  "half_world sched =
     \<lparr>kernel = \<lparr>k_pipes = [\<lparr>p_read = 3, p_write = 4, p_queue = [], p_reader = True, p_writer = True\<rparr>],
        k_conns = [(\<lparr>e_fd = Some 7, e_queue = [], e_receive = True, e_send = False\<rparr>,
          \<lparr>e_fd = Some 8, e_queue = [], e_receive = False, e_send = True\<rparr>)],
        k_listeners = [(6, [])], k_connecting = None, k_connected = Some 7, k_tty = None,
        k_interest = [(3, \<lparr>events = 1, event_data = 3\<rparr>), (6, \<lparr>events = 1, event_data = 6\<rparr>),
          (8, \<lparr>events = 1, event_data = 8\<rparr>)], k_next = 9\<rparr>,
      worker = checked (receives_end 8) (drop_fd 7 (until_all_seen False 8 (False, True, False, [])
        (worker (end_world False [])))),
      schedule = sched\<rparr>"

lemma write_shutdown_ends:
  assumes "length evs = 5" "evs \<noteq> []"
  shows "run_and_join linux_events (at_end False evs) (half_world sched) = Some ()"
proof -
  note finish = ends_on_close [of _ False, unfolded at_end_def end_world_def, simplified] and ops = half_world_def end_ops
  show ?thesis
  proof (cases rule: next_choice_cases [of sched])
    case (3 m f)
    then show ?thesis using assms by (simp add: ops finish)
  qed (use assms in \<open>cases rule: next_choice_zero [of "tl sched"]; simp add: ops finish\<close>)+
qed

lemma socket_write_shutdown_passes:
  "run_socket_test linux_events at_once sched (socket_write_shutdown linux_events) = Some ()"
proof -
  obtain n f m g where "next_choice sched = (n, f)" "next_choice (tl sched) = (m, g)" by (metis surj_pair)
  note ops = this run_socket_test_def socket_write_shutdown_def start_ops end_ops
    write_shutdown_ends [unfolded at_end_def half_world_def end_world_def, simplified]
  show ?thesis by (cases at_once) (simp_all add: ops)
qed

text \<open>A check of the model on the one kernel of \<open>Test_Kernel\<close>: the tests of the event loop on pipes and on sockets pass, whatever
  the worker has done by the time of each wait, in either of the two orders in which that kernel reports ready descriptors, and whether
  the peer connects at once or later: the close notification ends the run; what is readable is reported until it is read, and before its
  hangup; what is writable, as long as writing is asked for; a descriptor that was unregistered is not
  reported again; a connection is reported on the listener.\<close>

lemma loop_tests_pass:
  "list_all (\<lambda>test. run_channel_test linux_events sched boot (test linux_events) = Some ()) pipe_tests \<and>
   list_all (\<lambda>test. run_socket_test linux_events at_once sched (test linux_events) = Some ()) socket_tests"
  by (simp add: pipe_tests_pass socket_tests_def socket_accept_recv_send_passes socket_read_shutdown_passes
      socket_write_shutdown_passes)

end
