(* ===== verification/Pty_Tests.thy ===== *)
theory Pty_Tests
  imports Pollster_Tests Pty_Properties Pty_File
begin

unbundle bit_operations_syntax

text \<open>
  The tests on a pseudo-terminal of \<^verbatim>\<open>src/src/pollster.rs\<close> and the tests of \<^verbatim>\<open>src/src/pty.rs\<close>. They open the terminal
  with \<open>pty_open\<close> and run a program on it with \<open>pty_spawn\<close>, on a libc that works on the kernel of \<open>Test_Kernel\<close>. What
  the programs do is a parameter, of which \<open>coreutils\<close> states what is documented.
\<close>

section \<open>libc on the test kernel\<close>

definition slave_name :: "u8 list" where
  "slave_name = [47, 100, 101, 118, 47, 112, 116, 115, 47, 48]"

text \<open>The settings of a new terminal that the comment in \<^verbatim>\<open>Pty::spawn\<close> lists.\<close>

definition default_termios :: termios where
  "default_termios = \<lparr>c_iflag = 1280, c_oflag = 5, c_cflag = 983231, c_lflag = 35387, c_line = 0,
     c_cc = [3, 28, 127, 21, 4, 0, 1, 0, 17, 19, 26, 0, 18, 15, 23, 22] @ replicate 16 0, c_ispeed = 15, c_ospeed = 15\<rparr>"

definition new_tty :: "RawFd \<Rightarrow> tty" where
  "new_tty fd = \<lparr>t_master = fd, t_open = True, t_locked = True,
     t_size = \<lparr>ws_row = 0, ws_col = 0, ws_xpixel = 0, ws_ypixel = 0\<rparr>, t_termios = default_termios,
     t_line = [], t_input = [], t_output = [], t_slave = [], t_leader = False, t_ctty = False, t_hung = False,
     t_child = None, t_killed = False, t_pace = []\<rparr>"

text \<open>One terminal can be opened. A call that fails returns -1.\<close>

definition tty_openpt :: "c_int \<Rightarrow> test_kernel \<Rightarrow> c_int \<times> test_kernel" where
  "tty_openpt flags k =
     (case k_tty k of
        None \<Rightarrow> (k_next k, k\<lparr>k_tty := Some (new_tty (k_next k)), k_next := k_next k + 1\<rparr>)
      | Some _ \<Rightarrow> (-1, k))"

definition tty_open :: "u8 list \<Rightarrow> c_int \<Rightarrow> test_kernel \<Rightarrow> c_int \<times> test_kernel" where
  "tty_open path flags k =
     (case k_tty k of
        None \<Rightarrow> (-1, k)
      | Some t \<Rightarrow>
          if path = slave_name \<and> \<not> t_locked t
          then (k_next k, k\<lparr>k_tty := Some (t\<lparr>t_slave := t_slave t @ [k_next k], t_hung := False,
                   t_ctty := t_ctty t \<or> t_leader t \<and> flags AND 0x100 = 0\<rparr>), k_next := k_next k + 1\<rparr>)
          else (-1, k))"

definition tty_dup2 :: "RawFd \<Rightarrow> RawFd \<Rightarrow> test_kernel \<Rightarrow> c_int \<times> test_kernel" where
  "tty_dup2 src dest k =
     (case k_tty k of
        None \<Rightarrow> (-1, k)
      | Some t \<Rightarrow>
          if src \<in> set (t_slave t)
          then (dest, k\<lparr>k_tty := Some (t\<lparr>t_slave := filter (\<lambda>fd. fd \<noteq> dest) (t_slave t) @ [dest]\<rparr>)\<rparr>)
          else (-1, k))"

definition tty_setsid :: "test_kernel \<Rightarrow> c_int \<times> test_kernel" where
  "tty_setsid k =
     (case k_tty k of
        None \<Rightarrow> (-1, k)
      | Some t \<Rightarrow> if t_leader t then (-1, k) else (1000, k\<lparr>k_tty := Some (t\<lparr>t_leader := True, t_ctty := False\<rparr>)\<rparr>))"

definition tty_close :: "RawFd \<Rightarrow> test_kernel \<Rightarrow> test_kernel" where
  "tty_close fd k =
     (case k_tty k of
        None \<Rightarrow> k_close fd k
      | Some t \<Rightarrow>
          if fd \<in> set (t_slave t)
          then (let left = filter (\<lambda>x. x \<noteq> fd) (t_slave t) in
                k\<lparr>k_tty := Some (t\<lparr>t_slave := left, t_hung := left = []\<rparr>)\<rparr>)
          else k_close fd k)"

definition tty_libc :: "test_kernel libc" where
  "tty_libc =
     \<lparr>O_RDWR = 2, O_NOCTTY = 0x100, TCSANOW = 0, ONLCR = linux_ONLCR, NCCS = 32,
      c_open = tty_open, c_posix_openpt = tty_openpt,
      c_grantpt = (\<lambda>fd. on_master fd (\<lambda>t. (0, t)) (\<lambda>k. (-1, k))),
      c_unlockpt = (\<lambda>fd. on_master fd (\<lambda>t. (0, t\<lparr>t_locked := False\<rparr>)) (\<lambda>k. (-1, k))),
      c_ptsname = (\<lambda>fd. on_master fd (\<lambda>t. (Some (slave_name @ [0]), t)) (\<lambda>k. (None, k))),
      c_strlen = (\<lambda>mem. length (takeWhile (\<lambda>b. b \<noteq> 0) mem)), c_dup2 = tty_dup2,
      c_ioctl_winsz = (\<lambda>fd ws. on_master fd (\<lambda>t. (0, t\<lparr>t_size := ws\<rparr>)) (\<lambda>k. (-1, k))),
      c_tcgetattr = (\<lambda>fd out. on_master fd (\<lambda>t. ((0, t_termios t), t)) (\<lambda>k. ((-1, out), k))),
      c_tcsetattr = (\<lambda>fd act new. on_master fd (\<lambda>t. (0, t\<lparr>t_termios := new\<rparr>)) (\<lambda>k. (-1, k))),
      c_setsid = tty_setsid, c_close = tty_close, last_os_error = (\<lambda>_. would_block)\<rparr>"

section \<open>Programs\<close>

text \<open>What a command runs.\<close>

type_synonym commands = "string \<Rightarrow> string list \<Rightarrow> process_image option"

definition Command_new :: "string \<Rightarrow> test_kernel Command" where
  "Command_new name = \<lparr>program = name, prog_args = [], cmd_stdin = Inherit, cmd_stdout = Inherit, cmd_stderr = Inherit,
     pre_exec = None\<rparr>"

text \<open>\<^verbatim>\<open>Command::spawn\<close>: the forked child runs the closure and then the program. A descriptor that the child opens
  is not one of the parent.\<close>

definition tty_spawn :: "commands \<Rightarrow> test_kernel Command \<Rightarrow> test_kernel \<Rightarrow> Child io_result \<times> test_kernel" where
  "tty_spawn commands c k =
     (case (case pre_exec c of None \<Rightarrow> Some (Ok (), k) | Some f \<Rightarrow> f k) of
        None \<Rightarrow> (Err would_block, k)
      | Some (Err e, _) \<Rightarrow> (Err e, k)
      | Some (Ok _, child) \<Rightarrow>
          (case commands (program c) (prog_args c) of
             None \<Rightarrow> (Err (tty_error 2), k)
           | Some p \<Rightarrow> (Ok \<lparr>child_id = 1000, child_stdin = None, child_stdout = None, child_stderr = None\<rparr>,
                        (in_tty (\<lambda>t. t\<lparr>t_child := Some p\<rparr>) child)\<lparr>k_next := k_next k\<rparr>)))"

text \<open>\<^verbatim>\<open>cat\<close> writes what it reads, \<^verbatim>\<open>cat >/dev/null\<close> reads only; both end at the end of the input. \<^verbatim>\<open>yes\<close> writes lines
  \<^verbatim>\<open>y\<close> for ever, some number of them at a time. \<^verbatim>\<open>stty size\<close> prints rows and columns.\<close>

definition copies_input :: "process_image \<Rightarrow> bool" where
  "copies_input p \<longleftrightarrow> (\<exists>f. p = Get f \<and> f [] = Exit \<and> (\<forall>bs. bs \<noteq> [] \<longrightarrow> f bs = Put bs p))"

definition discards_input :: "process_image \<Rightarrow> bool" where
  "discards_input p \<longleftrightarrow> (\<exists>f. p = Get f \<and> f [] = Exit \<and> (\<forall>bs. bs \<noteq> [] \<longrightarrow> f bs = p))"

definition yes_lines :: "nat \<Rightarrow> u8 list" where
  "yes_lines n = concat (replicate n [121, NL])"

definition repeats_yes :: "process_image \<Rightarrow> bool" where
  "repeats_yes p \<longleftrightarrow> (\<exists>n. n > 0 \<and> p = Put (yes_lines n) p)"

fun decimal :: "nat \<Rightarrow> u8 list" where
  "decimal n = (if n < 10 then [48 + of_nat n] else decimal (n div 10) @ [48 + of_nat (n mod 10)])"

declare decimal.simps [simp del]

definition size_line :: "u16 \<Rightarrow> u16 \<Rightarrow> u8 list" where
  "size_line rows cols = decimal (unat rows) @ [32] @ decimal (unat cols) @ [NL]"

definition prints_size :: "process_image \<Rightarrow> bool" where
  "prints_size p \<longleftrightarrow> (\<exists>f. p = Get_size f \<and> (\<forall>ws. f (Some ws) = Put (size_line (ws_row ws) (ws_col ws)) Exit))"

definition runs :: "commands \<Rightarrow> string \<Rightarrow> string list \<Rightarrow> (process_image \<Rightarrow> bool) \<Rightarrow> bool" where
  "runs commands name args Q \<longleftrightarrow> (case commands name args of None \<Rightarrow> False | Some p \<Rightarrow> Q p)"

definition coreutils :: "commands \<Rightarrow> bool" where
  "coreutils commands \<longleftrightarrow>
     runs commands ''cat'' [] copies_input \<and>
     runs commands ''sh'' [''-c'', ''exec cat >/dev/null''] discards_input \<and>
     runs commands ''sh'' [''-c'', ''exec yes''] repeats_yes \<and>
     runs commands ''stty'' [''size''] prints_size"

section \<open>Workers on a terminal\<close>

text \<open>\<^verbatim>\<open>PtyFile\<close> makes these calls only.\<close>

definition kernel_platform :: "events_api \<Rightarrow> test_kernel platform" where
  "kernel_platform E =
     \<lparr>plat_events = E, EIO = 5, sys_read = k_read, sys_write = k_write, sys_flush = (\<lambda>fd k. (Ok (), k)),
      sys_accept = (\<lambda>fd k. (Err would_block, k)), sys_close = k_close,
      epoll_create = (\<lambda>_ k. (Err would_block, k)), epoll_ctl = (\<lambda>_ _ _ _ k. (Err would_block, k)),
      epoll_wait = (\<lambda>_ _ evs k. ((Err would_block, evs), k))\<rparr>"

definition bytes :: "string \<Rightarrow> u8 list" where
  "bytes s = map of_char s"

text \<open>\<^verbatim>\<open>assert_eq!(n, pty_master.write(bytes).unwrap())\<close> for \<open>n\<close> bytes, and \<^verbatim>\<open>pty_master.flush().unwrap()\<close>.\<close>

definition pty_writes :: "events_api \<Rightarrow> RawFd \<Rightarrow> u8 list \<Rightarrow> act" where
  "pty_writes E fd bs k =
     (case write_fn (pty_writer (kernel_platform E) fd) bs k of (r, k) \<Rightarrow>
        (case flush_fn (pty_writer (kernel_platform E) fd) k of (r', k) \<Rightarrow> (r = Ok (length bs) \<and> is_Ok r', k)))"

definition kill_child :: "test_kernel \<Rightarrow> unit \<times> test_kernel" where
  "kill_child k = ((), in_tty (\<lambda>t. t\<lparr>t_killed := True\<rparr>) k)"

text \<open>The read loops: \<open>goal\<close> bytes into a buffer of \<open>len\<close> bytes, of which the state holds what was read. A result
  larger than what is missing is the overflow of \<^verbatim>\<open>remaining -= chunk\<close>.\<close>

definition read_round ::
  "events_api \<Rightarrow> RawFd \<Rightarrow> nat \<Rightarrow> nat \<Rightarrow> (bool \<Rightarrow> ChannelManagerResp list) \<Rightarrow> (u8 list \<Rightarrow> task) \<Rightarrow> seen \<Rightarrow> ChannelManagerReq \<Rightarrow>
     task round" where
  "read_round E fd len goal resp t s req =
     (case s of (seen_readable, seen_writable, seen_hup, so_far) \<Rightarrow>
        if req = OnReadable fd
        then (let read = pty_read (kernel_platform E) fd (replicate (len - length so_far) 0) in
              Acting (\<lambda>k. snd (read k)) (\<lambda>k.
                case fst (read k) of
                  (Err _, _) \<Rightarrow> Panic
                | (Ok chunk, buf) \<Rightarrow>
                    if goal - length so_far < chunk then Panic
                    else (let so_far = so_far @ take chunk buf; last_iter = (goal - length so_far = 0) in
                          if last_iter then Break (Send (resp last_iter) (t so_far))
                          else Again (resp last_iter) [] (seen_readable, seen_writable, seen_hup, so_far))))
        else Panic)"

definition read_loop ::
  "events_api \<Rightarrow> RawFd \<Rightarrow> nat \<Rightarrow> nat \<Rightarrow> (bool \<Rightarrow> ChannelManagerResp list) \<Rightarrow> u8 list \<Rightarrow> (u8 list \<Rightarrow> task) \<Rightarrow> task" where
  "read_loop E fd len goal resp so_far t = Recv_loop (False, False, False, so_far) (read_round E fd len goal resp t)"

text \<open>\<^verbatim>\<open>while !(seen_writable && seen_hup)\<close>.\<close>

definition hup_round :: "RawFd \<Rightarrow> task \<Rightarrow> seen \<Rightarrow> ChannelManagerReq \<Rightarrow> task round" where
  "hup_round pty_fd t s req =
     (case s of (seen_readable, seen_writable, seen_hup, so_far) \<Rightarrow>
      case req of
        OnWritable fd \<Rightarrow>
          if fd = pty_fd
          then (if seen_hup then Break (Send [] t) else Again [] [] (seen_readable, True, seen_hup, so_far))
          else Panic
      | OnHangup fd \<Rightarrow>
          if fd = pty_fd
          then (if seen_writable then Break (Send [Unregister fd] t)
                else Again [Unregister fd] [] (seen_readable, seen_writable, True, so_far))
          else Panic
      | _ \<Rightarrow> Panic)"

definition until_hup :: "RawFd \<Rightarrow> bool \<Rightarrow> task \<Rightarrow> task" where
  "until_hup pty_fd seen_writable t = Recv_loop (False, seen_writable, False, []) (hup_round pty_fd t)"

text \<open>\<^verbatim>\<open>while !seen_hup\<close>, which reads what is left.\<close>

definition drain_round :: "events_api \<Rightarrow> RawFd \<Rightarrow> nat \<Rightarrow> task \<Rightarrow> seen \<Rightarrow> ChannelManagerReq \<Rightarrow> task round" where
  "drain_round E pty_fd len t s req =
     (case req of
        OnReadable fd \<Rightarrow>
          if fd = pty_fd
          then (let read = pty_read (kernel_platform E) pty_fd (replicate len 0) in
                Acting (\<lambda>k. snd (read k)) (\<lambda>k.
                  case fst (read k) of
                    (Err _, _) \<Rightarrow> Panic
                  | (Ok n, _) \<Rightarrow> if n > 0 then Again [] [] s else Panic))
          else Panic
      | OnHangup fd \<Rightarrow> if fd = pty_fd then Break (Send [Unregister fd] t) else Panic
      | _ \<Rightarrow> Panic)"

definition drain_until_hup :: "events_api \<Rightarrow> RawFd \<Rightarrow> nat \<Rightarrow> task \<Rightarrow> task" where
  "drain_until_hup E pty_fd len t = Recv_loop unseen (drain_round E pty_fd len t)"

definition stop_test :: "RawFd \<Rightarrow> RawFd \<Rightarrow> task" where
  "stop_test pty_fd close_write =
     write_close_byte close_write (
     recv_eq Drop (
     Send [] (
     drop_fd pty_fd Worker_done)))"

section \<open>The tests of the event loop\<close>

definition run_pty_test ::
  "events_api \<Rightarrow> commands \<Rightarrow> nat list \<Rightarrow> (nat \<times> bool) list \<Rightarrow> test_kernel Command \<Rightarrow> (RawFd \<Rightarrow> RawFd \<Rightarrow> task) \<Rightarrow> unit option" where
  "run_pty_test E commands pace sched c test =
     (case pty_open tty_libc boot of
        (Err _, _) \<Rightarrow> None
      | (Ok p, k) \<Rightarrow>
          (case pty_spawn tty_libc (tty_spawn commands) p c k of
             (Err _, _) \<Rightarrow> None
           | (Ok (child, pty_master), k) \<Rightarrow>
               run_channel_test E sched (in_tty (\<lambda>t. t\<lparr>t_pace := pace\<rparr>) k) (test pty_master)))"

definition pty_read_write :: "events_api \<Rightarrow> RawFd \<Rightarrow> RawFd \<Rightarrow> task" where
  "pty_read_write E pty_fd close_write =
     recv_eq Initialize (
     Send [Register pty_fd (EPOLLOUT E)] (
     recv_eq (OnWritable pty_fd) (
     checked (pty_writes E pty_fd (bytes ''hello world'' @ [NL])) (
     Send [PollWritable pty_fd False, PollReadable pty_fd True] (
     read_loop E pty_fd 64 24 (\<lambda>last_iter. [PollWritable pty_fd last_iter]) [] (\<lambda>buffer.
     expect (buffer = bytes ''hello world'' @ [NL] @ bytes ''hello world'' @ [NL]) (
     recv_eq (OnWritable pty_fd) (
     checked (pty_writes E pty_fd [4]) (
     Send [] (
     until_hup pty_fd False (
     stop_test pty_fd close_write)))))))))))"

definition pty_write_no_read :: "events_api \<Rightarrow> RawFd \<Rightarrow> RawFd \<Rightarrow> task" where
  "pty_write_no_read E pty_fd close_write =
     recv_eq Initialize (
     Send [Register pty_fd (EPOLLOUT E)] (
     recv_eq (OnWritable pty_fd) (
     checked (pty_writes E pty_fd (bytes ''hello world'' @ [NL])) (
     Send [PollWritable pty_fd False, PollReadable pty_fd True] (
     recv_eq (OnReadable pty_fd) (
     call (pty_read (kernel_platform E) pty_fd (replicate 64 0)) (\<lambda>(r, buffer).
     expect (r = Ok 12) (
     Send [PollWritable pty_fd True] (
     recv_eq (OnWritable pty_fd) (
     checked (pty_writes E pty_fd [4]) (
     Send [] (
     until_hup pty_fd False (
     stop_test pty_fd close_write)))))))))))))"

definition pty_read_no_write :: "events_api \<Rightarrow> RawFd \<Rightarrow> RawFd \<Rightarrow> task" where
  "pty_read_no_write E pty_fd close_write =
     recv_eq Initialize (
     Send [Register pty_fd (EPOLLIN E)] (
     read_loop E pty_fd 16 16 (\<lambda>_. []) [] (\<lambda>buffer.
     expect (buffer = yes_lines 8) (
     call kill_child (\<lambda>_.
     drain_until_hup E pty_fd 16 (
     stop_test pty_fd close_write))))))"

definition pty_tests :: "(test_kernel Command \<times> (events_api \<Rightarrow> RawFd \<Rightarrow> RawFd \<Rightarrow> task)) list" where
  "pty_tests =
     [(Command_new ''cat'', pty_read_write),
      ((Command_new ''sh'')\<lparr>prog_args := [''-c'', ''exec cat >/dev/null'']\<rparr>, pty_write_no_read),
      ((Command_new ''sh'')\<lparr>prog_args := [''-c'', ''exec yes'']\<rparr>, pty_read_no_write)]"

section \<open>The tests of \<^verbatim>\<open>Pty\<close>\<close>

text \<open>A read of the master waits until there is output or the slave has hung up; \<open>None\<close> is a wait for ever.\<close>

definition master_waits :: "test_kernel \<Rightarrow> bool" where
  "master_waits k = (case k_tty k of None \<Rightarrow> False | Some t \<Rightarrow> t_output t = [] \<and> \<not> t_hung t)"

definition blocking_read ::
  "events_api \<Rightarrow> RawFd \<Rightarrow> u8 list \<Rightarrow> test_kernel \<Rightarrow> ((nat io_result \<times> u8 list) \<times> test_kernel) option" where
  "blocking_read E fd s k =
     (case while_option master_waits (in_tty child_step) (in_tty child_turn k) of
        None \<Rightarrow> None
      | Some k \<Rightarrow> Some (pty_read (kernel_platform E) fd s k))"

text \<open>\<^verbatim>\<open>Read::read_to_string\<close> of the standard library reads to the end, here 32 bytes at a time, and accepts UTF-8; the
  model accepts only ASCII, which is all that the tests expect.\<close>

partial_function (option) read_to_end ::
  "events_api \<Rightarrow> RawFd \<Rightarrow> u8 list \<Rightarrow> test_kernel \<Rightarrow> (u8 list io_result \<times> test_kernel) option" where
  "read_to_end E fd output k =
     (case blocking_read E fd (replicate 32 0) k of
        None \<Rightarrow> None
      | Some ((Ok n, s), k) \<Rightarrow>
          if n = 0 then Some (Ok output, k) else read_to_end E fd (output @ take n s) k
      | Some ((Err e, _), k) \<Rightarrow> if kind e = Interrupted then read_to_end E fd output k else Some (Err e, k))"

definition read_to_string :: "events_api \<Rightarrow> RawFd \<Rightarrow> test_kernel \<Rightarrow> (u8 list io_result \<times> test_kernel) option" where
  "read_to_string E fd k = do {
     (r, k) \<leftarrow> read_to_end E fd [] k;
     (case r of
        Ok output \<Rightarrow> Some (if list_all (\<lambda>b. b < 128) output then Ok output else Err (error_of_kind InvalidData), k)
      | Err e \<Rightarrow> Some (Err e, k))
   }"

text \<open>From \<^verbatim>\<open>spawn\<close> to the last assertion. \<open>input\<close> is what the test writes with \<^verbatim>\<open>write_all\<close> before it reads, if anything.\<close>

definition spawn_and_read ::
  "events_api \<Rightarrow> commands \<Rightarrow> nat list \<Rightarrow> Pty \<Rightarrow> test_kernel Command \<Rightarrow> u8 list \<Rightarrow> u8 list \<Rightarrow> test_kernel \<Rightarrow> unit option" where
  "spawn_and_read E commands pace p c input expected k =
     (case pty_spawn tty_libc (tty_spawn commands) p c k of
        (Err _, _) \<Rightarrow> None
      | (Ok (subproc, pty_master), k) \<Rightarrow> do {
          (written, k) \<leftarrow> write_all (pty_writer (kernel_platform E) pty_master) input k;
          (r, k) \<leftarrow> read_to_string E pty_master (in_tty (\<lambda>t. t\<lparr>t_pace := pace\<rparr>) k);
          (case r of
             Ok output \<Rightarrow> if is_Ok written \<and> child_waited k \<and> expected = output then Some () else None
           | Err _ \<Rightarrow> None)
        })"

definition spawn_default_winsize :: "events_api \<Rightarrow> commands \<Rightarrow> nat list \<Rightarrow> unit option" where
  "spawn_default_winsize E commands pace =
     (let stty = (Command_new ''stty'')\<lparr>prog_args := [''size'']\<rparr> in
      case pty_open tty_libc boot of
        (Err _, _) \<Rightarrow> None
      | (Ok pty, k) \<Rightarrow>
          spawn_and_read E commands pace pty stty [] (size_line DEFAULT_PTY_ROWS DEFAULT_PTY_COLS) k)"

definition spawn_custom_winsize :: "events_api \<Rightarrow> commands \<Rightarrow> nat list \<Rightarrow> unit option" where
  "spawn_custom_winsize E commands pace =
     (let stty = (Command_new ''stty'')\<lparr>prog_args := [''size'']\<rparr> in
      case pty_open tty_libc boot of
        (Err _, _) \<Rightarrow> None
      | (Ok pty, k) \<Rightarrow>
          (let pty = set_rows 32 pty; pty = set_columns 80 pty in
           spawn_and_read E commands pace pty stty [] (bytes ''32 80'' @ [NL]) k))"

definition read_and_write :: "events_api \<Rightarrow> commands \<Rightarrow> nat list \<Rightarrow> unit option" where
  "read_and_write E commands pace =
     (let head = Command_new ''cat'' in
      case pty_open tty_libc boot of
        (Err _, _) \<Rightarrow> None
      | (Ok pty, k) \<Rightarrow>
          spawn_and_read E commands pace pty head (bytes ''hello'' @ [NL] @ bytes ''world'' @ [NL] @ [4])
            (bytes ''hello'' @ [NL] @ bytes ''world'' @ [NL] @ bytes ''hello'' @ [NL] @ bytes ''world'' @ [NL]) k)"

end
