(* ===== verification/Pty_Test_Runs.thy ===== *)
theory Pty_Test_Runs
  imports Pty_Tests
begin

unbundle bit_operations_syntax

text \<open>
  That the tests of the event loop in \<open>Pty_Tests\<close> pass, for every schedule of the worker, however fast the child is and with
  any programs that do what \<open>coreutils\<close> says.
\<close>

section \<open>The terminal of a test\<close>

text \<open>The terminal once a program was started on it, and the kernel with the terminal and the descriptors of the
  event loop.\<close>

definition pty :: "nat list \<Rightarrow> winsize \<Rightarrow> u8 list \<Rightarrow> u8 list list \<Rightarrow> process_image option \<Rightarrow> bool \<Rightarrow> tty" where
  "pty pace ws out inp p killed = \<lparr>t_master = 3, t_open = True, t_locked = False, t_size = ws,
     t_termios = default_termios\<lparr>c_oflag := 1\<rparr>, t_line = [], t_input = inp, t_output = out,
     t_slave = (if p = None then [] else [0, 1, 2]), t_leader = True, t_ctty = True, t_hung = (p = None),
     t_child = p, t_killed = killed, t_pace = pace\<rparr>"

definition opened_kernel :: test_kernel where
  "opened_kernel = snd (pty_open tty_libc boot)"

definition default_size :: winsize where
  "default_size = \<lparr>ws_row = DEFAULT_PTY_ROWS, ws_col = DEFAULT_PTY_COLS, ws_xpixel = 0, ws_ypixel = 0\<rparr>"

definition spawned_kernel :: "tty \<Rightarrow> test_kernel" where
  "spawned_kernel t = boot\<lparr>k_tty := Some t, k_next := 4\<rparr>"

lemma spawned_kernel_simps [simp]:
  "k_tty (spawned_kernel t) = Some t" "(spawned_kernel t)\<lparr>k_tty := Some t'\<rparr> = spawned_kernel t'"
  by (simp_all add: spawned_kernel_def boot_def)

lemmas open_ops = pty_open_def safe_openpt_def safe_grantpt_def safe_unlockpt_def cvt_def cvt_fd_def tty_libc_def
  tty_openpt_def on_master_def new_tty_def boot_def Let_def

lemma pty_opens: "pty_open tty_libc boot = (Ok \<lparr>master = 3, pty_winsize = default_size\<rparr>, opened_kernel)"
  by (simp add: opened_kernel_def open_ops default_size_def)

lemma pty_spawns:
  assumes "commands (program c) (prog_args c) = Some img"
  shows "pty_spawn tty_libc (tty_spawn commands) \<lparr>master = 3, pty_winsize = ws\<rparr> c opened_kernel =
    (Ok (\<lparr>child_id = 1000, child_stdin = None, child_stdout = None, child_stderr = None\<rparr>, 3),
     spawned_kernel (pty [] ws [] [] (Some img) False))"
  using assms
  by (simp add: opened_kernel_def spawned_kernel_def open_ops pty_spawn_def clear_onlcr_def safe_set_tty_size_def
      safe_tcgetattr_def safe_tcsetattr_def safe_ptsname_def cstring_new_def enter_pty_def dup_stdio_def safe_open_def
      safe_dup2_def retry_eval interrupted_def tty_open_def tty_dup2_def tty_setsid_def tty_close_def tty_spawn_def
      slave_name_def default_termios_def pty_def linux_ONLCR_def)

definition pty_kernel :: "Events \<Rightarrow> tty \<Rightarrow> test_kernel" where
  "pty_kernel es t = \<lparr>k_pipes = [\<lparr>p_read = 4, p_write = 5, p_queue = [], p_reader = True, p_writer = True\<rparr>],
     k_conns = [], k_listeners = [], k_connecting = None, k_connected = None, k_tty = Some t,
     k_interest = [(4, \<lparr>events = 1, event_data = 4\<rparr>), (3, \<lparr>events = es, event_data = 3\<rparr>)], k_next = 7\<rparr>"

lemma pty_kernel_ready [simp]:
  "ready linux_events (pty_kernel 1 (pty pace ws out inp p killed)) =
     (if out = [] \<and> p \<noteq> None then []
      else [\<lparr>events = (if out = [] then 0 else 1) OR (if p = None then 16 else 0), event_data = 3\<rparr>])"
  "ready linux_events (pty_kernel 4 (pty pace ws out inp p killed)) =
     [\<lparr>events = 4 OR (if p = None then 16 else 0), event_data = 3\<rparr>]"
  "ready linux_events (pty_kernel 5 (pty pace ws out inp p killed)) =
     [\<lparr>events = (if out = [] then 0 else 1) OR 4 OR (if p = None then 16 else 0), event_data = 3\<rparr>]"
  by (simp_all add: pty_kernel_def pty_def kernel_ops tty_events_def linux_event_simps)

lemma pty_kernel_ctl [simp]:
  "k_ctl EPOLL_CTL_MOD 3 \<lparr>events = es', event_data = 3\<rparr> (pty_kernel es t) = (Ok (), pty_kernel es' t)"
  "k_connecting (pty_kernel es t) = None" "k_tty (pty_kernel es t) = Some t"
  "(pty_kernel es t)\<lparr>k_tty := Some t'\<rparr> = pty_kernel es t'"
  by (simp_all add: pty_kernel_def k_ctl_def)

text \<open>Reading and writing the master.\<close>

lemma pty_read_master:
  assumes "k_tty k = Some (pty pace ws out inp p killed)"
  shows "pty_read (kernel_platform E) 3 s k =
     (if out \<noteq> []
      then ((Ok (min (length s) (length out)), take (min (length s) (length out)) out @
               drop (min (length s) (length out)) s),
            k\<lparr>k_tty := Some (pty pace ws (drop (min (length s) (length out)) out) inp p killed)\<rparr>)
      else ((if p = None then Ok 0 else Err (tty_error 11), s),
            k\<lparr>k_tty := Some (pty pace ws out inp p killed)\<rparr>))"
  using assms
  by (simp add: pty_read_def kernel_platform_def k_read_def on_master_def tty_read_def pty_def ignore_eio_def tty_error_def
      Let_def)

lemmas pty_kernel_read [simp] = pty_read_master [OF pty_kernel_ctl(3), unfolded pty_kernel_ctl(4)]
lemmas spawned_read = pty_read_master [OF spawned_kernel_simps(1), unfolded spawned_kernel_simps(2)]

lemma bytes_simps: "bytes [] = []" "bytes (c # cs) = of_char c # bytes cs"
  by (simp_all add: bytes_def)

lemma length_bytes [simp]: "length (bytes s) = length s"
  by (simp add: bytes_def)

lemmas write_ops = pty_writes_def pty_writer_def kernel_platform_def k_write_def on_master_def tty_write_def
  type_char_def plain_char_def VEOF_def NL_def out_char_def linux_OPOST_def linux_ONLCR_def pty_def ignore_eio_def is_Ok_def

lemma pty_kernel_write [simp]:
  "pty_writes E 3 [4] (pty_kernel es (pty pace ws out inp p killed)) =
     (True, pty_kernel es (pty pace ws out (inp @ [[]]) p killed))"
  "pty_writes E 3 (bytes ''hello world'' @ [NL]) (pty_kernel es (pty pace ws out inp p killed)) =
     (True, pty_kernel es (pty pace ws (out @ bytes ''hello world'' @ [NL]) (inp @ [bytes ''hello world'' @ [NL]]) p killed))"
  by (simp_all add: write_ops bytes_simps of_char_def)

lemma kill_child_simp [simp]:
  "kill_child (pty_kernel es (pty pace ws out inp p killed)) = ((), pty_kernel es (pty pace ws out inp p True))"
  by (simp add: kill_child_def pty_def)

section \<open>The child\<close>

lemma child_step_simps [simp]:
  "child_step (pty pace ws out inp None killed) = pty pace ws out inp None killed"
  "child_step (pty pace ws out inp (Some p) True) = pty pace ws out inp None True"
  "child_step (pty pace ws out inp (Some Exit) False) = pty pace ws out inp None False"
  "child_step (pty pace ws out [] (Some (Get f)) False) = pty pace ws out [] (Some (Get f)) False"
  "child_step (pty pace ws out (l # ls) (Some (Get f)) False) = pty pace ws out ls (Some (f l)) False"
  "child_step (pty pace ws out inp (Some (Get_size h)) False) = pty pace ws out inp (Some (h (Some ws))) False"
  "child_step (pty pace ws out inp (Some (Put (b # bs) q)) False) =
     (if length out + 2 \<le> tty_capacity
      then pty pace ws (out @ [b]) inp (Some (if bs = [] then q else Put bs q)) False
      else pty pace ws out inp (Some (Put (b # bs) q)) False)"
  by (simp_all add: child_step_def child_ends_def pty_def out_char_def linux_ONLCR_def linux_OPOST_def Let_def)

lemma pty_simps [simp]:
  "(pty pace ws out inp p killed)\<lparr>t_pace := ns\<rparr> = pty ns ws out inp p killed"
  "t_pace (pty pace ws out inp p killed) = pace" "t_child (pty pace ws out inp p killed) = p"
  "t_output (pty pace ws out inp p killed) = out" "t_master (pty pace ws out inp p killed) = 3"
  "t_open (pty pace ws out inp p killed)"
  by (simp_all add: pty_def)

lemma child_steps_ended [simp]:
  "(child_step ^^ n) (pty pace ws out inp None killed) = pty pace ws out inp None killed"
  by (induction n) simp_all

lemma child_turn_eq:
  "child_turn (pty pace ws out inp p killed) =
     (child_step ^^ (case pace of [] \<Rightarrow> 1 | n # ns \<Rightarrow> n)) (pty (tl pace) ws out inp p killed)"
  by (simp add: child_turn_def split: list.split)

lemma blocked_steps:
  "(child_step ^^ n) (pty pace ws out [] (Some (Get f)) False) = pty pace ws out [] (Some (Get f)) False"
  by (induction n) simp_all

lemma blocked_turn:
  "child_turn (pty pace ws out [] (Some (Get f)) False) = pty (tl pace) ws out [] (Some (Get f)) False"
  by (simp add: child_turn_eq blocked_steps)

section \<open>The beginning and the end of a test\<close>

definition at_pty :: "Event list \<Rightarrow> Events \<Rightarrow> BlockingChannelManager Pollster" where
  "at_pty evs es = \<lparr>poll_fd = 6, close_fd = 4, poll_events = evs,
     fd_set = \<lparr>existing = [\<lparr>pfd_fd = 3, pfd_event = \<lparr>events = es, event_data = 3\<rparr>, new_events = es\<rparr>], new = [], removed = []\<rparr>,
     channel_mgr = Blocking_channel_manager\<rparr>"

lemmas turn_ops = worker_ops registry_ops unregister_def remove_at_def loop_ops in_kernel_def Let_def

lemma run_pty_test_eq:
  assumes "commands (program c) (prog_args c) = Some p" "test 3 5 = recv_eq Initialize (Send [Register 3 es] t)"
    and es: "es = 1 \<or> es = 4"
    and "\<And>evs. length evs = 5 \<Longrightarrow> evs \<noteq> [] \<Longrightarrow> run_and_join linux_events (at_pty evs es)
      \<lparr>kernel = pty_kernel es (pty pace default_size [] [] (Some p) False), worker = t, schedule = sched\<rparr> = Some ()"
  shows "run_pty_test linux_events commands pace sched c test = Some ()"
proof -
  have "run_pty_test linux_events commands pace sched c test = run_channel_test linux_events sched
      (spawned_kernel (pty pace default_size [] [] (Some p) False)) (test 3)"
    by (simp add: run_pty_test_def pty_opens pty_spawns assms(1))
  moreover have "run_and_join linux_events (at_pty (replicate 5 \<lparr>events = 0, event_data = 0\<rparr>) es)
      \<lparr>kernel = pty_kernel es (pty pace default_size [] [] (Some p) False), worker = t, schedule = sched\<rparr> = Some ()"
    by (rule assms(4)) simp_all
  ultimately show ?thesis
    using es by (elim disjE) (simp_all add: assms(2) start_ops at_pty_def pty_kernel_def spawned_kernel_def)
qed

definition stopping :: "Event list \<Rightarrow> BlockingChannelManager Pollster" where
  "stopping evs = (at_pty evs 0)\<lparr>fd_set := \<lparr>existing = [], new = [], removed = []\<rparr>\<rparr>"

definition stopping_kernel :: "tty \<Rightarrow> test_kernel" where
  "stopping_kernel t = (pty_kernel 0 t)\<lparr>k_interest := [(4, \<lparr>events = 1, event_data = 4\<rparr>)]\<rparr>"

lemma pty_kernel_delete [simp]:
  "k_ctl EPOLL_CTL_DEL 3 ev (pty_kernel es t) = (Ok (), stopping_kernel t)"
  by (simp add: pty_kernel_def stopping_kernel_def k_ctl_def)

lemma stop_passes:
  assumes "length evs = 5" "evs \<noteq> []"
  shows "run_and_join linux_events (stopping evs)
     \<lparr>kernel = stopping_kernel (pty pace ws out inp None killed), worker = stop_test 3 5, schedule = sched\<rparr> = Some ()"
  using assms
  by (cases rule: next_choice_cases [of sched])
    (simp_all add: stopping_def stopping_kernel_def at_pty_def stop_test_def pty_kernel_def child_turn_eq
      test_ops run_and_join_step)

section \<open>The hangup\<close>

lemma loop_worker_simps [simp]:
  "run_calls (until_hup fd b t) k = (until_hup fd b t, k)"
  "beside_wait E n (until_hup fd b t) k = (until_hup fd b t, k)"
  "run_calls (drain_until_hup E fd len t) k = (drain_until_hup E fd len t, k)"
  "beside_wait E n (drain_until_hup E' fd len t) k = (drain_until_hup E' fd len t, k)"
  "run_calls (read_loop E fd len goal resp so_far f) k = (read_loop E fd len goal resp so_far f, k)"
  "beside_wait E n (read_loop E' fd len goal resp so_far f) k = (read_loop E' fd len goal resp so_far f, k)"
  "run_calls (stop_test fd fd') k = (case k_write fd' [1] k of (r, k) \<Rightarrow>
     run_calls (drop_fd fd' (expect (is_Ok r) (recv_eq Drop (Send [] (drop_fd fd Worker_done))))) k)"
  by (simp_all add: until_hup_def drain_until_hup_def read_loop_def stop_test_def)

lemma until_hup_takes [simp]:
  "take_request (OnWritable fd) (until_hup fd b t) = Some (Send [] (until_hup fd True t))"
  "take_request (OnHangup fd) (until_hup fd True t) = Some (Send [Unregister fd] t)"
  by (simp_all add: until_hup_def hup_round_def)

text \<open>The child after \<^verbatim>\<open>^D\<close>, \<open>i\<close> steps before it ends: it may still have a line to read that it discards, then the end
  of the input, and ends.\<close>

definition ending_pty :: "nat list \<Rightarrow> winsize \<Rightarrow> u8 list \<Rightarrow> process_image \<Rightarrow> nat \<Rightarrow> tty" where
  "ending_pty pace ws line p i =
     (if i = 0 then pty pace ws [] [] None False
      else if i = 1 then pty pace ws [] [] (Some Exit) False
      else if i = 2 then pty pace ws [] [[]] (Some p) False
      else pty pace ws [] [line, []] (Some p) False)"

lemma ending_steps:
  assumes "p = Get f" "f [] = Exit" "2 < i \<longrightarrow> f line = p" "i \<le> 3"
  shows "(child_step ^^ n) (ending_pty pace ws line p i) = ending_pty pace ws line p (i - n)"
  using assms(3,4)
proof (induction n)
  case (Suc n)
  have "child_step (ending_pty pace ws line p (i - n)) = ending_pty pace ws line p (i - Suc n)"
    using Suc.prems assms(2) unfolding assms(1) by (auto simp: ending_pty_def)
  then show ?case using Suc by simp
qed simp

lemma ending_turn:
  assumes "p = Get f" "f [] = Exit" "2 < i \<longrightarrow> f line = p" "i \<le> 3"
  shows "child_turn (ending_pty pace ws line p i) =
    ending_pty (tl pace) ws line p (i - (case pace of [] \<Rightarrow> 1 | n # ns \<Rightarrow> n))"
  using ending_steps [OF assms, of _ "tl pace"] child_turn_eq unfolding ending_pty_def by auto

lemma ending_ready:
  "ready linux_events (pty_kernel 5 (ending_pty pace ws line p i)) =
     [\<lparr>events = if i = 0 then 20 else 4, event_data = 3\<rparr>]"
  by (simp add: ending_pty_def)

lemma ending_zero: "ending_pty pace ws line p 0 = pty pace ws [] [] None False"
  by (simp add: ending_pty_def)

lemma hangup_ends:
  assumes "p = Get f" "f [] = Exit"
  shows "2 < i \<longrightarrow> f line = p \<Longrightarrow> i \<le> 3 \<Longrightarrow> 0 < i \<Longrightarrow> length evs = 5 \<Longrightarrow> evs \<noteq> [] \<Longrightarrow>
    run_and_join linux_events (at_pty evs 5)
      \<lparr>kernel = pty_kernel 5 (ending_pty pace ws line p i), worker = until_hup 3 b (stop_test 3 5), schedule = sched\<rparr> = Some ()"
proof (induction "length pace + i" arbitrary: pace i evs b sched rule: less_induct)
  case less
  define j where "j = i - (case pace of [] \<Rightarrow> 1 | n # ns \<Rightarrow> n)"
  obtain n flip where c: "next_choice sched = (n, flip)" by fastforce
  note turn = ending_turn [OF assms less.prems(1,2), of pace ws, folded j_def]
  show ?case
  proof (cases "j = 0")
    case True
    show ?thesis
      using less.prems stop_passes [unfolded stopping_def at_pty_def, simplified]
      by (simp add: run_and_join_step at_pty_def turn_ops c turn ending_ready True ending_zero)
  next
    case False
    have "length (tl pace) + j < length pace + i" "j \<le> i"
      using less.prems(3) False by (auto simp: j_def split: list.splits)
    then have "run_and_join linux_events (at_pty (\<lparr>events = 4, event_data = 3\<rparr> # tl evs) 5)
      \<lparr>kernel = pty_kernel 5 (ending_pty (tl pace) ws line p j), worker = until_hup 3 True (stop_test 3 5),
       schedule = tl sched\<rparr> = Some ()"
      using less.hyps [of "tl pace" j] less.prems False by simp
    then show ?thesis
      using less.prems by (simp add: run_and_join_step at_pty_def turn_ops c turn ending_ready False drop_Suc)
  qed
qed

text \<open>The two tests with a \<^verbatim>\<open>cat\<close>, when the \<^verbatim>\<open>^D\<close> is asked for.\<close>

definition type_eof :: task where
  "type_eof = recv_eq (OnWritable 3) (checked (pty_writes linux_events 3 [4]) (Send [] (until_hup 3 False (stop_test 3 5))))"

section \<open>A child that copies its input\<close>

definition cat_pty :: "nat list \<Rightarrow> winsize \<Rightarrow> process_image \<Rightarrow> u8 list \<Rightarrow> u8 list \<Rightarrow> bool \<Rightarrow> tty" where
  "cat_pty pace ws p out todo fetched =
     pty pace ws out (if fetched then [] else [todo]) (Some (if fetched \<and> todo \<noteq> [] then Put todo p else p)) False"

lemma cat_pty_simps [simp]:
  "ready linux_events (pty_kernel 1 (cat_pty pace ws p out todo fetched)) =
     (if out = [] then [] else [\<lparr>events = 1, event_data = 3\<rparr>])"
  "pty_read (kernel_platform E) 3 s (pty_kernel es (cat_pty pace ws p (b # out) todo fetched)) =
     ((Ok (min (length s) (Suc (length out))), take (min (length s) (Suc (length out))) (b # out) @
         drop (min (length s) (Suc (length out))) s),
      pty_kernel es (cat_pty pace ws p (drop (min (length s) (Suc (length out))) (b # out)) todo fetched))"
  by (simp_all add: cat_pty_def)

lemma cat_step:
  assumes "copies_input p" "fetched \<or> todo \<noteq> []" "length (out @ todo) + 2 \<le> tty_capacity"
  shows "child_step (cat_pty pace ws p out todo fetched) =
    (if \<not> fetched then cat_pty pace ws p out todo True
     else cat_pty pace ws p (out @ take 1 todo) (tl todo) True)"
proof -
  obtain f where "p = Get f" "\<forall>bs. bs \<noteq> [] \<longrightarrow> f bs = Put bs p" using assms(1) by (auto simp: copies_input_def)
  then show ?thesis
    using assms(2,3) by (cases todo) (auto simp: cat_pty_def)
qed

lemma cat_steps:
  assumes "copies_input p" "fetched \<or> todo \<noteq> []" "length (out @ todo) + 2 \<le> tty_capacity"
  obtains out' todo' fetched' where
    "(child_step ^^ n) (cat_pty pace ws p out todo fetched) = cat_pty pace ws p out' todo' fetched'"
    "out' @ todo' = out @ todo" "fetched' \<or> todo' \<noteq> []"
  using assms(2,3)
proof (induction n arbitrary: thesis)
  case 0
  then show ?case by (intro "0.prems"(1)) simp_all
next
  case (Suc n)
  from Suc.IH [OF _ Suc.prems(2,3)] obtain out' todo' fetched' where
    IH: "(child_step ^^ n) (cat_pty pace ws p out todo fetched) = cat_pty pace ws p out' todo' fetched'"
    "out' @ todo' = out @ todo" "fetched' \<or> todo' \<noteq> []" by blast
  have "length (out' @ todo') + 2 \<le> tty_capacity" using Suc.prems(3) IH(2) by simp
  from cat_step [OF assms(1) IH(3) this] show ?case
    using IH by (cases fetched'; cases todo') (auto intro!: Suc.prems(1) simp flip: IH(2))
qed

lemma cat_until_ready:
  assumes "copies_input p" "fetched \<or> todo \<noteq> []" "length (out @ todo) + 2 \<le> tty_capacity" "out @ todo \<noteq> []"
  obtains out' todo' fetched' where
    "child_until_ready linux_events (pty_kernel 1 (cat_pty pace ws p out todo fetched)) =
       Some (pty_kernel 1 (cat_pty pace ws p out' todo' fetched'))"
    "out' @ todo' = out @ todo" "fetched' \<or> todo' \<noteq> []" "out' \<noteq> []"
proof (cases "out = []")
  case True
  then obtain b bs where t: "todo = b # bs" using assms(4) by (cases todo) auto
  note step = cat_step [OF assms(1)]
  have stop: "child_until_ready linux_events (pty_kernel 1 (cat_pty pace ws p [b] bs True)) =
      Some (pty_kernel 1 (cat_pty pace ws p [b] bs True))" by simp
  have "child_until_ready linux_events (pty_kernel 1 (cat_pty pace ws p [] (b # bs) True)) =
      child_until_ready linux_events (pty_kernel 1 (cat_pty pace ws p [b] bs True))"
    unfolding child_until_ready_def
    by (subst while_option_unfold) (use assms(3) True t in \<open>simp add: step\<close>)
  moreover have "child_until_ready linux_events (pty_kernel 1 (cat_pty pace ws p [] (b # bs) False)) =
      child_until_ready linux_events (pty_kernel 1 (cat_pty pace ws p [] (b # bs) True))"
    unfolding child_until_ready_def
    by (subst while_option_unfold) (use assms(3) True t in \<open>simp add: step\<close>)
  ultimately show ?thesis
    using that [of "[b]" bs True] True t stop by (cases fetched) simp_all
next
  case False
  then show ?thesis using assms(2) by (intro that [of out todo fetched]) simp_all
qed

lemma cat_wait:
  assumes "copies_input p" "fetched \<or> todo \<noteq> []" "length (out @ todo) + 2 \<le> tty_capacity" "out @ todo \<noteq> []"
  obtains out1 todo1 fetched1 out' todo' fetched' where
    "child_turn (cat_pty pace ws p out todo fetched) = cat_pty (tl pace) ws p out1 todo1 fetched1"
    "child_until_ready linux_events (pty_kernel 1 (cat_pty (tl pace) ws p out1 todo1 fetched1)) =
       Some (pty_kernel 1 (cat_pty (tl pace) ws p out' todo' fetched'))"
    "out' @ todo' = out @ todo" "fetched' \<or> todo' \<noteq> []" "out' \<noteq> []"
proof -
  obtain out1 todo1 fetched1 where
    1: "(child_step ^^ (case pace of [] \<Rightarrow> 1 | n # ns \<Rightarrow> n)) (cat_pty (tl pace) ws p out todo fetched) =
        cat_pty (tl pace) ws p out1 todo1 fetched1"
      "out1 @ todo1 = out @ todo" "fetched1 \<or> todo1 \<noteq> []"
    by (rule cat_steps [OF assms(1-3)])
  have "length (out1 @ todo1) + 2 \<le> tty_capacity" "out1 @ todo1 \<noteq> []"
    using assms(3,4) unfolding 1(2) by blast+
  from cat_until_ready [OF assms(1) 1(3) this, of "tl pace" ws] 1 show ?thesis
    by (metis cat_pty_def child_turn_eq that)
qed

lemma read_loop_takes [simp]:
  "take_request (OnReadable fd) (read_loop E fd len goal resp so_far t) = Some
     (call (pty_read (kernel_platform E) fd (replicate (len - length so_far) 0)) (\<lambda>(r, buf).
      case r of
        Err _ \<Rightarrow> Worker_failed
      | Ok chunk \<Rightarrow>
          if goal - length so_far < chunk then Worker_failed
          else if goal - length (so_far @ take chunk buf) = 0 then Send (resp True) (t (so_far @ take chunk buf))
          else Send (resp False) (read_loop E fd len goal resp (so_far @ take chunk buf) t)))"
  by (auto simp: read_loop_def read_round_def call_def Let_def split: prod.split io_result.split)

lemma cat_ends:
  assumes "copies_input p" "length evs = 5" "evs \<noteq> []"
  shows "run_and_join linux_events (at_pty evs 5)
      \<lparr>kernel = pty_kernel 5 (pty pace ws [] [] (Some p) False), worker = type_eof, schedule = sched\<rparr> = Some ()"
proof -
  obtain f where f: "p = Get f" "f [] = Exit" using assms(1) by (auto simp: copies_input_def)
  obtain n flip where c: "next_choice sched = (n, flip)" by fastforce
  have eof: "pty (tl pace) ws [] [[]] (Some p) False = ending_pty (tl pace) ws [] p 2" by (simp add: ending_pty_def)
  have "run_and_join linux_events (at_pty (\<lparr>events = 4, event_data = 3\<rparr> # drop (Suc 0) evs) 5)
      \<lparr>kernel = pty_kernel 5 (ending_pty (tl pace) ws [] p 2), worker = until_hup 3 False (stop_test 3 5),
       schedule = tl sched\<rparr> = Some ()"
    by (rule hangup_ends [OF f]) (use assms in simp_all)
  then show ?thesis
    using assms(2,3)
    by (simp add: run_and_join_step at_pty_def turn_ops c type_eof_def f(1) blocked_turn eof [unfolded f(1), simplified])
qed

text \<open>The read loop of \<open>pty_read_write\<close>: with \<open>todo\<close> the copy that the child has yet to write.\<close>

lemma read_loop_ends:
  assumes "copies_input p"
    and after: "\<And>evs pace sched. length evs = 5 \<Longrightarrow> evs \<noteq> [] \<Longrightarrow> run_and_join linux_events (at_pty evs 5)
      \<lparr>kernel = pty_kernel 5 (cat_pty pace ws p [] [] True), worker = t (so_far @ out @ todo), schedule = sched\<rparr> = Some ()"
  shows "fetched \<or> todo \<noteq> [] \<Longrightarrow> out @ todo \<noteq> [] \<Longrightarrow> length (so_far @ out @ todo) = 24 \<Longrightarrow>
    length evs = 5 \<Longrightarrow> evs \<noteq> [] \<Longrightarrow>
    run_and_join linux_events (at_pty evs 1)
      \<lparr>kernel = pty_kernel 1 (cat_pty pace ws p out todo fetched),
       worker = read_loop linux_events 3 64 24 (\<lambda>last_iter. [PollWritable 3 last_iter]) so_far t, schedule = sched\<rparr> = Some ()"
  using after
proof (induction "length (out @ todo)" arbitrary: so_far out todo fetched pace evs sched rule: less_induct)
  case less
  obtain n flip where c: "next_choice sched = (n, flip)" by fastforce
  have "length (out @ todo) + 2 \<le> tty_capacity" using less.prems(3) by (simp add: tty_capacity_def)
  from cat_wait [OF assms(1) less.prems(1) this less.prems(2), of pace ws]
  obtain out1 todo1 fetched1 out' todo' fetched' where
    turn: "child_turn (cat_pty pace ws p out todo fetched) = cat_pty (tl pace) ws p out1 todo1 fetched1" and
    wait: "child_until_ready linux_events (pty_kernel 1 (cat_pty (tl pace) ws p out1 todo1 fetched1)) =
       Some (pty_kernel 1 (cat_pty (tl pace) ws p out' todo' fetched'))" and
    cat: "out' @ todo' = out @ todo" "fetched' \<or> todo' \<noteq> []" "out' \<noteq> []" by blast
  obtain b bs where out': "out' = b # bs" using cat(3) by (cases out') auto
  have "length so_far + length out' + length todo' = 24"
    using less.prems(3) arg_cong [OF cat(1), of length] by simp
  then have len: "length out' \<le> 64 - length so_far" "\<not> 24 - length so_far < length out'"
      "24 - (length so_far + length out') = 0 \<longleftrightarrow> todo' = []" by (auto simp flip: length_0_conv)
  note go = run_and_join_step at_pty_def turn_ops c turn wait out'
  show ?case
  proof (cases "todo' = []")
    case True
    have "run_and_join linux_events (at_pty (\<lparr>events = 1, event_data = 3\<rparr> # drop (Suc 0) evs) 5)
      \<lparr>kernel = pty_kernel 5 (cat_pty (tl pace) ws p [] [] True), worker = t (so_far @ out'),
       schedule = tl sched\<rparr> = Some ()"
      using less.prems(4-6) True cat by simp
    then show ?thesis
      using less.prems(4,5) cat(2) len True by (simp add: go min_absorb2)
  next
    case False
    have "length ([] @ todo') < length (out @ todo)"
      using arg_cong [OF cat(1), of length] out' by simp
    from less.hyps [OF this, of fetched' "so_far @ out'" "\<lparr>events = 1, event_data = 3\<rparr> # drop (Suc 0) evs" "tl pace" "tl sched"]
    have "run_and_join linux_events (at_pty (\<lparr>events = 1, event_data = 3\<rparr> # drop (Suc 0) evs) 1)
      \<lparr>kernel = pty_kernel 1 (cat_pty (tl pace) ws p [] todo' fetched'),
       worker = read_loop linux_events 3 64 24 (\<lambda>last_iter. [PollWritable 3 last_iter]) (so_far @ out') t,
       schedule = tl sched\<rparr> = Some ()"
      using less.prems(3-6) False cat by simp
    then show ?thesis
      using less.prems(4,5) False len by (simp add: go min_absorb2)
  qed
qed

lemma pty_read_write_passes:
  assumes "commands ''cat'' [] = Some p" "copies_input p"
  shows "run_pty_test linux_events commands pace sched (Command_new ''cat'') (pty_read_write linux_events) = Some ()"
proof (rule run_pty_test_eq)
  let ?line = "bytes ''hello world'' @ [NL]"
  let ?reading = "read_loop linux_events 3 64 24 (\<lambda>last_iter. [PollWritable 3 last_iter]) []
    (\<lambda>buffer. expect (buffer = ?line @ ?line) type_eof)"
  show "commands (program (Command_new ''cat'')) (prog_args (Command_new ''cat'')) = Some p"
    using assms(1) by (simp add: Command_new_def)
  show "pty_read_write linux_events 3 5 = recv_eq Initialize (Send [Register 3 4]
      (recv_eq (OnWritable 3) (checked (pty_writes linux_events 3 ?line) (Send [PollWritable 3 False, PollReadable 3 True] ?reading))))"
    by (simp add: pty_read_write_def type_eof_def linux_event_simps)
  show "(4 :: Events) = 1 \<or> (4 :: Events) = 4" by simp
  fix evs :: "Event list"
  assume evs: "length evs = 5" "evs \<noteq> []"
  obtain f where f: "p = Get f" using assms(2) by (auto simp: copies_input_def)
  obtain n flip where c: "next_choice sched = (n, flip)" by fastforce
  have "run_and_join linux_events (at_pty (\<lparr>events = 4, event_data = 3\<rparr> # drop (Suc 0) evs) 1)
      \<lparr>kernel = pty_kernel 1 (cat_pty (tl pace) default_size p ?line ?line False), worker = ?reading, schedule = tl sched\<rparr> = Some ()"
    by (rule read_loop_ends [OF assms(2)])
      (use evs in \<open>simp_all add: cat_ends [OF assms(2)] cat_pty_def\<close>)
  then show "run_and_join linux_events (at_pty evs 4)
      \<lparr>kernel = pty_kernel 4 (pty pace default_size [] [] (Some p) False), worker =
         recv_eq (OnWritable 3) (checked (pty_writes linux_events 3 ?line) (Send [PollWritable 3 False, PollReadable 3 True] ?reading)),
       schedule = sched\<rparr> = Some ()"
    using evs by (simp add: run_and_join_step at_pty_def turn_ops c f blocked_turn cat_pty_def)
qed

section \<open>A child that reads and writes nothing\<close>

lemma discard_steps:
  assumes "p = Get f" "f line = p" "inp = [] \<or> inp = [line]"
  obtains inp' where "inp' = [] \<or> inp' = [line]"
    "(child_step ^^ n) (pty pace ws out inp (Some p) False) = pty pace ws out inp' (Some p) False"
proof -
  have "\<exists>inp'. (inp' = [] \<or> inp' = [line]) \<and>
      (child_step ^^ n) (pty pace ws out inp (Some p) False) = pty pace ws out inp' (Some p) False"
  proof (induction n)
    case (Suc n)
    then obtain inp' where "inp' = [] \<or> inp' = [line]"
      "(child_step ^^ n) (pty pace ws out inp (Some p) False) = pty pace ws out inp' (Some p) False" by blast
    then have "(child_step ^^ Suc n) (pty pace ws out inp (Some p) False) = pty pace ws out [] (Some p) False"
      using assms(1,2) by (elim disjE) simp_all
    then show ?case by blast
  qed (use assms(3) in auto)
  then show ?thesis using that by blast
qed

lemma pty_write_no_read_passes:
  assumes "commands ''sh'' [''-c'', ''exec cat >/dev/null''] = Some p" "discards_input p"
  shows "run_pty_test linux_events commands pace sched
    ((Command_new ''sh'')\<lparr>prog_args := [''-c'', ''exec cat >/dev/null'']\<rparr>) (pty_write_no_read linux_events) = Some ()"
proof (rule run_pty_test_eq)
  let ?line = "bytes ''hello world'' @ [NL]" and ?ev = "\<lambda>es. \<lparr>events = es, event_data = 3\<rparr> :: Event"
  let ?after = "\<lambda>t. call (pty_read (kernel_platform linux_events) 3 (replicate 64 0)) (\<lambda>(r, buffer).
    expect (r = Ok 12) (Send [PollWritable 3 True] t))"
  show "(4 :: Events) = 1 \<or> (4 :: Events) = 4" by simp
  show "commands (program ((Command_new ''sh'')\<lparr>prog_args := [''-c'', ''exec cat >/dev/null'']\<rparr>))
      (prog_args ((Command_new ''sh'')\<lparr>prog_args := [''-c'', ''exec cat >/dev/null'']\<rparr>)) = Some p"
    using assms(1) by (simp add: Command_new_def)
  show "pty_write_no_read linux_events 3 5 = recv_eq Initialize (Send [Register 3 4]
      (recv_eq (OnWritable 3) (checked (pty_writes linux_events 3 ?line) (Send [PollWritable 3 False, PollReadable 3 True]
        (recv_eq (OnReadable 3) (?after type_eof))))))"
    by (simp add: pty_write_no_read_def type_eof_def linux_event_simps)
  fix evs :: "Event list"
  assume evs: "length evs = 5" "evs \<noteq> []"
  obtain f where f: "p = Get f" "f [] = Exit" "f ?line = p" using assms(2) by (auto simp: discards_input_def)
  obtain n flip n' flip' m flap where c: "next_choice sched = (n, flip)" "next_choice (tl sched) = (n', flip')"
    "next_choice (tl (tl sched)) = (m, flap)" by (metis surj_pair)
  obtain inp where inp: "inp = [] \<or> inp = [?line]"
    "child_turn (pty (tl pace) default_size ?line [?line] (Some p) False) = pty (tl (tl pace)) default_size ?line inp (Some p) False"
    unfolding child_turn_eq by (rule discard_steps [OF f(1,3), of "[?line]"]) auto
  obtain inp' where inp': "inp' = [] \<or> inp' = [?line]"
    "child_turn (pty (tl (tl pace)) default_size [] inp (Some p) False) =
      pty (tl (tl (tl pace))) default_size [] inp' (Some p) False"
    unfolding child_turn_eq by (rule discard_steps [OF f(1,3) inp(1)]) auto
  have "run_and_join linux_events (at_pty (?ev 4 # drop (Suc 0) evs) 5)
      \<lparr>kernel = pty_kernel 5 (ending_pty (tl (tl (tl pace))) default_size ?line p (if inp' = [] then 2 else 3)),
       worker = until_hup 3 False (stop_test 3 5), schedule = tl (tl (tl sched))\<rparr> = Some ()"
    by (rule hangup_ends [OF f(1,2)]) (use evs f(3) in auto)
  moreover have "pty (tl (tl (tl pace))) default_size [] (inp' @ [[]]) (Some p) False =
      ending_pty (tl (tl (tl pace))) default_size ?line p (if inp' = [] then 2 else 3)"
    using inp'(1) by (auto simp: ending_pty_def)
  ultimately have 3: "run_and_join linux_events (at_pty (?ev 1 # drop (Suc 0) evs) 5)
      \<lparr>kernel = pty_kernel 5 (pty (tl (tl pace)) default_size [] inp (Some p) False), worker = type_eof,
       schedule = tl (tl sched)\<rparr> = Some ()"
    using evs by (simp add: run_and_join_step at_pty_def turn_ops c inp' type_eof_def)
  have 2: "run_and_join linux_events (at_pty (?ev 4 # drop (Suc 0) evs) 1)
      \<lparr>kernel = pty_kernel 1 (pty (tl pace) default_size ?line [?line] (Some p) False),
       worker = recv_eq (OnReadable 3) (?after type_eof), schedule = tl sched\<rparr> = Some ()"
    using evs 3 by (simp add: run_and_join_step at_pty_def turn_ops c inp)
  show "run_and_join linux_events (at_pty evs 4)
      \<lparr>kernel = pty_kernel 4 (pty pace default_size [] [] (Some p) False), worker =
         recv_eq (OnWritable 3) (checked (pty_writes linux_events 3 ?line) (Send [PollWritable 3 False, PollReadable 3 True]
           (recv_eq (OnReadable 3) (?after type_eof)))), schedule = sched\<rparr> = Some ()"
    using evs 2 unfolding f(1)
    by (simp add: run_and_join_step at_pty_def turn_ops c blocked_turn)
qed

section \<open>A child that writes for ever\<close>

lemma drain_takes [simp]:
  "take_request (OnReadable fd) (drain_until_hup E fd len t) = Some
     (call (pty_read (kernel_platform E) fd (replicate len 0)) (\<lambda>(r, buf).
      case r of Err _ \<Rightarrow> Worker_failed | Ok n \<Rightarrow> if n > 0 then Send [] (drain_until_hup E fd len t) else Worker_failed))"
  "take_request (OnHangup fd) (drain_until_hup E fd len t) = Some (Send [Unregister fd] t)"
  by (auto simp: drain_until_hup_def drain_round_def call_def Let_def split: prod.split io_result.split)

lemma killed_turn:
  "child_turn (pty pace ws out inp (Some q) True) =
     pty (tl pace) ws out inp (if pace \<noteq> [] \<and> hd pace = 0 then Some q else None) True"
proof -
  have "(child_step ^^ n) (pty ns ws out inp (Some q) True) = pty ns ws out inp (if n = 0 then Some q else None) True" for n ns
    by (cases n) (simp_all add: funpow_swap1)
  then show ?thesis by (simp add: child_turn_eq split: list.split)
qed

lemma killed_until_ready:
  "child_until_ready linux_events (pty_kernel 1 (pty pace ws [] inp (Some q) True)) =
     Some (pty_kernel 1 (pty pace ws [] inp None True))"
proof -
  have "child_until_ready linux_events (pty_kernel 1 (pty pace ws [] inp (Some q) True)) =
      child_until_ready linux_events (pty_kernel 1 (pty pace ws [] inp None True))"
    unfolding child_until_ready_def by (subst while_option_unfold) simp
  then show ?thesis by simp
qed

abbreviation draining :: task where
  "draining \<equiv> drain_until_hup linux_events 3 16 (stop_test 3 5)"

lemma drain_ends:
  "length evs = 5 \<Longrightarrow> evs \<noteq> [] \<Longrightarrow> run_and_join linux_events (at_pty evs 1)
     \<lparr>kernel = pty_kernel 1 (pty pace ws out inp q True), worker = draining, schedule = sched\<rparr> = Some ()"
proof (induction "length out" arbitrary: out pace evs q sched rule: less_induct)
  case less
  obtain n flip where c: "next_choice sched = (n, flip)" by fastforce
  obtain q' where turn: "child_turn (pty pace ws out inp q True) = pty (tl pace) ws out inp q' True"
    by (cases q) (simp add: child_turn_eq, simp add: killed_turn)
  note go = run_and_join_step at_pty_def turn_ops c turn
    and stop = stop_passes [unfolded stopping_def at_pty_def, simplified]
  show ?case
  proof (cases "q' = None \<or> out = []")
    case True
    then show ?thesis
      using less.prems turn by (cases q'; cases out) (simp_all add: go stop killed_until_ready)
  next
    case False
    then obtain q2 where q': "q' = Some q2" by (cases q') auto
    have "run_and_join linux_events (at_pty (\<lparr>events = 1, event_data = 3\<rparr> # drop (Suc 0) evs) 1)
       \<lparr>kernel = pty_kernel 1 (pty (tl pace) ws (drop (min 16 (length out)) out) inp (Some q2) True), worker = draining,
        schedule = tl sched\<rparr> = Some ()"
      by (rule less.hyps) (use False less.prems in \<open>auto simp: min_def\<close>)
    then show ?thesis
      using less.prems False by (simp add: go q')
  qed
qed

definition yes_pty :: "nat list \<Rightarrow> winsize \<Rightarrow> u8 list \<Rightarrow> u8 list \<Rightarrow> process_image \<Rightarrow> tty" where
  "yes_pty pace ws out rest p = pty pace ws out [] (Some (Put rest p)) False"

text \<open>The signal may come before the wait, or while the loop handles what was ready.\<close>

lemma killing_ends:
  assumes "length evs = 5" "evs \<noteq> []"
    and turn: "child_turn t = yes_pty pace ws out rest p"
  shows "run_and_join linux_events (at_pty evs 1)
     \<lparr>kernel = pty_kernel 1 t, worker = call kill_child (\<lambda>_. draining), schedule = sched\<rparr> = Some ()"
proof -
  note go = run_and_join_step at_pty_def turn_ops turn yes_pty_def
    and stop = stop_passes [unfolded stopping_def at_pty_def, simplified]
    and drain = drain_ends [unfolded at_pty_def, simplified]
  show ?thesis
    using assms(1,2)
    by (cases rule: next_choice_zero [of sched]; cases out) (simp_all add: go stop drain killed_until_ready)
qed

lemma yes_lines_simps [simp]: "yes_lines 0 = []" "yes_lines (Suc n) = 121 # NL # yes_lines n"
  by (simp_all add: yes_lines_def)

lemma yes_lines_add: "yes_lines m @ yes_lines n = yes_lines (m + n)"
  by (induction m) simp_all

lemma length_yes_lines [simp]: "length (yes_lines n) = 2 * n"
  by (induction n) simp_all

lemma yes_lines_prefix:
  assumes "xs @ ys = yes_lines m" "length xs = 2 * n"
  shows "xs = yes_lines n"
proof -
  have "n \<le> m" using arg_cong [OF assms(1), of length] assms(2) by simp
  then have "yes_lines m = yes_lines n @ yes_lines (m - n)" by (simp add: yes_lines_add)
  then show ?thesis using assms by (simp add: append_eq_append_conv)
qed

text \<open>What was read, what can be read and what the child is about to write are lines \<^verbatim>\<open>y\<close>.\<close>

lemma yes_step:
  assumes p: "p = Put (yes_lines (Suc l)) p" and "rest \<noteq> []" "so_far @ out @ rest = yes_lines m"
  obtains rest' m' where "child_step (yes_pty pace ws out rest p) =
      yes_pty pace ws (if length out + 2 \<le> tty_capacity then out @ [hd rest] else out) rest' p"
    "rest' \<noteq> []" "so_far @ (if length out + 2 \<le> tty_capacity then out @ [hd rest] else out) @ rest' = yes_lines m'"
proof (cases "length out + 2 \<le> tty_capacity \<and> tl rest = []")
  case True
  then obtain b where b: "rest = [b]" using assms(2) by (cases rest) auto
  have "child_step (yes_pty pace ws out rest p) = pty pace ws (out @ [b]) [] (Some p) False"
    using True by (simp add: yes_pty_def b)
  also have "\<dots> = yes_pty pace ws (out @ [b]) (yes_lines (Suc l)) p"
    unfolding yes_pty_def by (subst p) (rule refl)
  finally have step: "child_step (yes_pty pace ws out rest p) = yes_pty pace ws (out @ [b]) (yes_lines (Suc l)) p" .
  have "so_far @ (out @ [b]) @ yes_lines (Suc l) = yes_lines (m + Suc l)"
    unfolding yes_lines_add [symmetric] assms(3) [symmetric] b by (simp only: append_assoc)
  then show ?thesis
    using step that [of "yes_lines (Suc l)" "m + Suc l"] True by (simp add: b)
next
  case False
  then show ?thesis
    using assms(2,3) that [of rest m] that [of "tl rest" m]
    by (cases rest; cases "length out + 2 \<le> tty_capacity") (auto simp: yes_pty_def)
qed

lemma yes_steps:
  assumes "p = Put (yes_lines (Suc l)) p" "rest \<noteq> []" "so_far @ out @ rest = yes_lines m"
  obtains out' rest' m' where "(child_step ^^ n) (yes_pty pace ws out rest p) = yes_pty pace ws out' rest' p"
    "rest' \<noteq> []" "so_far @ out' @ rest' = yes_lines m'"
proof -
  have "\<exists>out' rest' m'. (child_step ^^ n) (yes_pty pace ws out rest p) = yes_pty pace ws out' rest' p \<and>
      rest' \<noteq> [] \<and> so_far @ out' @ rest' = yes_lines m'"
  proof (induction n)
    case (Suc n)
    then obtain out' rest' m' where IH: "(child_step ^^ n) (yes_pty pace ws out rest p) = yes_pty pace ws out' rest' p"
      "rest' \<noteq> []" "so_far @ out' @ rest' = yes_lines m'" by blast
    from yes_step [OF assms(1) IH(2,3)] show ?case unfolding funpow.simps comp_def IH(1) by blast
  qed (use assms(2,3) in auto)
  then show ?thesis using that by blast
qed

lemma yes_pty_simps [simp]:
  "ready linux_events (pty_kernel 1 (yes_pty pace ws out rest p)) = (if out = [] then [] else [\<lparr>events = 1, event_data = 3\<rparr>])"
  "pty_read (kernel_platform E) 3 s (pty_kernel es (yes_pty pace ws (b # out) rest p)) =
     ((Ok (min (length s) (Suc (length out))), take (min (length s) (Suc (length out))) (b # out) @
         drop (min (length s) (Suc (length out))) s),
      pty_kernel es (yes_pty pace ws (drop (min (length s) (Suc (length out))) (b # out)) rest p))"
  by (simp_all add: yes_pty_def)

lemma yes_wait:
  assumes p: "p = Put (yes_lines (Suc l)) p" and "rest \<noteq> []" "so_far @ out @ rest = yes_lines m"
  obtains out1 rest1 out' rest' m' where
    "child_turn (yes_pty pace ws out rest p) = yes_pty (tl pace) ws out1 rest1 p"
    "child_until_ready linux_events (pty_kernel 1 (yes_pty (tl pace) ws out1 rest1 p)) =
       Some (pty_kernel 1 (yes_pty (tl pace) ws out' rest' p))"
    "rest' \<noteq> []" "so_far @ out' @ rest' = yes_lines m'" "out' \<noteq> []"
proof -
  obtain out1 rest1 m1 where
    1: "(child_step ^^ (case pace of [] \<Rightarrow> 1 | n # ns \<Rightarrow> n)) (yes_pty (tl pace) ws out rest p) = yes_pty (tl pace) ws out1 rest1 p"
      "rest1 \<noteq> []" "so_far @ out1 @ rest1 = yes_lines m1"
    by (rule yes_steps [OF assms])
  then have turn: "child_turn (yes_pty pace ws out rest p) = yes_pty (tl pace) ws out1 rest1 p"
    by (simp add: child_turn_eq yes_pty_def)
  show ?thesis
  proof (cases "out1 = []")
    case True
    obtain rest2 m2 where 2: "child_step (yes_pty (tl pace) ws [] rest1 p) = yes_pty (tl pace) ws [hd rest1] rest2 p"
      "rest2 \<noteq> []" "so_far @ [hd rest1] @ rest2 = yes_lines m2"
      by (rule yes_step [OF p 1(2), of so_far "[]" m1]) (use 1(3) True in simp, simp add: tty_capacity_def)
    have "child_until_ready linux_events (pty_kernel 1 (yes_pty (tl pace) ws [] rest1 p)) =
        child_until_ready linux_events (pty_kernel 1 (yes_pty (tl pace) ws [hd rest1] rest2 p))"
      unfolding child_until_ready_def by (subst while_option_unfold) (simp add: 2(1))
    then show ?thesis using that turn 2(2,3) True by simp
  next
    case False
    then show ?thesis using that turn 1 by simp
  qed
qed

lemma yes_loop_ends:
  assumes p: "p = Put (yes_lines (Suc l)) p"
  shows "rest \<noteq> [] \<Longrightarrow> so_far @ out @ rest = yes_lines m \<Longrightarrow> length so_far < 16 \<Longrightarrow> length evs = 5 \<Longrightarrow> evs \<noteq> [] \<Longrightarrow>
    run_and_join linux_events (at_pty evs 1)
      \<lparr>kernel = pty_kernel 1 (yes_pty pace ws out rest p),
       worker = read_loop linux_events 3 16 16 (\<lambda>_. []) so_far
         (\<lambda>buffer. expect (buffer = yes_lines 8) (call kill_child (\<lambda>_. draining))), schedule = sched\<rparr> = Some ()"
proof (induction "16 - length so_far" arbitrary: so_far out rest m pace evs sched rule: less_induct)
  case less
  obtain n flip where c: "next_choice sched = (n, flip)" by fastforce
  from yes_wait [OF p less.prems(1,2), of pace ws]
  obtain out1 rest1 out' rest' m' where
    turn: "child_turn (yes_pty pace ws out rest p) = yes_pty (tl pace) ws out1 rest1 p" and
    wait: "child_until_ready linux_events (pty_kernel 1 (yes_pty (tl pace) ws out1 rest1 p)) =
       Some (pty_kernel 1 (yes_pty (tl pace) ws out' rest' p))" and
    yes: "rest' \<noteq> []" "so_far @ out' @ rest' = yes_lines m'" "out' \<noteq> []" by blast
  obtain b bs where out': "out' = b # bs" using yes(3) by (cases out') auto
  define chunk where "chunk = min (16 - length so_far) (Suc (length bs))"
  have chunk: "0 < chunk" "chunk \<le> 16 - length so_far" "chunk \<le> length out'"
    using less.prems(3) by (auto simp: chunk_def out')
  have split: "(so_far @ take chunk out') @ drop chunk out' @ rest' = yes_lines m'"
    using yes(2) by (metis append.assoc append_take_drop_id)
  note go = run_and_join_step at_pty_def turn_ops c turn wait out' chunk_def [symmetric]
  let ?ev = "\<lparr>events = 1, event_data = 3\<rparr> :: Event"
  show ?case
  proof (cases "length so_far + chunk = 16")
    case True
    then have "so_far @ take chunk out' = yes_lines 8"
      using chunk(3) by (intro yes_lines_prefix [OF split]) simp
    moreover obtain out2 rest2 where
      "child_turn (yes_pty (tl pace) ws (drop chunk out') rest' p) = yes_pty (tl (tl pace)) ws out2 rest2 p"
      using yes_wait [OF p yes(1) split, of "tl pace" ws] by metis
    ultimately show ?thesis
      using less.prems chunk True killing_ends [of "?ev # drop (Suc 0) evs"] by (simp add: go)
  next
    case False
    have "run_and_join linux_events (at_pty (?ev # drop (Suc 0) evs) 1)
      \<lparr>kernel = pty_kernel 1 (yes_pty (tl pace) ws (drop chunk out') rest' p),
       worker = read_loop linux_events 3 16 16 (\<lambda>_. []) (so_far @ take chunk out')
         (\<lambda>buffer. expect (buffer = yes_lines 8) (call kill_child (\<lambda>_. draining))), schedule = tl sched\<rparr> = Some ()"
      by (rule less.hyps [OF _ yes(1) split]) (use less.prems chunk False in simp_all)
    moreover have "length so_far + chunk < 16" using less.prems(3) chunk(2) False by simp
    ultimately show ?thesis
      using less.prems chunk by (simp add: go min_absorb2)
  qed
qed

lemma pty_read_no_write_passes:
  assumes "commands ''sh'' [''-c'', ''exec yes''] = Some p" "repeats_yes p"
  shows "run_pty_test linux_events commands pace sched
    ((Command_new ''sh'')\<lparr>prog_args := [''-c'', ''exec yes'']\<rparr>) (pty_read_no_write linux_events) = Some ()"
proof (rule run_pty_test_eq)
  let ?reading = "read_loop linux_events 3 16 16 (\<lambda>_. []) []
    (\<lambda>buffer. expect (buffer = yes_lines 8) (call kill_child (\<lambda>_. draining)))"
  show "(1 :: Events) = 1 \<or> (1 :: Events) = 4" by simp
  show "commands (program ((Command_new ''sh'')\<lparr>prog_args := [''-c'', ''exec yes'']\<rparr>))
      (prog_args ((Command_new ''sh'')\<lparr>prog_args := [''-c'', ''exec yes'']\<rparr>)) = Some p"
    using assms(1) by (simp add: Command_new_def)
  show "pty_read_no_write linux_events 3 5 = recv_eq Initialize (Send [Register 3 1] ?reading)"
    by (simp add: pty_read_no_write_def linux_event_simps)
  fix evs :: "Event list"
  assume evs: "length evs = 5" "evs \<noteq> []"
  obtain l where p: "p = Put (yes_lines (Suc l)) p" using assms(2) by (auto simp: repeats_yes_def gr0_conv_Suc)
  have "run_and_join linux_events (at_pty evs 1)
      \<lparr>kernel = pty_kernel 1 (yes_pty pace default_size [] (yes_lines (Suc l)) p), worker = ?reading, schedule = sched\<rparr> = Some ()"
    by (rule yes_loop_ends [OF p, of _ _ _ "Suc l"]) (use evs in simp_all)
  moreover have "pty pace default_size [] [] (Some p) False = yes_pty pace default_size [] (yes_lines (Suc l)) p"
    unfolding yes_pty_def by (subst p) (rule refl)
  ultimately show "run_and_join linux_events (at_pty evs 1)
      \<lparr>kernel = pty_kernel 1 (pty pace default_size [] [] (Some p) False), worker = ?reading, schedule = sched\<rparr> = Some ()"
    by simp
qed

end
