(* ===== verification/Pty_Tests_Pass.thy ===== *)
theory Pty_Tests_Pass
  imports Pty_Test_Runs
begin

text \<open>
  That the tests of \<^verbatim>\<open>Pty\<close> itself pass, which read the master until the child has ended, and the theorem on all the
  tests on a pseudo-terminal.
\<close>

section \<open>A child that ends\<close>

text \<open>\<open>winds_up ws n p inp rest\<close>: with the lines \<open>inp\<close> to read, the process \<open>p\<close> ends after \<open>n\<close> steps, in which it writes \<open>rest\<close>.\<close>

inductive winds_up :: "winsize \<Rightarrow> nat \<Rightarrow> process_image option \<Rightarrow> u8 list list \<Rightarrow> u8 list \<Rightarrow> bool"
  for ws where
  has_ended: "winds_up ws 0 None inp []"
| exits: "winds_up ws 1 (Some Exit) inp []"
| gets: "winds_up ws n (Some (f l)) inp rest \<Longrightarrow> winds_up ws (Suc n) (Some (Get f)) (l # inp) rest"
| puts: "winds_up ws n (Some p) inp rest \<Longrightarrow> bs \<noteq> [] \<Longrightarrow> winds_up ws (length bs + n) (Some (Put bs p)) inp (bs @ rest)"
| sizes: "winds_up ws n (Some (h (Some ws))) inp rest \<Longrightarrow> winds_up ws (Suc n) (Some (Get_size h)) inp rest"

inductive_simps winds_up_ended: "winds_up ws n None inp rest" "winds_up ws 0 p inp rest"

lemma winds_up_step:
  assumes "winds_up ws n p inp rest" "n = Suc m" "length (out @ rest) + 2 \<le> tty_capacity"
  obtains p' inp' out' rest' where
    "child_step (pty pace ws out inp p False) = pty pace ws out' inp' p' False"
    "winds_up ws m p' inp' rest'" "out' @ rest' = out @ rest"
  using assms(1)
proof (cases rule: winds_up.cases)
  case exits
  then show ?thesis using that [of out inp None "[]"] assms(2) winds_up.has_ended by simp
next
  case (puts n q rest2 bs)
  then obtain b bs' where b: "bs = b # bs'" by (cases bs) auto
  show ?thesis
  proof (cases "bs' = []")
    case True
    then show ?thesis
      using that [of "out @ [b]" inp "Some q" rest2] puts b assms(2,3) by simp
  next
    case False
    then show ?thesis
      using that [of "out @ [b]" inp "Some (Put bs' q)" "bs' @ rest2"] puts b assms(2,3) winds_up.puts [OF puts(4) False]
      by simp
  qed
qed (use assms(2,3) that in \<open>auto intro: winds_up.has_ended\<close>)

text \<open>A terminal on which a process winds up, seen by its reader: \<open>str\<close> is still to come.\<close>

definition coming :: "u8 list \<Rightarrow> tty \<Rightarrow> bool" where
  "coming str t \<longleftrightarrow> (\<exists>pace ws n p inp out rest. t = pty pace ws out inp p False \<and> winds_up ws n p inp rest \<and>
     out @ rest = str \<and> length str + 2 \<le> tty_capacity)"

lemma comingI:
  "winds_up ws n p inp rest \<Longrightarrow> out @ rest = str \<Longrightarrow> length str + 2 \<le> tty_capacity \<Longrightarrow>
    coming str (pty pace ws out inp p False)"
  unfolding coming_def by blast

lemma coming_step: "coming str t \<Longrightarrow> coming str (child_step t)"
proof -
  assume "coming str t"
  then obtain pace ws n p inp out rest where t: "t = pty pace ws out inp p False" "winds_up ws n p inp rest"
    "out @ rest = str" "length (out @ rest) + 2 \<le> tty_capacity" by (auto simp: coming_def)
  show ?thesis
  proof (cases n)
    case 0
    then show ?thesis using t by (auto simp: winds_up_ended intro: comingI winds_up.has_ended)
  next
    case (Suc m)
    from winds_up_step [OF t(2) Suc t(4), of pace] obtain p' inp' out' rest' where
      "child_step t = pty pace ws out' inp' p' False" "winds_up ws m p' inp' rest'" "out' @ rest' = out @ rest"
      using t(1) by metis
    then show ?thesis using t(3,4) unfolding coming_def by blast
  qed
qed

lemma coming_turn: "coming str t \<Longrightarrow> coming str (child_turn t)"
proof -
  assume t: "coming str t"
  have "coming str (t\<lparr>t_pace := ns\<rparr>)" for ns
    using t unfolding coming_def by (elim exE conjE) (simp add: comingI [unfolded coming_def], blast)
  moreover have "coming str t' \<Longrightarrow> coming str ((child_step ^^ n) t')" for n t'
    by (induction n) (simp_all add: coming_step)
  ultimately show ?thesis using coming_step [OF t] by (simp add: child_turn_def split: list.split)
qed

lemma coming_until:
  assumes "coming str t"
  obtains t' where "while_option master_waits (in_tty child_step) (spawned_kernel t) = Some (spawned_kernel t')"
    "coming str t'" "\<not> master_waits (spawned_kernel t')"
proof -
  from assms obtain pace ws n p inp out rest where "t = pty pace ws out inp p False" "winds_up ws n p inp rest"
    "out @ rest = str" "length (out @ rest) + 2 \<le> tty_capacity" by (auto simp: coming_def)
  then have "\<exists>t'. while_option master_waits (in_tty child_step) (spawned_kernel t) = Some (spawned_kernel t') \<and>
    coming str t' \<and> \<not> master_waits (spawned_kernel t')"
  proof (induction n arbitrary: t p inp out rest)
    case 0
    then have "p = None" by (simp add: winds_up_ended)
    then have "\<not> master_waits (spawned_kernel t)" using 0(1) by (simp add: master_waits_def pty_def)
    moreover have "coming str t" using 0 unfolding coming_def by blast
    ultimately show ?case by (subst while_option_unfold) auto
  next
    case (Suc n)
    show ?case
    proof (cases "master_waits (spawned_kernel t)")
      case True
      from winds_up_step [OF Suc.prems(2) refl Suc.prems(4), of pace] obtain p' inp' out' rest' where
        step: "child_step t = pty pace ws out' inp' p' False" and "winds_up ws n p' inp' rest'" "out' @ rest' = out @ rest"
        using Suc.prems(1) by metis
      with Suc.IH [OF step] Suc.prems(3,4) True show ?thesis by (subst while_option_unfold) simp
    next
      case False
      moreover have "coming str t" using Suc.prems unfolding coming_def by blast
      ultimately show ?thesis by (subst while_option_unfold) auto
    qed
  qed
  then show ?thesis using that by blast
qed

section \<open>Reading to the end\<close>

lemma read_to_end_coming:
  "coming str t \<Longrightarrow> \<exists>k. read_to_end E 3 so_far (spawned_kernel t) = Some (Ok (so_far @ str), k) \<and> child_waited k"
proof (induction "length str" arbitrary: str t so_far rule: less_induct)
  case less
  obtain t1 where t1: "while_option master_waits (in_tty child_step) (spawned_kernel (child_turn t)) = Some (spawned_kernel t1)"
    "coming str t1" "\<not> master_waits (spawned_kernel t1)"
    by (rule coming_until [OF coming_turn [OF less.prems]])
  then obtain pace ws n p inp out rest where t: "t1 = pty pace ws out inp p False" "winds_up ws n p inp rest"
    "out @ rest = str" "length str + 2 \<le> tty_capacity" by (auto simp: coming_def)
  have read: "blocking_read E 3 s (spawned_kernel t) = Some (pty_read (kernel_platform E) 3 s (spawned_kernel t1))" for s
    by (simp add: blocking_read_def t1(1))
  show ?case
  proof (cases "out = []")
    case True
    then have "p = None" using t1(3) t(1) by (auto simp: master_waits_def pty_def)
    then show ?thesis
      using t True by (subst read_to_end.simps) (simp add: read spawned_read winds_up_ended)
  next
    case False
    define n where "n = min 32 (length out)"
    have n: "0 < n" "n \<le> length out" using False by (auto simp: n_def)
    have "coming (drop n str) (pty pace ws (drop n out) inp p False)"
      using t(3,4) n by (intro comingI [OF t(2)]) auto
    moreover have "length (drop n str) < length str" using n t(3) by auto
    moreover have "take n out = take n str" "n \<le> length str" using n t(3) by auto
    ultimately show ?thesis
      using less.hyps [of "drop n str" _ "so_far @ take n str"] n False t(1)
      by (subst read_to_end.simps) (simp add: read spawned_read min_absorb2 flip: n_def)
  qed
qed

lemma read_to_string_coming:
  assumes "coming str t" "list_all (\<lambda>b. b < 128) str"
  shows "\<exists>k. read_to_string E 3 (spawned_kernel t) = Some (Ok str, k) \<and> child_waited k"
  using read_to_end_coming [OF assms(1), of E "[]"] assms(2) by (auto simp: read_to_string_def)

text \<open>A test whose input leaves the terminal with a process that winds up with \<open>expected\<close> to come.\<close>

lemma spawn_and_read_passes:
  assumes "commands (program c) (prog_args c) = Some p"
    and "write_all (pty_writer (kernel_platform E) 3) input (spawned_kernel (pty [] ws [] [] (Some p) False)) =
      Some (Ok (), spawned_kernel (pty [] ws out inp (Some p) False))"
    and "winds_up ws n (Some p) inp rest" "out @ rest = expected" "length expected + 2 \<le> tty_capacity"
      "list_all (\<lambda>b. b < 128) expected"
  shows "spawn_and_read E commands pace \<lparr>master = 3, pty_winsize = ws\<rparr> c input expected opened_kernel = Some ()"
proof -
  have "coming expected (pty pace ws out inp (Some p) False)" by (rule comingI [OF assms(3-5)])
  from read_to_string_coming [OF this assms(6), of E] obtain k where
    "read_to_string E 3 (spawned_kernel (pty pace ws out inp (Some p) False)) = Some (Ok expected, k)" "child_waited k" by blast
  then show ?thesis by (simp add: spawn_and_read_def pty_spawns assms(1,2))
qed

lemma write_all_simps:
  "write_all W [] w = Some (Ok (), w)"
  "write_fn W bs w = (Ok (length bs), w') \<Longrightarrow> write_all W bs w = (if bs = [] then Some (Ok (), w) else Some (Ok (), w'))"
  by (subst write_all.simps, simp add: write_all.simps [of W "[]"])+

section \<open>The window size\<close>

lemma winsize_passes:
  assumes "commands ''stty'' [''size''] = Some p" "prints_size p" "expected = size_line (ws_row ws) (ws_col ws)"
    "length expected + 2 \<le> tty_capacity" "list_all (\<lambda>b. b < 128) expected"
  shows "spawn_and_read E commands pace \<lparr>master = 3, pty_winsize = ws\<rparr> ((Command_new ''stty'')\<lparr>prog_args := [''size'']\<rparr>) []
    expected opened_kernel = Some ()"
proof -
  obtain f where f: "p = Get_size f" "f (Some ws) = Put expected Exit"
    using assms(2,3) by (auto simp: prints_size_def)
  have "expected \<noteq> []" by (simp add: assms(3) size_line_def)
  from winds_up.sizes [of ws _ f, unfolded f(2), OF winds_up.puts [OF winds_up.exits this]]
  have "winds_up ws (Suc (length expected + 1)) (Some p) [] expected" by (simp add: f(1))
  then show ?thesis
    using assms(1,4,5)
    by (intro spawn_and_read_passes [where out = "[]" and inp = "[]" and rest = expected and p = p])
      (simp_all add: Command_new_def write_all_simps(1))
qed

lemma size_lines:
  "size_line DEFAULT_PTY_ROWS DEFAULT_PTY_COLS = [54, 52, 32, 50, 53, 54, 10]"
  "size_line 32 80 = bytes ''32 80'' @ [NL]" "bytes ''32 80'' @ [NL] = [51, 50, 32, 56, 48, 10]"
  by (simp_all add: size_line_def decimal.simps DEFAULT_PTY_ROWS_def DEFAULT_PTY_COLS_def NL_def bytes_simps of_char_def)

lemma spawn_default_winsize_passes:
  assumes "commands ''stty'' [''size''] = Some p" "prints_size p"
  shows "spawn_default_winsize E commands pace = Some ()"
proof -
  have "spawn_and_read E commands pace \<lparr>master = 3, pty_winsize = default_size\<rparr>
      ((Command_new ''stty'')\<lparr>prog_args := [''size'']\<rparr>) [] (size_line DEFAULT_PTY_ROWS DEFAULT_PTY_COLS) opened_kernel = Some ()"
    by (rule winsize_passes [where commands = commands and p = p, OF assms], simp add: default_size_def)
      (simp_all add: size_lines tty_capacity_def)
  then show ?thesis
    unfolding spawn_default_winsize_def pty_opens by (simp add: Let_def)
qed

lemma spawn_custom_winsize_passes:
  assumes "commands ''stty'' [''size''] = Some p" "prints_size p"
  shows "spawn_custom_winsize E commands pace = Some ()"
proof -
  have "spawn_and_read E commands pace \<lparr>master = 3, pty_winsize = default_size\<lparr>ws_row := 32, ws_col := 80\<rparr>\<rparr>
      ((Command_new ''stty'')\<lparr>prog_args := [''size'']\<rparr>) [] (bytes ''32 80'' @ [NL]) opened_kernel = Some ()"
    by (rule winsize_passes [where commands = commands and p = p, OF assms]) (simp_all add: size_lines tty_capacity_def)
  then show ?thesis
    unfolding spawn_custom_winsize_def pty_opens by (simp add: set_rows_def set_columns_def Let_def)
qed

section \<open>A copy of two lines\<close>

lemma hello_write:
  "write_fn (pty_writer (kernel_platform E) 3) (bytes ''hello'' @ [NL] @ bytes ''world'' @ [NL] @ [4])
     (spawned_kernel (pty pace ws [] [] p killed)) =
   (Ok 13, spawned_kernel (pty pace ws (bytes ''hello'' @ [NL] @ bytes ''world'' @ [NL])
     [bytes ''hello'' @ [NL], bytes ''world'' @ [NL], []] p killed))"
  by (simp add: write_ops bytes_simps of_char_def)

lemma read_and_write_passes:
  assumes "commands ''cat'' [] = Some p" "copies_input p"
  shows "read_and_write E commands pace = Some ()"
proof -
  let ?hello = "bytes ''hello'' @ [NL]" and ?world = "bytes ''world'' @ [NL]"
  obtain f where f: "p = Get f" "f [] = Exit" and copy: "\<And>bs. bs \<noteq> [] \<Longrightarrow> f bs = Put bs p"
    using assms(2) by (auto simp: copies_input_def)
  have "winds_up default_size (Suc 1) (Some p) [[]] []"
    unfolding f(1) by (rule winds_up.gets) (simp add: f(2) winds_up.exits [simplified])
  from winds_up.puts [OF this, of ?world] have "winds_up default_size (Suc (length ?world + Suc 1)) (Some p) [?world, []] ?world"
    by (subst f(1)) (simp add: winds_up.gets copy)
  from winds_up.puts [OF this, of ?hello]
  have "winds_up default_size (Suc (length ?hello + Suc (length ?world + Suc 1))) (Some p) [?hello, ?world, []] (?hello @ ?world)"
    by (subst f(1)) (simp add: winds_up.gets copy)
  moreover have "list_all (\<lambda>b. b < 128) (?hello @ ?world @ ?hello @ ?world)"
    by (simp add: bytes_simps of_char_def NL_def)
  moreover have "write_all (pty_writer (kernel_platform E) 3) (?hello @ ?world @ [4])
      (spawned_kernel (pty [] default_size [] [] (Some p) False)) =
    Some (Ok (), spawned_kernel (pty [] default_size (?hello @ ?world) [?hello, ?world, []] (Some p) False))"
    using hello_write [of E "[]" default_size "Some p" False] by (simp add: write_all_simps(2))
  ultimately have "spawn_and_read E commands pace \<lparr>master = 3, pty_winsize = default_size\<rparr> (Command_new ''cat'')
      (?hello @ ?world @ [4]) (?hello @ ?world @ ?hello @ ?world) opened_kernel = Some ()"
    by (intro spawn_and_read_passes [where out = "?hello @ ?world" and inp = "[?hello, ?world, []]"
        and rest = "?hello @ ?world" and p = p])
      (use assms in \<open>simp_all add: Command_new_def tty_capacity_def\<close>)
  then show ?thesis by (simp add: read_and_write_def pty_opens Let_def)
qed

section \<open>All tests\<close>

text \<open>Programs as \<open>coreutils\<close> asks for: a \<^verbatim>\<open>cat\<close> that has read nothing, or a line.\<close>

primcorec cat_image :: "u8 list option \<Rightarrow> process_image" where
  "cat_image line =
     (case line of
        None \<Rightarrow> Get (\<lambda>bs. cat_image (Some bs))
      | Some bs \<Rightarrow> if bs = [] then Exit else Put bs (cat_image None))"

primcorec sink_image :: "u8 list \<Rightarrow> process_image" where
  "sink_image line = (if line = [] then Exit else Get (\<lambda>bs. sink_image bs))"

primcorec yes_image :: process_image where
  "yes_image = Put (yes_lines 4) yes_image"

definition stty_image :: process_image where
  "stty_image = Get_size (\<lambda>size. case size of None \<Rightarrow> Exit | Some ws \<Rightarrow> Put (size_line (ws_row ws) (ws_col ws)) Exit)"

definition sample_commands :: commands where
  "sample_commands name args =
     (if name = ''cat'' \<and> args = [] then Some (cat_image None)
      else if name = ''sh'' \<and> args = [''-c'', ''exec cat >/dev/null''] then Some (Get sink_image)
      else if name = ''sh'' \<and> args = [''-c'', ''exec yes''] then Some yes_image
      else if name = ''stty'' \<and> args = [''size''] then Some stty_image else None)"

lemma sample_coreutils: "coreutils sample_commands"
proof -
  have cat: "cat_image None = Get (\<lambda>bs. cat_image (Some bs))" "cat_image (Some []) = Exit"
    "bs \<noteq> [] \<Longrightarrow> cat_image (Some bs) = Put bs (cat_image None)" for bs
    by (subst cat_image.code, simp)+
  have sink: "sink_image [] = Exit" "bs \<noteq> [] \<Longrightarrow> sink_image bs = Get sink_image" for bs
    by (subst sink_image.code, simp)+
  have "copies_input (cat_image None)"
    unfolding copies_input_def by (rule exI [of _ "\<lambda>bs. cat_image (Some bs)"]) (use cat in blast)
  moreover have "discards_input (Get sink_image)"
    unfolding discards_input_def by (rule exI [of _ sink_image]) (use sink in blast)
  moreover have "repeats_yes yes_image"
    unfolding repeats_yes_def by (rule exI [of _ 4]) (simp add: yes_image.code [symmetric])
  moreover have "prints_size stty_image"
    by (simp add: prints_size_def stty_image_def)
  ultimately show ?thesis by (simp add: coreutils_def runs_def sample_commands_def)
qed

text \<open>A check of the model on the kernel of \<open>Test_Kernel\<close> with the terminal of \<open>Terminal\<close>: the tests on a pseudo-terminal pass, of the event loop and of \<^verbatim>\<open>Pty\<close>: with programs that do what is
  documented of \<^verbatim>\<open>cat\<close>, \<^verbatim>\<open>yes\<close> and \<^verbatim>\<open>stty\<close>, however many steps the child makes before each wait or read, and for every
  schedule of the worker. The child has the terminal as its standard streams, with the size that was set and
  without translation of newlines; what it writes arrives in order; the end of the child is reported as a
  hangup, after what is left to read, and as the end of the file to a reader.\<close>

lemma pty_tests_pass:
  assumes "coreutils commands"
  shows "list_all (\<lambda>(command, test). run_pty_test linux_events commands pace sched command (test linux_events) = Some ())
      pty_tests \<and>
    spawn_default_winsize linux_events commands pace = Some () \<and>
    spawn_custom_winsize linux_events commands pace = Some () \<and>
    read_and_write linux_events commands pace = Some ()"
  using assms
  by (auto simp: coreutils_def runs_def pty_tests_def pty_read_write_passes pty_write_no_read_passes
      pty_read_no_write_passes spawn_default_winsize_passes spawn_custom_winsize_passes read_and_write_passes
      split: option.splits)

lemma pty_tests_pass_witness:
  "list_all (\<lambda>(command, test). run_pty_test linux_events sample_commands [3, 0, 1] [(1, True), (0, False)] command
      (test linux_events) = Some ()) pty_tests \<and>
   spawn_default_winsize linux_events sample_commands [3, 0, 1] = Some () \<and>
   spawn_custom_winsize linux_events sample_commands [3, 0, 1] = Some () \<and>
   read_and_write linux_events sample_commands [3, 0, 1] = Some ()"
  by (rule pty_tests_pass [OF sample_coreutils])

end
