(* ===== verification/Spec2Isabelle.thy ===== *)
theory Spec2Isabelle
  imports Run_Properties Hangup_Properties Known_Defects Pty_Properties Shutdown
    Delivery Unit_Tests Socket_Tests Pty_Tests_Pass
begin

text \<open>
  A verification library for iosock, a program that runs a child process and connects its stdio to
  clients of a Unix domain socket.

  \<^bold>\<open>The program.\<close> \<^verbatim>\<open>main\<close> (\<^verbatim>\<open>src/src/main.rs\<close>) binds the socket, starts the child on pipes or on a pty and runs
  two threads. The worker is an event loop: a \<^verbatim>\<open>Pollster\<close> (\<^verbatim>\<open>pollster.rs\<close>) waits on epoll and calls a
  \<^verbatim>\<open>ChannelManager\<close> (\<^verbatim>\<open>channel_manager.rs\<close>), the \<^verbatim>\<open>IOSockChannelManager\<close> of \<^verbatim>\<open>io.rs\<close>, which copies bytes between
  the child, the one connected client and the console through two \<^verbatim>\<open>FlipBuffer\<close>s (\<^verbatim>\<open>buffer.rs\<close>) and asks for
  wakeups in a \<^verbatim>\<open>PolledFdSet\<close> (\<^verbatim>\<open>polled_fd.rs\<close>), whose pending changes the loop applies to epoll after every batch of
  events. The main thread waits for the child, then writes one byte to a pipe that the loop
  watches, joins the worker, removes the socket and exits with the child's status. \<^verbatim>\<open>signals.rs\<close> forwards
  termination signals to the child.

  \<^bold>\<open>Theories and sources.\<close>
  \<^item> \<open>IOSock_Prelude\<close>: machine types, \<^verbatim>\<open>io::Result\<close>, checked arithmetic, slices, the Read and Write contracts.
  \<^item> \<open>Flip_Buffer\<close>: \<^verbatim>\<open>buffer.rs\<close>; the locale \<open>bounded_byte_fifo\<close> is what users of the buffer rely on.
  \<^item> \<open>Polled_Fd\<close>: \<^verbatim>\<open>polled_fd.rs\<close>; the locale \<open>fd_registry\<close> gives registrations as a map of requested masks.
  \<^item> \<open>Platform\<close>: the system calls as functions on a world \<open>'w\<close>, their laws, and the view \<open>kernel_view\<close> of open
    descriptors and of the epoll interest list.
  \<^item> \<open>Channel_Manager\<close>, \<open>Pty_File\<close>: \<^verbatim>\<open>channel_manager.rs\<close> and the stream half of \<^verbatim>\<open>pty.rs\<close>.
  \<^item> \<open>Child_Stdio\<close>: the trait \<^verbatim>\<open>ChildStdio\<close> as a record of operations, \<^verbatim>\<open>ChildPipes\<close> and \<^verbatim>\<open>ChildPty\<close>; the locale
    \<open>child_stdio\<close> is interpreted for both.
  \<^item> \<open>IOSock_Manager\<close>: the state and handlers of \<^verbatim>\<open>io.rs\<close>; \<open>Manager_Invariant\<close>, \<open>Manager_Progress\<close> and \<open>Manager_Data\<close>
    hold its invariant, when its handlers return, and what they do to the bytes.
  \<^item> \<open>Pollster\<close>: \<^verbatim>\<open>pollster.rs\<close>, for any manager that meets the locale \<open>channel_manager\<close>; \<open>Manager_Loop\<close> interprets it
    for the manager on pipes and on a pty.
  \<^item> \<open>Pty\<close>: the rest of \<^verbatim>\<open>pty.rs\<close> over a parameter \<open>libc\<close>. \<open>Signals\<close>: \<^verbatim>\<open>signals.rs\<close>.
  \<^item> \<open>Main_Program\<close>: \<^verbatim>\<open>main.rs\<close> and \<^verbatim>\<open>die\<close>; arguments and start-up as functions, the two threads as the step
    relation \<open>process_step\<close>, labelled by the thread that moves or the signal that arrives. \<open>Process_Invariant\<close> carries the
    loop's invariant through it; \<open>World_Frame\<close> says what the event loop leaves alone; \<open>Shutdown\<close> is about signals and the
    end of the process.
  \<^item> \<open>Reference_Kernel\<close>, \<open>Sample_Run\<close>: a platform that satisfies the laws, and a run on it.
  \<^item> \<open>Call_Log\<close>, \<open>Relay\<close>, \<open>End_To_End\<close>: a platform that records the calls that read, write and close, and what the record
    of a run says about the bytes; \<open>Delivery\<close>: that buffered bytes reach a descriptor that accepts them.
  \<^item> \<open>Unit_Tests\<close>: the unit tests of \<^verbatim>\<open>buffer.rs\<close> and \<^verbatim>\<open>polled_fd.rs\<close>, run against the definitions.
  \<^item> \<open>Test_Kernel\<close>, \<open>Pollster_Tests\<close>, \<open>Pipe_Tests\<close>, \<open>Socket_Tests\<close>: the tests of \<^verbatim>\<open>pollster.rs\<close> on pipes and sockets. A test is
    a worker thread that answers the callbacks of \<^verbatim>\<open>BlockingChannelManager\<close> over rendezvous channels; it is a
    resumption that runs beside the loop, on a kernel with pipes, stream sockets and a level-triggered epoll.
  \<^item> \<open>Terminal\<close>, \<open>Pty_Tests\<close>, \<open>Pty_Test_Runs\<close>, \<open>Pty_Tests_Pass\<close>: a pseudo-terminal for that kernel, with the line discipline's
    canonical mode and the process on its slave, and the tests of \<^verbatim>\<open>pollster.rs\<close> and \<^verbatim>\<open>pty.rs\<close> on it. They open and spawn through the
    definitions of \<open>Pty\<close> and read and write through \<open>Pty_File\<close>.

  \<^bold>\<open>What is shown.\<close> \<open>Flip_Buffer\<close>: every operation on every branch, and any sequence of operations behaves as a
  bounded FIFO. \<open>Polled_Fd\<close>: when registrations panic, and that exactly the pending changes are
  reported. \<open>Loop_Properties\<close>: the invariant of the manager, that no wakeup is lost (except that a client which was marked
  read-only is not polled for reading), exactly when handlers panic, bounds, accepting a connection. \<open>End_To_End\<close>: along any run, what was written to
  one side, followed by what is buffered, is a subsequence of what was read from the other side, and all of it while little
  enough came in. \<open>Delivery\<close>: bytes that wait for a descriptor are written to it within as many iterations as there are bytes, if it
  accepts them, and it is then no longer polled for writing. \<open>Hangup_Properties\<close>: hangups of
  the child's channels, of the client and of a pty's slave. \<open>Run_Properties\<close>: when the loop ends, that the batch with the close
  notification is dispatched whole before it does, and
  that epoll ends up configured as requested. \<open>Pty_Properties\<close>: retrying, opening,
  spawning, and what the child does before \<^verbatim>\<open>exec\<close>. \<open>Program_Properties\<close>: arguments, start-up, exit status,
  and the event loop's guarantee from the command line on under every interleaving of
  the threads and of signals. \<open>Shutdown\<close>: what a signal does in every state of the program, by the dispositions that the program has
  installed by then, and that the process ends
  within three steps of its threads once the worker was notified. \<open>Known_Defects\<close>: behaviour that the modelling showed to be wrong, stated as the code has it.

  \<^bold>\<open>Checks of the model.\<close> The repository's own tests are translated too and run against the definitions. They are checks that
  the model computes what the tests expect, not properties of the program, and no property uses them. \<open>Unit_Tests\<close>: the tests of the
  two modules. \<open>Socket_Tests\<close>, \<open>Pty_Tests_Pass\<close>: the tests of the event loop and of the pty, which need a kernel. They run on one
  instance of the parameter \<open>platform\<close>, the kernel of \<open>Test_Kernel\<close> with the terminal of \<open>Terminal\<close>, for every
  schedule, where a schedule says how far the worker gets before each wait returns, which of two orders (as registered, or the reverse)
  the wait reports ready descriptors in, and how fast the child is; what the programs of the tests do (\<^verbatim>\<open>cat\<close>, \<^verbatim>\<open>yes\<close>,
  \<^verbatim>\<open>stty\<close>) is a parameter, of which the hypothesis \<open>coreutils\<close> states what is documented.

  \<^bold>\<open>Conventions.\<close> A panic is \<open>None\<close>. The loops \<open>run\<close>, \<open>retry_interrupted\<close> and \<open>write_all\<close> are partial functions: there \<open>None\<close> is
  a loop that never ends, and for \<open>run\<close> and the worker's closure \<open>Some None\<close> is a panic. No fuel is used.
  Handlers take and return the manager, the descriptor set and the world. A handle that is dropped is
  closed explicitly. \<^verbatim>\<open>usize\<close> is \<open>nat\<close> with checked addition and subtraction; descriptors, masks and tags are words of their
  width. In \<open>process_step\<close> one iteration of the loop is one step of the worker, so the main thread's
  calls come between iterations; they touch neither descriptors nor epoll (\<open>quiet_calls\<close>). The arrival of a signal is a step as
  well: it does what the disposition that is in force says, that is the default action (the process is killed) or the handler, which runs
  between the steps of the threads. One that interrupts a wait is an \<^verbatim>\<open>EINTR\<close> of that wait. \<^verbatim>\<open>kill_child_on_signal\<close> is one step of the
  main thread, so no signal arrives between its three \<^verbatim>\<open>sigaction\<close> calls.

  \<^bold>\<open>Not modelled.\<close> What is dropped when the worker's closure or \<^verbatim>\<open>main\<close> ends (the process is about to exit), the failure
  of \<^verbatim>\<open>std::thread::spawn\<close>, arguments that are not Unicode, the \<^verbatim>\<open>Display\<close> and \<^verbatim>\<open>Debug\<close> text of errors in messages. Of the
  socket tests the path in the file system is left out; the kernel of \<open>Test_Kernel\<close> has the behaviour that \<^verbatim>\<open>pipe(7)\<close>,
  \<^verbatim>\<open>unix(7)\<close>, \<^verbatim>\<open>pty(7)\<close>, \<^verbatim>\<open>termios(3)\<close> and \<^verbatim>\<open>epoll(7)\<close> document for the calls these tests make, and its terminal echoes a write at
  once. The shell scripts under \<^verbatim>\<open>src/tests\<close> exercise the
  built program.
\<close>

end
